theory Spec2Isabelle
  imports Complex_Main "HOL-Library.Log_Nat"
begin

section \<open>JavaScript numbers and strings\<close>

text \<open>
  The aggregator manager compares token amounts after \<^verbatim>\<open>parseFloat\<close>, so its
  behaviour depends on IEEE 754 binary64 rounding. A finite double is modelled by the
  rational it denotes; \<open>fl\<close> rounds a rational to the nearest double (ties to even,
  53 significant bits, least exponent -1074, overflow to infinity). Negative zero is
  identified with zero.
\<close>

datatype number = NaN | PosInfinity | NegInfinity | Fin rat

definition pow2 :: "int \<Rightarrow> rat" where
  "pow2 k = (if 0 \<le> k then 2 ^ nat k else 1 / 2 ^ nat (- k))"

definition pow10 :: "int \<Rightarrow> rat" where
  "pow10 k = (if 0 \<le> k then 10 ^ nat k else 1 / 10 ^ nat (- k))"

definition floor_log2 :: "rat \<Rightarrow> int" where
  \<comment> \<open>for \<open>a > 0\<close>: the exponent \<open>e\<close> with \<open>2^e \<le> a < 2^(e+1)\<close>\<close>
  "floor_log2 a =
     (let e = bitlen (fst (quotient_of a)) - bitlen (snd (quotient_of a))
      in if pow2 e \<le> a then e else e - 1)"

definition round_half_even :: "rat \<Rightarrow> int" where
  "round_half_even m =
     (let f = \<lfloor>m\<rfloor>; d = m - of_int f
      in if d < 1 / 2 then f
         else if 1 / 2 < d then f + 1
         else if even f then f else f + 1)"

definition fl :: "rat \<Rightarrow> number" where
  "fl r =
     (if r = 0 then Fin 0
      else
        let a = \<bar>r\<bar>;
            u = max (floor_log2 a - 52) (- 1074);
            v = of_int (round_half_even (a / pow2 u)) * pow2 u
        in if pow2 1024 \<le> v then (if r < 0 then NegInfinity else PosInfinity)
           else Fin (if r < 0 then - v else v))"

fun num_neg :: "number \<Rightarrow> number" where
  "num_neg NaN = NaN"
| "num_neg PosInfinity = NegInfinity"
| "num_neg NegInfinity = PosInfinity"
| "num_neg (Fin a) = Fin (- a)"

fun num_add :: "number \<Rightarrow> number \<Rightarrow> number" where
  "num_add NaN _ = NaN"
| "num_add _ NaN = NaN"
| "num_add PosInfinity NegInfinity = NaN"
| "num_add NegInfinity PosInfinity = NaN"
| "num_add PosInfinity _ = PosInfinity"
| "num_add NegInfinity _ = NegInfinity"
| "num_add (Fin a) PosInfinity = PosInfinity"
| "num_add (Fin a) NegInfinity = NegInfinity"
| "num_add (Fin a) (Fin b) = fl (a + b)"

definition num_sub :: "number \<Rightarrow> number \<Rightarrow> number" where
  "num_sub x y = num_add x (num_neg y)"

definition signed_inf :: "bool \<Rightarrow> number" where
  "signed_inf negative = (if negative then NegInfinity else PosInfinity)"

fun num_mul :: "number \<Rightarrow> number \<Rightarrow> number" where
  "num_mul NaN _ = NaN"
| "num_mul _ NaN = NaN"
| "num_mul (Fin a) (Fin b) = fl (a * b)"
| "num_mul (Fin a) PosInfinity = (if a = 0 then NaN else signed_inf (a < 0))"
| "num_mul (Fin a) NegInfinity = (if a = 0 then NaN else signed_inf (0 < a))"
| "num_mul PosInfinity (Fin b) = (if b = 0 then NaN else signed_inf (b < 0))"
| "num_mul NegInfinity (Fin b) = (if b = 0 then NaN else signed_inf (0 < b))"
| "num_mul PosInfinity PosInfinity = PosInfinity"
| "num_mul PosInfinity NegInfinity = NegInfinity"
| "num_mul NegInfinity PosInfinity = NegInfinity"
| "num_mul NegInfinity NegInfinity = PosInfinity"

fun num_div :: "number \<Rightarrow> number \<Rightarrow> number" where
  "num_div NaN _ = NaN"
| "num_div _ NaN = NaN"
| "num_div (Fin a) (Fin b) =
     (if b = 0 then (if a = 0 then NaN else signed_inf (a < 0)) else fl (a / b))"
| "num_div (Fin a) _ = Fin 0"
| "num_div PosInfinity (Fin b) = signed_inf (b < 0)"
| "num_div NegInfinity (Fin b) = signed_inf (0 \<le> b)"
| "num_div _ _ = NaN"

fun num_less :: "number \<Rightarrow> number \<Rightarrow> bool" where
  "num_less NaN _ = False"
| "num_less _ NaN = False"
| "num_less (Fin a) (Fin b) = (a < b)"
| "num_less NegInfinity NegInfinity = False"
| "num_less NegInfinity _ = True"
| "num_less _ NegInfinity = False"
| "num_less PosInfinity _ = False"
| "num_less (Fin a) PosInfinity = True"

definition num_greater :: "number \<Rightarrow> number \<Rightarrow> bool" where
  "num_greater x y = num_less y x"

fun Math_max :: "number \<Rightarrow> number \<Rightarrow> number" where
  "Math_max NaN _ = NaN"
| "Math_max _ NaN = NaN"
| "Math_max x y = (if num_less x y then y else x)"

fun truthy_number :: "number \<Rightarrow> bool" where
  "truthy_number NaN = False"
| "truthy_number (Fin a) = (a \<noteq> 0)"
| "truthy_number _ = True"

subsection \<open>Decimal strings\<close>

definition is_digit :: "char \<Rightarrow> bool" where
  "is_digit c = (c \<in> set ''0123456789'')"

definition is_space :: "char \<Rightarrow> bool" where
  \<comment> \<open>TAB, LF, VT, FF, CR and SP; the white space beyond ASCII is not represented\<close>
  "is_space c = (of_char c \<in> {9, 10, 11, 12, 13, 32 :: nat})"

definition digit_val :: "char \<Rightarrow> nat" where
  "digit_val c = of_char c - 48"

definition digits_val :: "string \<Rightarrow> nat" where
  "digits_val ds = foldl (\<lambda>a c. 10 * a + digit_val c) 0 ds"

definition digit_char :: "nat \<Rightarrow> char" where
  "digit_char d = char_of (48 + d)"

function nat_to_dec :: "nat \<Rightarrow> string" where
  "nat_to_dec n = (if n < 10 then [digit_char n] else nat_to_dec (n div 10) @ [digit_char (n mod 10)])"
  by pat_completeness auto
termination
  by (relation "measure id") auto

declare nat_to_dec.simps [simp del]

definition take_sign :: "string \<Rightarrow> bool \<times> string" where
  "take_sign t =
     (case t of
        [] \<Rightarrow> (False, t)
      | c # r \<Rightarrow> if c = CHR ''-'' then (True, r) else if c = CHR ''+'' then (False, r) else (False, t))"

definition exponent_part :: "string \<Rightarrow> int" where
  "exponent_part r =
     (case r of
        [] \<Rightarrow> 0
      | c # r' \<Rightarrow>
          if c = CHR ''e'' \<or> c = CHR ''E'' then
            (let (negative, r'') = take_sign r'; ds = takeWhile is_digit r''
             in if ds = [] then 0
                else if negative then - int (digits_val ds) else int (digits_val ds))
          else 0)"

definition fraction_part :: "string \<Rightarrow> string \<times> string" where
  "fraction_part r =
     (case r of
        [] \<Rightarrow> ([], r)
      | c # r' \<Rightarrow>
          if c = CHR ''.'' then (takeWhile is_digit r', dropWhile is_digit r') else ([], r))"

definition parseFloat :: "string \<Rightarrow> number" where
  \<comment> \<open>the longest prefix of the trimmed string that is a \<open>StrDecimalLiteral\<close>\<close>
  "parseFloat s =
     (let (negative, u) = take_sign (dropWhile is_space s)
      in if take 8 u = ''Infinity'' then signed_inf negative
         else
           let ip = takeWhile is_digit u;
               (fp, r2) = fraction_part (dropWhile is_digit u)
           in if ip = [] \<and> fp = [] then NaN
              else
                let mv = of_nat (digits_val (ip @ fp)) * pow10 (exponent_part r2 - int (length fp))
                in fl (if negative then - mv else mv))"

definition toFixed2 :: "number \<Rightarrow> string option" where
  \<comment> \<open>\<^verbatim>\<open>x.toFixed(2)\<close>; from \<open>10^21\<close> on ECMAScript switches to the exponential
      \<^verbatim>\<open>Number::toString\<close>, which is not modelled: \<open>None\<close>\<close>
  "toFixed2 x =
     (case x of
        NaN \<Rightarrow> Some ''NaN''
      | PosInfinity \<Rightarrow> Some ''Infinity''
      | NegInfinity \<Rightarrow> Some ''-Infinity''
      | Fin r \<Rightarrow>
          if 10 ^ 21 \<le> \<bar>r\<bar> then None
          else
            let n = nat \<lfloor>\<bar>r\<bar> * 100 + 1 / 2\<rfloor>;
                m = nat_to_dec n;
                m' = replicate (3 - length m) (CHR ''0'') @ m;
                k = length m'
            in Some ((if r < 0 then ''-'' else '''') @ take (k - 2) m' @ ''.'' @ drop (k - 2) m'))"

definition lower_char :: "char \<Rightarrow> char" where
  "lower_char c = (if c \<in> set ''ABCDEFGHIJKLMNOPQRSTUVWXYZ'' then char_of (of_char c + (32::nat)) else c)"

definition toLowerCase :: "string \<Rightarrow> string" where
  \<comment> \<open>on ASCII letters\<close>
  "toLowerCase s = map lower_char s"

section \<open>Domain model\<close>

datatype AggregatorType = ZEROX | ODOS

datatype ApprovalStrategy = ALLOWANCE_HOLDER | PERMIT2

datatype error =
    NoProvidersSupportChain int
  | AllProvidersFailed nat int
  | NoQuotesForComparison
  | ReduceOfEmptyArray
  | NoPermit2Data
  | IntegerOutOfRange
  | UnableToDetermineSwapType
  | OnChainNotSupported
  | NotEvmRequest
  | NotSameChain
  | InvalidChainId
  | InvalidAddress
  | BigIntSyntaxError
  | SignatureConcatenationFailed
  | Permit2WorkflowFailed
  | Upstream string

text \<open>
  The EIP-712 bundle of a quote; \<open>types\<close>, \<open>domain\<close> and \<open>message\<close> are opaque to the
  gateway and kept as one serialised field.
\<close>

record Permit2Data =
  permit2_type :: string
  permit2_hash :: string
  eip712_primaryType :: string
  eip712_typed_data :: string

text \<open>
  \<open>SwapQuote\<close> of \<^verbatim>\<open>models/ports.ts\<close> and of the legacy model differ in the type of
  \<open>aggregator\<close> only; the record is parametric in it. The fields \<^verbatim>\<open>to\<close>,
  \<^verbatim>\<open>data\<close>, \<^verbatim>\<open>value\<close> carry the prefix \<open>quote_\<close>, as do the three fields
  that the request records share.
\<close>

record 'a SwapQuote =
  quote_sellToken :: string
  quote_buyToken :: string
  quote_sellAmount :: string
  buyAmount :: string
  minBuyAmount :: string
  gas :: string
  quote_to :: string
  quote_data :: string
  quote_value :: string
  allowanceTarget :: "string option"
  aggregator :: 'a
  permit2 :: "Permit2Data option"

record SwapRequest =
  req_chainId :: int
  req_sellToken :: string
  req_buyToken :: string
  req_sellAmount :: string
  req_taker :: string
  req_recipient :: "string option"
  req_slippagePercentage :: "number option"
  req_deadline :: "int option"
  req_aggregator :: "string option"
  req_approvalStrategy :: "ApprovalStrategy option"

datatype HealthStatus = healthy | degraded | unhealthy

record ProviderHealth =
  health_name :: string
  status :: HealthStatus
  latency :: "number option"
  lastCheck :: int
  errorRate :: "number option"

text \<open>
  An adapter as the manager sees it. The calls that leave the process
  (\<^verbatim>\<open>getQuote\<close>, \<^verbatim>\<open>healthCheck\<close>) are represented by their outcome.
\<close>

record provider =
  getProviderName :: string
  supportsChain :: "int \<Rightarrow> bool"
  getQuote :: "SwapRequest \<Rightarrow> error + string SwapQuote"
  healthCheck :: "error + ProviderHealth"

record quote_result =
  result_aggregator :: AggregatorType
  result_quote :: "AggregatorType SwapQuote"

section \<open>Aggregator manager: the registry\<close>

text \<open>
  A JavaScript \<^verbatim>\<open>Map\<close> iterates in insertion order: an association list in which
  \<open>Map_set\<close> overwrites in place or appends.
\<close>

definition Map_has :: "'k \<Rightarrow> ('k \<times> 'v) list \<Rightarrow> bool" where
  "Map_has k m = (map_of m k \<noteq> None)"

fun Map_set :: "'k \<Rightarrow> 'v \<Rightarrow> ('k \<times> 'v) list \<Rightarrow> ('k \<times> 'v) list" where
  "Map_set k v [] = [(k, v)]"
| "Map_set k v ((k', v') # m) = (if k = k' then (k, v) # m else (k', v') # Map_set k v m)"

definition Map_values :: "('k \<times> 'v) list \<Rightarrow> 'v list" where
  "Map_values m = map snd m"

datatype log_entry = Log string | Warn string | Debug string | Err string

datatype ProviderCategory = EVM_AGGREGATOR | META_AGGREGATOR | SOLANA_ROUTER | NATIVE_ROUTER

record AggregatorManagerService =
  aggregators :: "(AggregatorType \<times> provider) list"
  evmAggregators :: "(string \<times> provider) list"
  metaAggregators :: "(string \<times> provider) list"
  solanaRouters :: "(string \<times> provider) list"
  nativeRouters :: "(string \<times> provider) list"
  healthCache :: "(string \<times> ProviderHealth) list"
  registrationComplete :: bool
  logger :: "log_entry list"

definition registerInLegacyMap :: "string \<Rightarrow> provider \<Rightarrow> AggregatorManagerService \<Rightarrow> AggregatorManagerService" where
  "registerInLegacyMap name p s =
     (let lowerName = toLowerCase name
      in if lowerName = ''0x'' then
           s\<lparr>aggregators := Map_set ZEROX p (aggregators s),
             logger := logger s @ [Debug ''Also registered in legacy map as ZEROX'']\<rparr>
         else if lowerName = ''odos'' then
           s\<lparr>aggregators := Map_set ODOS p (aggregators s),
             logger := logger s @ [Debug ''Also registered in legacy map as ODOS'']\<rparr>
         else s)"

definition registerEvmAggregator :: "provider \<Rightarrow> AggregatorManagerService \<Rightarrow> AggregatorManagerService" where
  "registerEvmAggregator p s =
     (let name = getProviderName p
      in if Map_has name (evmAggregators s) then
           s\<lparr>logger := logger s @ [Warn (''EVM aggregator already registered, skipping duplicate: '' @ name)]\<rparr>
         else
           (let s1 = s\<lparr>evmAggregators := Map_set name p (evmAggregators s)\<rparr>;
                s2 = registerInLegacyMap name p s1
            in s2\<lparr>logger := logger s2 @ [Log (''Self-registered EVM aggregator: '' @ name)]\<rparr>))"

definition registerMetaAggregator :: "provider \<Rightarrow> AggregatorManagerService \<Rightarrow> AggregatorManagerService" where
  "registerMetaAggregator p s =
     (let name = getProviderName p
      in if Map_has name (metaAggregators s) then
           s\<lparr>logger := logger s @ [Warn (''Meta aggregator already registered, skipping duplicate: '' @ name)]\<rparr>
         else
           s\<lparr>metaAggregators := Map_set name p (metaAggregators s),
             logger := logger s @ [Log (''Self-registered Meta aggregator: '' @ name)]\<rparr>)"

definition registerSolanaRouter :: "provider \<Rightarrow> AggregatorManagerService \<Rightarrow> AggregatorManagerService" where
  "registerSolanaRouter p s =
     (let name = getProviderName p
      in if Map_has name (solanaRouters s) then
           s\<lparr>logger := logger s @ [Warn (''Solana router already registered, skipping duplicate: '' @ name)]\<rparr>
         else
           s\<lparr>solanaRouters := Map_set name p (solanaRouters s),
             logger := logger s @ [Log (''Self-registered Solana router: '' @ name)]\<rparr>)"

definition registerNativeRouter :: "provider \<Rightarrow> AggregatorManagerService \<Rightarrow> AggregatorManagerService" where
  "registerNativeRouter p s =
     (let name = getProviderName p
      in if Map_has name (nativeRouters s) then
           s\<lparr>logger := logger s @ [Warn (''Native router already registered, skipping duplicate: '' @ name)]\<rparr>
         else
           s\<lparr>nativeRouters := Map_set name p (nativeRouters s),
             logger := logger s @ [Log (''Self-registered Native router: '' @ name)]\<rparr>)"

fun registerProvider :: "provider \<Rightarrow> ProviderCategory \<Rightarrow> AggregatorManagerService \<Rightarrow> AggregatorManagerService" where
  "registerProvider p EVM_AGGREGATOR s = registerEvmAggregator p s"
| "registerProvider p META_AGGREGATOR s = registerMetaAggregator p s"
| "registerProvider p SOLANA_ROUTER s = registerSolanaRouter p s"
| "registerProvider p NATIVE_ROUTER s = registerNativeRouter p s"

text \<open>The registry proper: everything of the service but its log.\<close>

definition registry_maps ::
  "AggregatorManagerService \<Rightarrow>
     (AggregatorType \<times> provider) list \<times> (string \<times> provider) list \<times> (string \<times> provider) list \<times>
     (string \<times> provider) list \<times> (string \<times> provider) list" where
  "registry_maps s =
     (aggregators s, evmAggregators s, metaAggregators s, solanaRouters s, nativeRouters s)"

section \<open>Aggregator manager: quotes\<close>

definition convertToPortsRequest :: "SwapRequest \<Rightarrow> SwapRequest" where
  "convertToPortsRequest request =
     request\<lparr>req_aggregator :=
       (case req_aggregator request of
          None \<Rightarrow> Some ''default''
        | Some a \<Rightarrow> if a = [] then Some ''default'' else Some a)\<rparr>"

definition convertToLegacyQuote :: "string SwapQuote \<Rightarrow> string \<Rightarrow> AggregatorType SwapQuote" where
  "convertToLegacyQuote q providerName =
     (let lowerName = toLowerCase providerName;
          aggregatorType = (if lowerName = ''0x'' then ZEROX else if lowerName = ''odos'' then ODOS else ZEROX)
      in \<lparr>quote_sellToken = quote_sellToken q, quote_buyToken = quote_buyToken q,
          quote_sellAmount = quote_sellAmount q, buyAmount = buyAmount q,
          minBuyAmount = minBuyAmount q, gas = gas q, quote_to = quote_to q,
          quote_data = quote_data q, quote_value = quote_value q,
          allowanceTarget = allowanceTarget q, aggregator = aggregatorType,
          permit2 = permit2 q\<rparr>)"

definition getProvidersForChain :: "AggregatorManagerService \<Rightarrow> int \<Rightarrow> provider list" where
  "getProvidersForChain s chain = filter (\<lambda>p. supportsChain p chain) (Map_values (evmAggregators s))"

text \<open>
  \<^verbatim>\<open>Promise.allSettled\<close> over the supported providers: the fulfilled quotes are kept
  in the order of the providers, the rejected ones are dropped.
\<close>

fun settled_quotes :: "SwapRequest \<Rightarrow> provider list \<Rightarrow> quote_result list" where
  "settled_quotes request [] = []"
| "settled_quotes request (p # ps) =
     (case getQuote p request of
        Inl e \<Rightarrow> settled_quotes request ps
      | Inr q \<Rightarrow>
          (let legacyQuote = convertToLegacyQuote q (getProviderName p)
           in \<lparr>result_aggregator = aggregator legacyQuote, result_quote = legacyQuote\<rparr>
              # settled_quotes request ps))"

text \<open>
  The eight positional parameters of \<^verbatim>\<open>getMultipleQuotes\<close> are passed as a request
  record; the request it builds from them has no aggregator and no approval strategy.
\<close>

definition getMultipleQuotes :: "AggregatorManagerService \<Rightarrow> SwapRequest \<Rightarrow> error + quote_result list" where
  "getMultipleQuotes s params =
     (let request = params\<lparr>req_aggregator := None, req_approvalStrategy := None\<rparr>;
          supportedProviders = getProvidersForChain s (req_chainId request)
      in if length supportedProviders = 0 then Inl (NoProvidersSupportChain (req_chainId request))
         else
           let results = settled_quotes (convertToPortsRequest request) supportedProviders
           in if length results = 0
              then Inl (AllProvidersFailed (length supportedProviders) (req_chainId request))
              else Inr results)"

text \<open>\<^verbatim>\<open>Array.prototype.reduce\<close> without an initial value.\<close>

definition reduce :: "('a \<Rightarrow> 'a \<Rightarrow> 'a) \<Rightarrow> 'a list \<Rightarrow> error + 'a" where
  "reduce f xs = (case xs of [] \<Rightarrow> Inl ReduceOfEmptyArray | x # rest \<Rightarrow> Inr (foldl f x rest))"

definition pick_best :: "quote_result \<Rightarrow> quote_result \<Rightarrow> quote_result" where
  "pick_best best current =
     (let bestBuyAmount = parseFloat (buyAmount (result_quote best));
          currentBuyAmount = parseFloat (buyAmount (result_quote current))
      in if num_greater currentBuyAmount bestBuyAmount then current else best)"

definition pick_worst :: "quote_result \<Rightarrow> quote_result \<Rightarrow> quote_result" where
  "pick_worst worst current =
     (let worstBuyAmount = parseFloat (buyAmount (result_quote worst));
          currentBuyAmount = parseFloat (buyAmount (result_quote current))
      in if num_less currentBuyAmount worstBuyAmount then current else worst)"

definition getBestQuote :: "AggregatorManagerService \<Rightarrow> SwapRequest \<Rightarrow> error + quote_result" where
  "getBestQuote s request =
     (case getMultipleQuotes s request of
        Inl e \<Rightarrow> Inl e
      | Inr multipleQuotes \<Rightarrow> reduce pick_best multipleQuotes)"

record quote_comparison =
  quotes :: "quote_result list"
  bestAggregator :: AggregatorType
  priceDifference :: "string option"

text \<open>
  \<open>priceDifference\<close> is \<open>None\<close> where \<open>toFixed2\<close> is: the rendering of a ratio of
  \<open>10^21\<close> percent or more is outside the model.
\<close>

definition compareQuotes :: "AggregatorManagerService \<Rightarrow> SwapRequest \<Rightarrow> error + quote_comparison" where
  "compareQuotes s request =
     (case getMultipleQuotes s request of
        Inl e \<Rightarrow> Inl e
      | Inr qs \<Rightarrow>
          if length qs = 0 then Inl NoQuotesForComparison
          else
            (case reduce pick_best qs of
               Inl e \<Rightarrow> Inl e
             | Inr bestQuote \<Rightarrow>
                 (case reduce pick_worst qs of
                    Inl e \<Rightarrow> Inl e
                  | Inr worstQuote \<Rightarrow>
                      (let bestAmount = parseFloat (buyAmount (result_quote bestQuote));
                           worstAmount = parseFloat (buyAmount (result_quote worstQuote));
                           priceDifference =
                             toFixed2 (num_mul (num_div (num_sub bestAmount worstAmount) worstAmount) (Fin 100))
                       in Inr \<lparr>quotes = qs,
                               bestAggregator = result_aggregator bestQuote,
                               priceDifference = map_option (\<lambda>d. d @ ''%'') priceDifference\<rparr>))))"

section \<open>Aggregator manager: health and scoring\<close>

definition healthCacheTimeout :: int where
  "healthCacheTimeout = 5 * 60 * 1000"

text \<open>
  \<open>getProviderHealth\<close> reads the clock (\<open>now\<close>, in milliseconds) and the cache, and
  probes the provider when the cached entry is missing or stale; it returns the health
  and the updated cache.
\<close>

definition getProviderHealth ::
  "(string \<times> ProviderHealth) list \<Rightarrow> int \<Rightarrow> provider \<Rightarrow> ProviderHealth \<times> (string \<times> ProviderHealth) list" where
  "getProviderHealth cache now p =
     (let name = getProviderName p
      in case map_of cache name of
           Some cached \<Rightarrow>
             if now - lastCheck cached < healthCacheTimeout then (cached, cache)
             else
               (case healthCheck p of
                  Inr health \<Rightarrow> (health, Map_set name health cache)
                | Inl e \<Rightarrow>
                    (let failedHealth = \<lparr>health_name = name, status = unhealthy, latency = None,
                                          lastCheck = now, errorRate = Some (Fin 1)\<rparr>
                     in (failedHealth, Map_set name failedHealth cache)))
         | None \<Rightarrow>
             (case healthCheck p of
                Inr health \<Rightarrow> (health, Map_set name health cache)
              | Inl e \<Rightarrow>
                  (let failedHealth = \<lparr>health_name = name, status = unhealthy, latency = None,
                                        lastCheck = now, errorRate = Some (Fin 1)\<rparr>
                   in (failedHealth, Map_set name failedHealth cache))))"

definition health_score :: "ProviderHealth \<Rightarrow> number" where
  \<comment> \<open>the first block of \<^verbatim>\<open>calculateProviderScore\<close>: base score and health\<close>
  "health_score health =
     (let score = Fin 100
      in if status health = healthy then
           (let score = num_add score (Fin 50);
                score = (case latency health of
                           None \<Rightarrow> score
                         | Some l \<Rightarrow>
                             if truthy_number l
                             then num_add score (Math_max (Fin 0) (num_sub (Fin 100) l))
                             else score);
                score = (case errorRate health of
                           None \<Rightarrow> score
                         | Some r \<Rightarrow> num_sub score (num_mul r (Fin 100)))
            in score)
         else num_sub score (Fin 100))"

definition provider_bonuses :: "string \<Rightarrow> SwapRequest \<Rightarrow> number \<Rightarrow> number" where
  \<comment> \<open>the second block: chain, trade size and approval strategy\<close>
  "provider_bonuses providerName request score =
     (let score =
            (if req_chainId request = 1 then
               (if providerName = ''0x'' then num_add score (Fin 20) else score)
             else if req_chainId request = 137 then
               (if providerName = ''odos'' then num_add score (Fin 15) else score)
             else score);
          score =
            (if req_sellAmount request \<noteq> [] then
               (let amount = parseFloat (req_sellAmount request)
                in if num_greater amount (Fin (10 ^ 21)) then
                     (if providerName = ''0x'' then num_add score (Fin 10) else score)
                   else score)
             else score);
          score =
            (if req_approvalStrategy request = Some PERMIT2 then
               (if providerName = ''0x'' then num_add score (Fin 25) else score)
             else score)
      in score)"

definition calculateProviderScore ::
  "(string \<times> ProviderHealth) list \<Rightarrow> int \<Rightarrow> provider \<Rightarrow> SwapRequest \<Rightarrow> number \<times> (string \<times> ProviderHealth) list" where
  "calculateProviderScore cache now p request =
     (let (health, cache') = getProviderHealth cache now p;
          score = health_score health;
          providerName = toLowerCase (getProviderName p);
          score = provider_bonuses providerName request score
      in (Math_max (Fin 0) score, cache'))"

section \<open>Universal swap request\<close>

datatype BlockchainEcosystem =
  EVM | SOLANA | COSMOS | BITCOIN | SUBSTRATE | NEAR | TERRA | AVALANCHE | THORCHAIN | MAYA

datatype SwapType = ON_CHAIN | CROSS_CHAIN | L1_TO_L2 | L2_TO_L1 | L2_TO_L2 | NATIVE_SWAP

datatype TokenStandard = NATIVE | ERC20 | SPL | BEP20 | COSMOS_NATIVE | RUNE | CACAO

text \<open>
  \<^verbatim>\<open>chainId?: number | string\<close>. A number of a request body is a finite double, given
  by the rational it denotes, so that \<^verbatim>\<open>===\<close> is equality.
\<close>

datatype chain_id = NumberId rat | StringId string

record ChainInfo =
  chainId :: "chain_id option"
  ecosystem :: BlockchainEcosystem
  network :: "string option"

record TokenInfo =
  address :: string
  standard :: TokenStandard
  chain :: ChainInfo

record UniversalSwapRequestDto =
  sellToken :: TokenInfo
  buyToken :: TokenInfo
  sellAmount :: string
  taker :: string
  recipient :: "string option"
  slippageToleranceBps :: "rat option"
  swapType :: "SwapType option"
  deadline :: "int option"

section \<open>Swap routing service\<close>

definition isNativeL1Swap :: "BlockchainEcosystem \<Rightarrow> BlockchainEcosystem \<Rightarrow> bool" where
  "isNativeL1Swap sellEcosystem buyEcosystem =
     (let nativeL1Ecosystems = [BITCOIN, THORCHAIN, MAYA, COSMOS]
      in sellEcosystem \<in> set nativeL1Ecosystems \<or> buyEcosystem \<in> set nativeL1Ecosystems)"

definition includes_chain :: "rat list \<Rightarrow> chain_id option \<Rightarrow> bool" where
  \<comment> \<open>\<^verbatim>\<open>Array.includes\<close> on a list of numbers: a string or a missing id is not a member\<close>
  "includes_chain xs c = (case c of Some (NumberId n) \<Rightarrow> n \<in> set xs | _ \<Rightarrow> False)"

definition determineEvmSwapType :: "chain_id option \<Rightarrow> chain_id option \<Rightarrow> SwapType" where
  "determineEvmSwapType sellChainId buyChainId =
     (let l1Chains = [1, 56, 137];
          l2Chains = [10, 42161, 8453, 324];
          sellIsL1 = includes_chain l1Chains sellChainId;
          buyIsL1 = includes_chain l1Chains buyChainId;
          sellIsL2 = includes_chain l2Chains sellChainId;
          buyIsL2 = includes_chain l2Chains buyChainId
      in if sellIsL1 \<and> buyIsL2 then L1_TO_L2
         else if sellIsL2 \<and> buyIsL1 then L2_TO_L1
         else if sellIsL2 \<and> buyIsL2 then L2_TO_L2
         else CROSS_CHAIN)"

definition autoDetectSwapType :: "UniversalSwapRequestDto \<Rightarrow> error + SwapType" where
  \<comment> \<open>the body of \<^verbatim>\<open>determineSwapType\<close> below the override block\<close>
  "autoDetectSwapType request =
     (let sellChain = chain (sellToken request);
          buyChain = chain (buyToken request)
      in if ecosystem sellChain = ecosystem buyChain \<and> chainId sellChain = chainId buyChain then
           Inr ON_CHAIN
         else if ecosystem sellChain \<noteq> ecosystem buyChain then
           (if isNativeL1Swap (ecosystem sellChain) (ecosystem buyChain) then Inr NATIVE_SWAP
            else Inr CROSS_CHAIN)
         else if ecosystem sellChain = ecosystem buyChain \<and> chainId sellChain \<noteq> chainId buyChain then
           (if ecosystem sellChain = EVM
            then Inr (determineEvmSwapType (chainId sellChain) (chainId buyChain))
            else Inr CROSS_CHAIN)
         else Inl UnableToDetermineSwapType)"

text \<open>
  \<^verbatim>\<open>determineSwapType\<close> and \<^verbatim>\<open>validateSwapType\<close> call each other; the recursion
  ends because the validation removes the override before it classifies again.
\<close>

function determineSwapType :: "UniversalSwapRequestDto \<Rightarrow> error + SwapType"
  and validateSwapType :: "UniversalSwapRequestDto \<Rightarrow> SwapType \<Rightarrow> error + bool" where
  "determineSwapType request =
     (case swapType request of
        None \<Rightarrow> autoDetectSwapType request
      | Some t \<Rightarrow>
          (case validateSwapType request t of
             Inl e \<Rightarrow> Inl e
           | Inr valid \<Rightarrow> if valid then Inr t else autoDetectSwapType request))"
| "validateSwapType request t =
     (case determineSwapType (request\<lparr>swapType := None\<rparr>) of
        Inl e \<Rightarrow> Inl e
      | Inr detected \<Rightarrow> Inr (detected = t))"
  by pat_completeness auto
termination
  by (relation "measure (\<lambda>x. case x of
                     Inl request \<Rightarrow> (if swapType request = None then 0 else 2)
                   | Inr (request, t) \<Rightarrow> 1)") auto

definition getOnChainProviderCategory :: "UniversalSwapRequestDto \<Rightarrow> error + string" where
  "getOnChainProviderCategory request =
     (let eco = ecosystem (chain (sellToken request))
      in if eco = EVM \<or> eco = AVALANCHE then Inr ''evm-aggregators''
         else if eco = SOLANA then Inr ''solana''
         else Inl OnChainNotSupported)"

fun determineProviderCategory :: "SwapType \<Rightarrow> UniversalSwapRequestDto \<Rightarrow> error + string" where
  "determineProviderCategory ON_CHAIN request = getOnChainProviderCategory request"
| "determineProviderCategory NATIVE_SWAP request = Inr ''native-l1''"
| "determineProviderCategory _ request = Inr ''meta''"

definition isSupportedEcosystem :: "BlockchainEcosystem \<Rightarrow> bool" where
  "isSupportedEcosystem eco = (eco \<in> set [EVM, SOLANA, COSMOS, BITCOIN, THORCHAIN, MAYA])"

text \<open>
  The provider registry of the routing service is an array of arbitrary objects: an
  element may be missing (\<open>None\<close>) and may have no \<^verbatim>\<open>supportsChain\<close> function.
\<close>

record registered_provider =
  providerLabel :: string
  supportsChainFn :: "(number \<Rightarrow> bool) option"

text \<open>The supported-quote cache: per chain, the lower-cased buy and sell tokens.\<close>

type_synonym SwapCacheService = "(chain_id option \<times> string list \<times> string list) list"

definition addSupportedQuote :: "chain_id option \<Rightarrow> string \<Rightarrow> string \<Rightarrow> SwapCacheService \<Rightarrow> SwapCacheService" where
  "addSupportedQuote c buyTok sellTok cache =
     (let (buys, sells) = (case map_of cache c of None \<Rightarrow> ([], []) | Some entry \<Rightarrow> entry)
      in Map_set c (List.insert (toLowerCase buyTok) buys, List.insert (toLowerCase sellTok) sells) cache)"

record SwapRoutingService =
  providerRegistry :: "registered_provider option list"
  swapCacheService :: SwapCacheService

definition is_hex_digit :: "char \<Rightarrow> bool" where
  "is_hex_digit c = (c \<in> set ''0123456789abcdefABCDEF'')"

definition hex_digit_val :: "char \<Rightarrow> nat" where
  "hex_digit_val c =
     (if c \<in> set ''0123456789'' then of_char c - 48
      else if c \<in> set ''abcdef'' then of_char c - 87
      else of_char c - 55)"

definition radix_val :: "nat \<Rightarrow> string \<Rightarrow> nat" where
  "radix_val b ds = foldl (\<lambda>a c. b * a + hex_digit_val c) 0 ds"

definition trim :: "string \<Rightarrow> string" where
  "trim s = rev (dropWhile is_space (rev (dropWhile is_space s)))"

definition decimal_literal :: "string \<Rightarrow> number" where
  \<comment> \<open>a whole string as \<open>StrDecimalLiteral\<close>, \<open>NaN\<close> when characters are left over\<close>
  "decimal_literal t =
     (let (negative, u) = take_sign t
      in if u = ''Infinity'' then signed_inf negative
         else
           let ip = takeWhile is_digit u;
               (fp, r2) = fraction_part (dropWhile is_digit u);
               rest_ok =
                 (case r2 of
                    [] \<Rightarrow> True
                  | c # r' \<Rightarrow>
                      (c = CHR ''e'' \<or> c = CHR ''E'')
                      \<and> (let ds = snd (take_sign r') in ds \<noteq> [] \<and> list_all is_digit ds))
           in if (ip = [] \<and> fp = []) \<or> \<not> rest_ok then NaN
              else
                let mv = of_nat (digits_val (ip @ fp)) * pow10 (exponent_part r2 - int (length fp))
                in fl (if negative then - mv else mv))"

definition StringToNumber :: "string \<Rightarrow> number" where
  "StringToNumber s =
     (let t = trim s
      in if t = [] then Fin 0
         else if (take 2 t = ''0x'' \<or> take 2 t = ''0X'') then
           (if drop 2 t \<noteq> [] \<and> list_all is_hex_digit (drop 2 t)
            then fl (of_nat (radix_val 16 (drop 2 t))) else NaN)
         else if (take 2 t = ''0o'' \<or> take 2 t = ''0O'') then
           (if drop 2 t \<noteq> [] \<and> list_all (\<lambda>c. c \<in> set ''01234567'') (drop 2 t)
            then fl (of_nat (radix_val 8 (drop 2 t))) else NaN)
         else if (take 2 t = ''0b'' \<or> take 2 t = ''0B'') then
           (if drop 2 t \<noteq> [] \<and> list_all (\<lambda>c. c \<in> set ''01'') (drop 2 t)
            then fl (of_nat (radix_val 2 (drop 2 t))) else NaN)
         else decimal_literal t)"

definition Number_of_chainId :: "chain_id \<Rightarrow> number" where
  "Number_of_chainId c = (case c of NumberId n \<Rightarrow> Fin n | StringId s \<Rightarrow> StringToNumber s)"

definition falsy_chainId :: "chain_id option \<Rightarrow> bool" where
  \<comment> \<open>\<^verbatim>\<open>!chain.chainId\<close>: undefined, the number zero, the empty string\<close>
  "falsy_chainId c = (case c of None \<Rightarrow> True | Some (NumberId n) \<Rightarrow> n = 0 | Some (StringId s) \<Rightarrow> s = [])"

fun any_provider_supports :: "registered_provider option list \<Rightarrow> number \<Rightarrow> bool" where
  \<comment> \<open>the \<^verbatim>\<open>for\<close> loop of \<^verbatim>\<open>isChainSupported\<close>\<close>
  "any_provider_supports [] n = False"
| "any_provider_supports (p # ps) n =
     (case p of
        Some prov \<Rightarrow>
          (case supportsChainFn prov of
             Some f \<Rightarrow> if f n then True else any_provider_supports ps n
           | None \<Rightarrow> any_provider_supports ps n)
      | None \<Rightarrow> any_provider_supports ps n)"

definition isChainSupported :: "SwapRoutingService \<Rightarrow> ChainInfo \<Rightarrow> bool" where
  "isChainSupported svc c =
     (case chainId c of
        None \<Rightarrow> False
      | Some cid \<Rightarrow>
          if falsy_chainId (Some cid) then False
          else
            let n = Number_of_chainId cid
            in if length (providerRegistry svc) > 0 then any_provider_supports (providerRegistry svc) n
               else True)"

definition validateChainCompatibility :: "SwapRoutingService \<Rightarrow> UniversalSwapRequestDto \<Rightarrow> bool" where
  "validateChainCompatibility svc request =
     (let sellChain = chain (sellToken request);
          buyChain = chain (buyToken request)
      in if \<not> isSupportedEcosystem (ecosystem sellChain) \<or> \<not> isSupportedEcosystem (ecosystem buyChain)
         then False
         else isChainSupported svc sellChain \<and> isChainSupported svc buyChain)"

section \<open>Permit2: splicing the signature into the transaction data\<close>

text \<open>
  Modelled from the spec: the functions \<^verbatim>\<open>size\<close>, \<^verbatim>\<open>numberToHex\<close> and
  \<^verbatim>\<open>concat\<close> that \<^verbatim>\<open>appendSignatureToTxData\<close> imports from the viem library are
  not part of the repository. They are given here on hex strings, as the spec describes
  the splice: the byte size of a \<^verbatim>\<open>0x\<close> string, the unsigned big-endian rendering of
  a number padded to a number of bytes, and the concatenation of hex strings under a
  single \<^verbatim>\<open>0x\<close> prefix.
\<close>

definition hex_char :: "nat \<Rightarrow> char" where
  "hex_char d = ''0123456789abcdef'' ! d"

function nat_to_hex :: "nat \<Rightarrow> string" where
  "nat_to_hex n = (if n < 16 then [hex_char n] else nat_to_hex (n div 16) @ [hex_char (n mod 16)])"
  by pat_completeness auto
termination
  by (relation "measure id") auto

declare nat_to_hex.simps [simp del]

definition size_hex :: "string \<Rightarrow> nat" where
  "size_hex v = (if take 2 v = ''0x'' then (length v - 2 + 1) div 2 else length v)"

definition numberToHex :: "nat \<Rightarrow> nat \<Rightarrow> error + string" where
  "numberToHex v sz =
     (if 2 ^ (sz * 8) - 1 < v then Inl IntegerOutOfRange
      else
        let hex = nat_to_hex v
        in if sz * 2 < length hex then Inl IntegerOutOfRange
           else Inr (''0x'' @ replicate (sz * 2 - length hex) (CHR ''0'') @ hex))"

fun strip_0x :: "string \<Rightarrow> string" where
  \<comment> \<open>\<^verbatim>\<open>x.replace('0x', '')\<close>: the first occurrence is removed\<close>
  "strip_0x (a # b # r) = (if a = CHR ''0'' \<and> b = CHR ''x'' then r else a # strip_0x (b # r))"
| "strip_0x r = r"

definition concat_hex :: "string list \<Rightarrow> string" where
  "concat_hex vs = ''0x'' @ foldl (\<lambda>acc x. acc @ strip_0x x) [] vs"

definition appendSignatureToTxData :: "string \<Rightarrow> string \<Rightarrow> error + string" where
  "appendSignatureToTxData transactionData signature =
     (case numberToHex (size_hex signature) 32 of
        Inl e \<Rightarrow> Inl SignatureConcatenationFailed
      | Inr signatureLengthInHex \<Rightarrow>
          Inr (concat_hex [transactionData, signatureLengthInHex, signature]))"

record permit2_result =
  originalTxData :: string
  signature :: string
  modifiedTxData :: string
  permit2Data :: Permit2Data

definition hasPermit2Data :: "'a SwapQuote \<Rightarrow> bool" where
  "hasPermit2Data q = (permit2 q \<noteq> None)"

text \<open>
  \<^verbatim>\<open>signPermit2Data\<close> reaches the wallet client; it is a parameter, given by the
  outcome of the signing call.
\<close>

definition processPermit2Quote ::
  "(int \<Rightarrow> string \<Rightarrow> Permit2Data \<Rightarrow> error + string) \<Rightarrow> 'a SwapQuote \<Rightarrow> string \<Rightarrow> int
     \<Rightarrow> error + permit2_result" where
  "processPermit2Quote signPermit2Data q privateKey cid =
     (case permit2 q of
        None \<Rightarrow> Inl NoPermit2Data
      | Some pd \<Rightarrow>
          (case signPermit2Data cid privateKey pd of
             Inl e \<Rightarrow> Inl Permit2WorkflowFailed
           | Inr sig \<Rightarrow>
               (case appendSignatureToTxData (quote_data q) sig of
                  Inl e \<Rightarrow> Inl Permit2WorkflowFailed
                | Inr modified \<Rightarrow>
                    Inr \<lparr>originalTxData = quote_data q, signature = sig,
                         modifiedTxData = modified, permit2Data = pd\<rparr>)))"

section \<open>Approval status\<close>

definition BigInt :: "string \<Rightarrow> error + int" where
  \<comment> \<open>\<^verbatim>\<open>BigInt(string)\<close>: white space is trimmed, the empty string is zero, a sign is
      allowed before decimal digits only\<close>
  "BigInt s =
     (let t = trim s
      in if t = [] then Inr 0
         else if (take 2 t = ''0x'' \<or> take 2 t = ''0X'') then
           (if drop 2 t \<noteq> [] \<and> list_all is_hex_digit (drop 2 t)
            then Inr (int (radix_val 16 (drop 2 t))) else Inl BigIntSyntaxError)
         else if (take 2 t = ''0o'' \<or> take 2 t = ''0O'') then
           (if drop 2 t \<noteq> [] \<and> list_all (\<lambda>c. c \<in> set ''01234567'') (drop 2 t)
            then Inr (int (radix_val 8 (drop 2 t))) else Inl BigIntSyntaxError)
         else if (take 2 t = ''0b'' \<or> take 2 t = ''0B'') then
           (if drop 2 t \<noteq> [] \<and> list_all (\<lambda>c. c \<in> set ''01'') (drop 2 t)
            then Inr (int (radix_val 2 (drop 2 t))) else Inl BigIntSyntaxError)
         else
           let (negative, u) = take_sign t
           in if u \<noteq> [] \<and> list_all is_digit u
              then Inr (if negative then - int (digits_val u) else int (digits_val u))
              else Inl BigIntSyntaxError)"

definition getNativeTokenAddress :: string where
  "getNativeTokenAddress = ''0x0000000000000000000000000000000000000000''"

definition isNativeToken :: "string \<Rightarrow> bool" where
  "isNativeToken tokenAddress = (toLowerCase tokenAddress = toLowerCase getNativeTokenAddress)"

definition permit2Addresses :: "(int \<times> string) list" where
  "permit2Addresses =
     [(1, ''0x000000000022D473030F116dDEE9F6B43aC78BA3''),
      (137, ''0x000000000022D473030F116dDEE9F6B43aC78BA3''),
      (56, ''0x000000000022D473030F116dDEE9F6B43aC78BA3''),
      (42161, ''0x000000000022D473030F116dDEE9F6B43aC78BA3''),
      (10, ''0x000000000022D473030F116dDEE9F6B43aC78BA3''),
      (8453, ''0x000000000022D473030F116dDEE9F6B43aC78BA3''),
      (43114, ''0x000000000022D473030F116dDEE9F6B43aC78BA3'')]"

definition isPermit2Supported :: "int \<Rightarrow> bool" where
  "isPermit2Supported c = Map_has c permit2Addresses"

definition getPermit2Address :: "int \<Rightarrow> error + string" where
  "getPermit2Address c =
     (case map_of permit2Addresses c of
        None \<Rightarrow> Inl (Upstream ''Permit2 not supported on chain'')
      | Some a \<Rightarrow> Inr a)"

text \<open>
  What the approval service reaches outside the process: the address check of the viem
  library, the wallet service (allowance and token information are read from the chain)
  and the compatibility probe of the Permit2 service. Each call is given by its outcome.
\<close>

record approval_env =
  isAddress :: "string \<Rightarrow> bool"
  getAllowance :: "int \<Rightarrow> string \<Rightarrow> string \<Rightarrow> string \<Rightarrow> error + string"
  getTokenInfo :: "int \<Rightarrow> string \<Rightarrow> error + string"
  isTokenPermit2Compatible :: "int \<Rightarrow> string \<Rightarrow> error + bool"

definition validateTokenAddress :: "approval_env \<Rightarrow> string \<Rightarrow> error + unit" where
  "validateTokenAddress env tokenAddress =
     (if tokenAddress = [] then Inl InvalidAddress
      else if \<not> isAddress env tokenAddress then Inl InvalidAddress
      else Inr ())"

definition validateWalletAddress :: "approval_env \<Rightarrow> string \<Rightarrow> error + unit" where
  "validateWalletAddress env walletAddress =
     (if walletAddress = [] then Inl InvalidAddress
      else if \<not> isAddress env walletAddress then Inl InvalidAddress
      else Inr ())"

record approval_status =
  currentAllowance :: string
  isApprovalNeeded :: bool
  tokenInfo :: "string option"
  isPermit2Compatible :: "bool option"
  permit2Address :: "string option"

definition permit2_compatibility :: "approval_env \<Rightarrow> int \<Rightarrow> string \<Rightarrow> bool \<times> string option" where
  \<comment> \<open>the block that fills \<^verbatim>\<open>isPermit2Compatible\<close> and \<^verbatim>\<open>permit2Address\<close>; a failure
      inside it is logged and otherwise ignored\<close>
  "permit2_compatibility env c tokenAddress =
     (if isPermit2Supported c then
        (case isTokenPermit2Compatible env c tokenAddress of
           Inl e \<Rightarrow> (False, None)
         | Inr compatible \<Rightarrow>
             if compatible then
               (case getPermit2Address c of
                  Inl e \<Rightarrow> (compatible, None)
                | Inr a \<Rightarrow> (compatible, Some a))
             else (compatible, None))
      else (False, None))"

definition approval_needed :: "string \<Rightarrow> string option \<Rightarrow> error + bool" where
  \<comment> \<open>the block that decides \<^verbatim>\<open>isApprovalNeeded\<close>; an absent or empty amount is falsy\<close>
  "approval_needed allowance amount =
     (if amount \<noteq> None \<and> amount \<noteq> Some [] then
        (case BigInt (the amount) of
           Inl e \<Rightarrow> Inl e
         | Inr requiredAmount \<Rightarrow>
             (case BigInt allowance of
                Inl e \<Rightarrow> Inl e
              | Inr currentAllowanceBigInt \<Rightarrow> Inr (currentAllowanceBigInt < requiredAmount)))
      else
        (case BigInt allowance of
           Inl e \<Rightarrow> Inl e
         | Inr a \<Rightarrow> Inr (a = 0)))"

text \<open>
  The errors that \<^verbatim>\<open>getApprovalStatus\<close> catches are thrown again with a prefixed
  message; the model returns the error that was caught. Of the two reads that run under
  \<^verbatim>\<open>Promise.all\<close>, the allowance is taken to fail first.
\<close>

definition getApprovalStatus ::
  "approval_env \<Rightarrow> int \<Rightarrow> string \<Rightarrow> string \<Rightarrow> string \<Rightarrow> string option \<Rightarrow> error + approval_status" where
  "getApprovalStatus env c tokenAddress owner spender amount =
     (if c = 0 \<or> c \<le> 0 then Inl InvalidChainId
      else
        case validateTokenAddress env tokenAddress of
          Inl e \<Rightarrow> Inl e
        | Inr _ \<Rightarrow>
        case validateWalletAddress env owner of
          Inl e \<Rightarrow> Inl e
        | Inr _ \<Rightarrow>
        case validateWalletAddress env spender of
          Inl e \<Rightarrow> Inl e
        | Inr _ \<Rightarrow>
        if isNativeToken tokenAddress then
          Inr \<lparr>currentAllowance = ''0'', isApprovalNeeded = False, tokenInfo = None,
               isPermit2Compatible = Some False, permit2Address = None\<rparr>
        else
          case getAllowance env c tokenAddress owner spender of
            Inl e \<Rightarrow> Inl e
          | Inr allowance \<Rightarrow>
          case getTokenInfo env c tokenAddress of
            Inl e \<Rightarrow> Inl e
          | Inr info \<Rightarrow>
          let (compatible, p2) = permit2_compatibility env c tokenAddress
          in case approval_needed allowance amount of
               Inl e \<Rightarrow> Inl e
             | Inr needed \<Rightarrow>
                 Inr \<lparr>currentAllowance = allowance, isApprovalNeeded = needed, tokenInfo = Some info,
                      isPermit2Compatible = Some compatible, permit2Address = p2\<rparr>)"

section \<open>Universal pre-check\<close>

definition message :: "error \<Rightarrow> string" where
  \<comment> \<open>\<^verbatim>\<open>e.message\<close>, without the interpolated numbers\<close>
  "message e =
     (case e of
        NoProvidersSupportChain c \<Rightarrow> ''No providers support chain''
      | AllProvidersFailed n c \<Rightarrow> ''All providers failed to provide quotes''
      | NoQuotesForComparison \<Rightarrow> ''No quotes available for comparison''
      | ReduceOfEmptyArray \<Rightarrow> ''Reduce of empty array with no initial value''
      | NoPermit2Data \<Rightarrow> ''Quote does not contain permit2 data''
      | IntegerOutOfRange \<Rightarrow> ''Number is not in safe integer range''
      | UnableToDetermineSwapType \<Rightarrow> ''Unable to determine swap type from request''
      | OnChainNotSupported \<Rightarrow> ''On-chain swaps not supported for ecosystem''
      | NotEvmRequest \<Rightarrow> ''EVM aggregators can only handle EVM ecosystem requests''
      | NotSameChain \<Rightarrow> ''EVM aggregators can only handle same-chain swaps''
      | InvalidChainId \<Rightarrow> ''Invalid chain ID''
      | InvalidAddress \<Rightarrow> ''Invalid address format''
      | BigIntSyntaxError \<Rightarrow> ''Cannot convert to a BigInt''
      | SignatureConcatenationFailed \<Rightarrow> ''Signature concatenation failed''
      | Permit2WorkflowFailed \<Rightarrow> ''Permit2 workflow failed''
      | Upstream m \<Rightarrow> m)"

text \<open>
  The parameters the controller passes to \<^verbatim>\<open>getMultipleQuotes\<close>. The chain id is the
  one of the request, which the cast \<^verbatim>\<open>as number\<close> does not convert.
\<close>

record legacy_params =
  lp_chainId :: "chain_id option"
  lp_sellToken :: string
  lp_buyToken :: string
  lp_sellAmount :: string
  lp_taker :: string
  lp_recipient :: "string option"
  lp_slippagePercentage :: "number option"
  lp_deadline :: "int option"

definition legacy_params_of :: "UniversalSwapRequestDto \<Rightarrow> legacy_params" where
  "legacy_params_of request =
     \<lparr>lp_chainId = chainId (chain (sellToken request)),
      lp_sellToken = address (sellToken request),
      lp_buyToken = address (buyToken request),
      lp_sellAmount = sellAmount request,
      lp_taker = taker request,
      lp_recipient = recipient request,
      lp_slippagePercentage =
        (case slippageToleranceBps request of
           None \<Rightarrow> None
         | Some bps \<Rightarrow> if bps = 0 then None else Some (num_div (Fin bps) (Fin 100))),
      lp_deadline = deadline request\<rparr>"

definition convertToLegacyParams :: "UniversalSwapRequestDto \<Rightarrow> error + legacy_params" where
  "convertToLegacyParams request =
     (if ecosystem (chain (sellToken request)) \<noteq> EVM \<or> ecosystem (chain (buyToken request)) \<noteq> EVM
      then Inl NotEvmRequest
      else if chainId (chain (sellToken request)) \<noteq> chainId (chain (buyToken request))
      then Inl NotSameChain
      else Inr (legacy_params_of request))"

record BalanceInfo =
  balance :: string
  symbol :: string

text \<open>
  The services the controller calls, each call given by its outcome: the multi-quote
  fan-out of the aggregator manager (once from the liquidity probe, once from
  \<^verbatim>\<open>getSpenderForSwap\<close>), the approval status, the wallet balance and the health of
  the EVM providers.
\<close>

record precheck_env =
  liquidityQuotes :: "legacy_params \<Rightarrow> error + quote_result list"
  spenderQuotes :: "legacy_params \<Rightarrow> error + quote_result list"
  approvalStatus :: "number \<Rightarrow> string \<Rightarrow> string \<Rightarrow> string \<Rightarrow> string \<Rightarrow> error + approval_status"
  getBalance :: "number \<Rightarrow> string \<Rightarrow> string \<Rightarrow> error + BalanceInfo"
  evmProvidersHealth :: "error + ProviderHealth list"

definition getSpenderForSwap ::
  "(legacy_params \<Rightarrow> error + quote_result list) \<Rightarrow> UniversalSwapRequestDto \<Rightarrow> error + string" where
  "getSpenderForSwap multiQuotes request =
     (case determineSwapType request of
        Inl e \<Rightarrow> Inl e
      | Inr t \<Rightarrow>
          (case determineProviderCategory t request of
             Inl e \<Rightarrow> Inl e
           | Inr providerCategory \<Rightarrow>
               if providerCategory = ''evm-aggregators'' then
                 (case multiQuotes (legacy_params_of request) of
                    Inl e \<Rightarrow> Inr []
                  | Inr qs \<Rightarrow>
                      (case qs of
                         [] \<Rightarrow> Inr []
                       | q # _ \<Rightarrow>
                           (case allowanceTarget (result_quote q) of
                              None \<Rightarrow> Inr []
                            | Some target \<Rightarrow> Inr target)))
               else Inr []))"

datatype detail = Outcome "bool option" | Note string | BalanceDetails string string string

text \<open>
  Each of the five \<^verbatim>\<open>try\<close> blocks of \<^verbatim>\<open>universalPreCheck\<close> is a function that
  returns its outcome together with the warnings it pushes and the entries it writes to
  \<^verbatim>\<open>details\<close>; the liquidity block also returns the pair it adds to the supported-quote
  cache.
\<close>

record probe =
  outcome :: "bool option"
  pushed :: "string list"
  noted :: "(string \<times> detail) list"

definition parametersProbe :: "SwapRoutingService \<Rightarrow> UniversalSwapRequestDto \<Rightarrow> probe" where
  \<comment> \<open>\<^verbatim>\<open>validateChainCompatibility\<close> contains no \<^verbatim>\<open>throw\<close> and the \<^verbatim>\<open>supportsChain\<close> of a
      registered provider is a total predicate here, so the \<^verbatim>\<open>catch\<close> branch of this
      block is not entered\<close>
  "parametersProbe svc request =
     (let valid = validateChainCompatibility svc request
      in \<lparr>outcome = Some valid,
          pushed = (if \<not> valid then [''Unsupported chain combination for swap''] else []),
          noted = [(''parametersValid'', Outcome (Some valid))]\<rparr>)"

definition liquidity_failed :: "error \<Rightarrow> probe \<times> legacy_params option" where
  "liquidity_failed e =
     (\<lparr>outcome = Some False, pushed = [''Liquidity check failed: '' @ message e],
       noted = [(''liquidityAvailable'', Outcome (Some False))]\<rparr>, None)"

definition liquidityProbe :: "precheck_env \<Rightarrow> UniversalSwapRequestDto \<Rightarrow> probe \<times> legacy_params option" where
  "liquidityProbe env request =
     (case determineSwapType request of
        Inl e \<Rightarrow> liquidity_failed e
      | Inr t \<Rightarrow>
          (case determineProviderCategory t request of
             Inl e \<Rightarrow> liquidity_failed e
           | Inr providerCategory \<Rightarrow>
               if providerCategory = ''evm-aggregators'' then
                 (case convertToLegacyParams request of
                    Inl e \<Rightarrow> liquidity_failed e
                  | Inr legacyParams \<Rightarrow>
                      (case liquidityQuotes env legacyParams of
                         Inl e \<Rightarrow> liquidity_failed e
                       | Inr qs \<Rightarrow>
                           (let available =
                                  (case qs of
                                     [] \<Rightarrow> False
                                   | q # _ \<Rightarrow>
                                       num_greater (parseFloat (buyAmount (result_quote q))) (Fin 0))
                            in if \<not> available then
                                 (\<lparr>outcome = Some False,
                                   pushed = [''No liquidity available for requested swap''],
                                   noted = [(''liquidityAvailable'', Outcome (Some False))]\<rparr>, None)
                               else
                                 (\<lparr>outcome = Some True, pushed = [],
                                   noted = [(''liquidityAvailable'', Outcome (Some True))]\<rparr>,
                                  Some legacyParams))))
               else
                 (\<lparr>outcome = Some True,
                   pushed = [''Liquidity check stubbed for non-EVM ecosystem''],
                   noted = [(''liquidityAvailable'', Outcome (Some True))]\<rparr>, None)))"

definition Number_of_optional_chainId :: "chain_id option \<Rightarrow> number" where
  "Number_of_optional_chainId c = (case c of None \<Rightarrow> NaN | Some cid \<Rightarrow> Number_of_chainId cid)"

definition approval_failed :: "error \<Rightarrow> probe" where
  "approval_failed e =
     \<lparr>outcome = Some False, pushed = [''Approval check failed: '' @ message e],
      noted = [(''approvalRequired'', Outcome (Some False))]\<rparr>"

definition approvalProbe :: "precheck_env \<Rightarrow> UniversalSwapRequestDto \<Rightarrow> probe" where
  "approvalProbe env request =
     (if ecosystem (chain (sellToken request)) = EVM then
        (let isNativeEth =
               (toLowerCase (address (sellToken request)) = ''0xeeeeeeeeeeeeeeeeeeeeeeeeeeeeeeeeeeeeeeee'')
         in if isNativeEth then
              \<lparr>outcome = Some False, pushed = [],
               noted = [(''approvalNote'', Note ''Native ETH does not require approval''),
                        (''approvalRequired'', Outcome (Some False))]\<rparr>
            else
              (case getSpenderForSwap (spenderQuotes env) request of
                 Inl e \<Rightarrow> approval_failed e
               | Inr spender \<Rightarrow>
                   if spender = [] then
                     \<lparr>outcome = None,
                      pushed = [''Approval check skipped: unable to determine spender address''],
                      noted = [(''approvalNote'',
                                Note ''Could not determine spender address - approval check skipped''),
                               (''approvalRequired'', Outcome None)]\<rparr>
                   else
                     (case approvalStatus env
                             (Number_of_optional_chainId (chainId (chain (sellToken request))))
                             (address (sellToken request)) (taker request) spender
                             (sellAmount request) of
                        Inl e \<Rightarrow> approval_failed e
                      | Inr st \<Rightarrow>
                          \<lparr>outcome = Some (isApprovalNeeded st),
                           pushed = (if isApprovalNeeded st
                                     then [''Token approval required for swap''] else []),
                           noted = [(''approvalRequired'', Outcome (Some (isApprovalNeeded st)))]\<rparr>)))
      else
        \<lparr>outcome = Some False, pushed = [],
         noted = [(''approvalNote'', Note ''Approval check stubbed for non-EVM ecosystem''),
                  (''approvalRequired'', Outcome (Some False))]\<rparr>)"

definition balance_failed :: "error \<Rightarrow> probe" where
  "balance_failed e =
     \<lparr>outcome = Some False, pushed = [''Wallet balance check failed: '' @ message e],
      noted = [(''sufficientBalance'', Outcome (Some False))]\<rparr>"

definition balanceProbe :: "precheck_env \<Rightarrow> UniversalSwapRequestDto \<Rightarrow> probe" where
  "balanceProbe env request =
     (if ecosystem (chain (sellToken request)) = EVM then
        (case getBalance env (Number_of_optional_chainId (chainId (chain (sellToken request))))
                (taker request) (address (sellToken request)) of
           Inl e \<Rightarrow> balance_failed e
         | Inr balanceInfo \<Rightarrow>
             (case BigInt (balance balanceInfo) of
                Inl e \<Rightarrow> balance_failed e
              | Inr balanceBigInt \<Rightarrow>
                  (case BigInt (sellAmount request) of
                     Inl e \<Rightarrow> balance_failed e
                   | Inr requiredAmount \<Rightarrow>
                       if \<not> requiredAmount \<le> balanceBigInt then
                         \<lparr>outcome = Some False,
                          pushed = [''Insufficient wallet balance for swap''],
                          noted = [(''balanceDetails'',
                                    BalanceDetails (sellAmount request) (balance balanceInfo)
                                      (symbol balanceInfo)),
                                   (''sufficientBalance'', Outcome (Some False))]\<rparr>
                       else
                         \<lparr>outcome = Some True, pushed = [],
                          noted = [(''sufficientBalance'', Outcome (Some True))]\<rparr>)))
      else
        \<lparr>outcome = Some True, pushed = [],
         noted = [(''balanceNote'', Note ''Wallet balance check stubbed for non-EVM ecosystem''),
                  (''sufficientBalance'', Outcome (Some True))]\<rparr>)"

definition healthProbe :: "precheck_env \<Rightarrow> UniversalSwapRequestDto \<Rightarrow> probe" where
  "healthProbe env request =
     (if ecosystem (chain (sellToken request)) = EVM then
        (case evmProvidersHealth env of
           Inl e \<Rightarrow>
             \<lparr>outcome = Some False, pushed = [''Provider health check failed: '' @ message e],
              noted = [(''providerHealthy'', Outcome (Some False))]\<rparr>
         | Inr healthResults \<Rightarrow>
             (let allHealthy = list_all (\<lambda>h. status h = healthy) healthResults
              in \<lparr>outcome = Some allHealthy,
                  pushed = (if \<not> allHealthy then [''Swap provider is currently unhealthy''] else []),
                  noted = [(''providerHealthy'', Outcome (Some allHealthy))]\<rparr>))
      else
        \<lparr>outcome = Some True, pushed = [],
         noted = [(''healthNote'', Note ''Provider health check stubbed for non-EVM ecosystem''),
                  (''providerHealthy'', Outcome (Some True))]\<rparr>)"

record precheck_result =
  parametersValid :: "bool option"
  liquidityAvailable :: "bool option"
  approvalRequired :: "bool option"
  sufficientBalance :: "bool option"
  providerHealthy :: "bool option"
  warnings :: "string list"
  details :: "(string \<times> detail) list"

definition cacheSupportedQuote :: "legacy_params option \<Rightarrow> SwapRoutingService \<Rightarrow> SwapRoutingService" where
  "cacheSupportedQuote cached svc =
     (case cached of
        None \<Rightarrow> svc
      | Some p \<Rightarrow>
          svc\<lparr>swapCacheService :=
                addSupportedQuote (lp_chainId p) (lp_buyToken p) (lp_sellToken p) (swapCacheService svc)\<rparr>)"

definition universalPreCheck ::
  "precheck_env \<Rightarrow> SwapRoutingService \<Rightarrow> UniversalSwapRequestDto \<Rightarrow> precheck_result \<times> SwapRoutingService" where
  "universalPreCheck env svc request =
     (let p1 = parametersProbe svc request;
          (p2, cached) = liquidityProbe env request;
          svc' = cacheSupportedQuote cached svc;
          p3 = approvalProbe env request;
          p4 = balanceProbe env request;
          p5 = healthProbe env request
      in (\<lparr>parametersValid = outcome p1,
           liquidityAvailable = outcome p2,
           approvalRequired = outcome p3,
           sufficientBalance = outcome p4,
           providerHealthy = outcome p5,
           warnings = pushed p1 @ pushed p2 @ pushed p3 @ pushed p4 @ pushed p5,
           details = noted p1 @ noted p2 @ noted p3 @ noted p4 @ noted p5\<rparr>, svc'))"

section \<open>Example adapters and requests\<close>

definition zeroX_adapter :: provider where
  "zeroX_adapter =
     \<lparr>getProviderName = ''0x'', supportsChain = (\<lambda>c. c = 1 \<or> c = 137),
      getQuote = (\<lambda>r. Inl (Upstream ''unavailable'')), healthCheck = Inl (Upstream ''unavailable'')\<rparr>"

definition empty_manager :: AggregatorManagerService where
  "empty_manager =
     \<lparr>aggregators = [], evmAggregators = [], metaAggregators = [], solanaRouters = [],
      nativeRouters = [], healthCache = [], registrationComplete = False, logger = []\<rparr>"

definition bootstrap_service :: SwapRoutingService where
  "bootstrap_service = \<lparr>providerRegistry = [], swapCacheService = []\<rparr>"

definition mainnet_only_service :: SwapRoutingService where
  "mainnet_only_service =
     \<lparr>providerRegistry = [Some \<lparr>providerLabel = ''0x'', supportsChainFn = Some (\<lambda>n. n = Fin 1)\<rparr>],
      swapCacheService = []\<rparr>"

definition solana_request :: UniversalSwapRequestDto where
  "solana_request =
     \<lparr>sellToken = \<lparr>address = ''So11111111111111111111111111111111111111112'', standard = NATIVE,
                    chain = \<lparr>chainId = None, ecosystem = SOLANA, network = Some ''mainnet''\<rparr>\<rparr>,
      buyToken = \<lparr>address = ''EPjFWdd5AufqSSqeM2qN1xzybapC8G4wEGGkZwyTDt1v'', standard = SPL,
                   chain = \<lparr>chainId = None, ecosystem = SOLANA, network = Some ''mainnet''\<rparr>\<rparr>,
      sellAmount = ''1000000000'', taker = ''DJZ7ZD8Cf4KF5Q7JfgXNSPDY7hM1DfgY3wGg9SKUkrfE'',
      recipient = None, slippageToleranceBps = None, swapType = None, deadline = None\<rparr>"

definition weth_usdc_request :: UniversalSwapRequestDto where
  "weth_usdc_request =
     \<lparr>sellToken = \<lparr>address = ''0xC02aaA39b223FE8D0A0e5C4F27eAD9083C756Cc2'', standard = ERC20,
                    chain = \<lparr>chainId = Some (NumberId 1), ecosystem = EVM, network = None\<rparr>\<rparr>,
      buyToken = \<lparr>address = ''0xA0b86991c6218b36c1d19D4a2e9Eb0cE3606eB48'', standard = ERC20,
                   chain = \<lparr>chainId = Some (NumberId 1), ecosystem = EVM, network = None\<rparr>\<rparr>,
      sellAmount = ''100000000000000'', taker = ''0x9C30214BeBfC3cD36aA4A11a9540e019f2951c5C'',
      recipient = None, slippageToleranceBps = None, swapType = None, deadline = None\<rparr>"

definition mislabelled_request :: UniversalSwapRequestDto where
  \<comment> \<open>Ethereum to Arbitrum, labelled on-chain by the caller\<close>
  "mislabelled_request =
     weth_usdc_request
       \<lparr>buyToken := \<lparr>address = ''0xaf88d065e77c8cC2239327C5EDb3A432268e5831'', standard = ERC20,
                      chain = \<lparr>chainId = Some (NumberId 42161), ecosystem = EVM, network = None\<rparr>\<rparr>,
        swapType := Some ON_CHAIN\<rparr>"

definition sample_quote :: "string \<Rightarrow> string \<Rightarrow> string SwapQuote" where
  "sample_quote name amount =
     \<lparr>quote_sellToken = ''0xC02aaA39b223FE8D0A0e5C4F27eAD9083C756Cc2'',
      quote_buyToken = ''0x6B175474E89094C44Da98b954EedeAC495271d0F'',
      quote_sellAmount = ''1000000000000000'', buyAmount = amount, minBuyAmount = amount,
      gas = ''200000'', quote_to = ''0x0000000000001fF3684f28c67538d4D072C22734'',
      quote_data = ''0xabcd'', quote_value = ''0'', allowanceTarget = None,
      aggregator = name, permit2 = None\<rparr>"

definition quoting_adapter :: "string \<Rightarrow> string \<Rightarrow> provider" where
  "quoting_adapter name amount =
     \<lparr>getProviderName = name, supportsChain = (\<lambda>c. c = 1 \<or> c = 137),
      getQuote = (\<lambda>r. Inr (sample_quote name amount)),
      healthCheck = Inl (Upstream ''unavailable'')\<rparr>"

definition mainnet_request :: SwapRequest where
  "mainnet_request =
     \<lparr>req_chainId = 1, req_sellToken = ''0xC02aaA39b223FE8D0A0e5C4F27eAD9083C756Cc2'',
      req_buyToken = ''0x6B175474E89094C44Da98b954EedeAC495271d0F'',
      req_sellAmount = ''1000000000000000'', req_taker = ''0x9C30214BeBfC3cD36aA4A11a9540e019f2951c5C'',
      req_recipient = None, req_slippagePercentage = None, req_deadline = None,
      req_aggregator = None, req_approvalStrategy = None\<rparr>"

definition two_quote_manager :: AggregatorManagerService where
  "two_quote_manager =
     registerEvmAggregator (quoting_adapter ''odos'' ''2000000000000000100'')
       (registerEvmAggregator (quoting_adapter ''0x'' ''2000000000000000000'') empty_manager)"

definition one_quote_manager :: AggregatorManagerService where
  "one_quote_manager =
     registerEvmAggregator (quoting_adapter ''0x'' ''2000000000000000000'') empty_manager"

definition permit2_request :: SwapRequest where
  "permit2_request = mainnet_request\<lparr>req_approvalStrategy := Some PERMIT2\<rparr>"

definition usdc :: string where
  "usdc = ''0xA0b86991c6218b36c1d19D4a2e9Eb0cE3606eB48''"

definition wallet_with_allowance :: "nat \<Rightarrow> approval_env" where
  "wallet_with_allowance n =
     \<lparr>isAddress = (\<lambda>a. length a = 42 \<and> take 2 a = ''0x''),
      getAllowance = (\<lambda>c t owner spender. Inr (nat_to_dec n)),
      getTokenInfo = (\<lambda>c t. Inr ''USDC''),
      isTokenPermit2Compatible = (\<lambda>c t. Inr True)\<rparr>"

definition flaky_zeroX_adapter :: provider where
  \<comment> \<open>healthy, 40 ms, one call in ten fails\<close>
  "flaky_zeroX_adapter =
     zeroX_adapter\<lparr>healthCheck :=
       Inr \<lparr>health_name = ''0x'', status = healthy, latency = Some (Fin 40), lastCheck = 0,
            errorRate = Some (fl (1 / 10))\<rparr>\<rparr>"

definition degraded_zeroX_adapter :: provider where
  "degraded_zeroX_adapter =
     zeroX_adapter\<lparr>healthCheck :=
       Inr \<lparr>health_name = ''0x'', status = degraded, latency = Some (Fin 250), lastCheck = 0,
            errorRate = Some (Fin (1 / 2))\<rparr>\<rparr>"

definition large_permit2_request :: SwapRequest where
  "large_permit2_request = permit2_request\<lparr>req_sellAmount := ''2000000000000000000000''\<rparr>"

definition manager_quotes :: "AggregatorManagerService \<Rightarrow> legacy_params \<Rightarrow> error + quote_result list" where
  \<comment> \<open>the call of \<^verbatim>\<open>getMultipleQuotes\<close> with the legacy parameters, for a numeric chain id\<close>
  "manager_quotes s p =
     (case lp_chainId p of
        Some (NumberId c) \<Rightarrow>
          getMultipleQuotes s
            \<lparr>req_chainId = \<lfloor>c\<rfloor>, req_sellToken = lp_sellToken p, req_buyToken = lp_buyToken p,
             req_sellAmount = lp_sellAmount p, req_taker = lp_taker p,
             req_recipient = lp_recipient p, req_slippagePercentage = lp_slippagePercentage p,
             req_deadline = lp_deadline p, req_aggregator = None, req_approvalStrategy = None\<rparr>
      | _ \<Rightarrow> Inl InvalidChainId)"

definition offline_env :: precheck_env where
  \<comment> \<open>every service the controller calls throws\<close>
  "offline_env =
     \<lparr>liquidityQuotes = (\<lambda>p. Inl (Upstream ''unavailable'')),
      spenderQuotes = (\<lambda>p. Inl (Upstream ''unavailable'')),
      approvalStatus = (\<lambda>c t owner spender amount. Inl (Upstream ''unavailable'')),
      getBalance = (\<lambda>c owner t. Inl (Upstream ''unavailable'')),
      evmProvidersHealth = Inl (Upstream ''unavailable'')\<rparr>"

definition manager_env :: "AggregatorManagerService \<Rightarrow> precheck_env" where
  \<comment> \<open>only the aggregator manager answers\<close>
  "manager_env s = offline_env\<lparr>liquidityQuotes := manager_quotes s, spenderQuotes := manager_quotes s\<rparr>"

definition zero_first_manager :: AggregatorManagerService where
  "zero_first_manager =
     registerEvmAggregator (quoting_adapter ''odos'' ''2000000000000000000'')
       (registerEvmAggregator (quoting_adapter ''0x'' ''0'') empty_manager)"


section \<open>Properties of the number model\<close>

lemma pow2_powi: "pow2 k = 2 powi k"
  by (cases "0 \<le> k") (auto simp: pow2_def power_int_def field_simps)

lemma pow2_pos [simp]: "0 < pow2 k"
  by (simp add: pow2_powi)

lemma pow2_add: "pow2 (i + j) = pow2 i * pow2 j"
  by (simp add: pow2_powi power_int_add)

lemma pow2_mono: "i \<le> j \<Longrightarrow> pow2 i \<le> pow2 j"
  by (simp add: pow2_powi power_int_increasing)

lemma pow2_strict_mono: "i < j \<Longrightarrow> pow2 i < pow2 j"
  by (simp add: pow2_powi power_int_strict_increasing)

lemma pow2_nat: "pow2 (int n) = 2 ^ n"
  by (simp add: pow2_def)

lemma floor_log2_unique:
  assumes "pow2 e \<le> a" "a < pow2 (e + 1)" "pow2 e' \<le> a" "a < pow2 (e' + 1)"
  shows "e = e'"
proof (rule ccontr)
  assume "e \<noteq> e'"
  then consider "e + 1 \<le> e'" | "e' + 1 \<le> e" by linarith
  then show False
  proof cases
    case 1
    then have "pow2 (e + 1) \<le> pow2 e'" by (rule pow2_mono)
    with assms show False by linarith
  next
    case 2
    then have "pow2 (e' + 1) \<le> pow2 e" by (rule pow2_mono)
    with assms show False by linarith
  qed
qed

lemma floor_log2_bounds:
  assumes "0 < a"
  shows "pow2 (floor_log2 a) \<le> a \<and> a < pow2 (floor_log2 a + 1)"
proof -
  obtain p q where pq: "quotient_of a = (p, q)" by (cases "quotient_of a")
  have q: "0 < q" using pq by (rule quotient_of_denom_pos)
  have a: "a = of_int p / of_int q" using pq by (rule quotient_of_div)
  have p: "0 < p" using assms q unfolding a by (simp add: zero_less_divide_iff)
  define bp where "bp = bitlen p"
  define bq where "bq = bitlen q"
  have bp: "2 ^ nat (bp - 1) \<le> p" "p < 2 ^ nat bp" using bitlen_bounds[OF p] by (simp_all add: bp_def)
  have bq: "2 ^ nat (bq - 1) \<le> q" "q < 2 ^ nat bq" using bitlen_bounds[OF q] by (simp_all add: bq_def)
  have bp1: "1 \<le> bp" using p by (simp add: bp_def bitlen_alt_def)
  have bq1: "1 \<le> bq" using q by (simp add: bq_def bitlen_alt_def)
  have rp: "pow2 (bp - 1) \<le> of_int p" "of_int p < pow2 bp"
  proof -
    have "(of_int (2 ^ nat (bp - 1)) :: rat) \<le> of_int p" using bp(1) by (simp only: of_int_le_iff)
    then show "pow2 (bp - 1) \<le> of_int p" using bp1 by (simp add: pow2_def)
    have "(of_int p :: rat) < of_int (2 ^ nat bp)" using bp(2) by (simp only: of_int_less_iff)
    then show "of_int p < pow2 bp" using bp1 by (simp add: pow2_def)
  qed
  have rq: "pow2 (bq - 1) \<le> of_int q" "of_int q < pow2 bq"
  proof -
    have "(of_int (2 ^ nat (bq - 1)) :: rat) \<le> of_int q" using bq(1) by (simp only: of_int_le_iff)
    then show "pow2 (bq - 1) \<le> of_int q" using bq1 by (simp add: pow2_def)
    have "(of_int q :: rat) < of_int (2 ^ nat bq)" using bq(2) by (simp only: of_int_less_iff)
    then show "of_int q < pow2 bq" using bq1 by (simp add: pow2_def)
  qed
  have qpos: "(0::rat) < of_int q" using q by simp
  have lower: "pow2 (bp - bq - 1) < a"
  proof -
    have "pow2 (bp - bq - 1) * of_int q < pow2 (bp - bq - 1) * pow2 bq"
      using rq(2) by (simp add: mult_strict_left_mono)
    also have "\<dots> = pow2 (bp - 1)" by (simp add: pow2_add [symmetric])
    also have "\<dots> \<le> of_int p" by (rule rp(1))
    finally show ?thesis unfolding a using qpos by (simp add: pos_less_divide_eq)
  qed
  have upper: "a < pow2 (bp - bq + 1)"
  proof -
    have "of_int p < pow2 bp" by (rule rp(2))
    also have "\<dots> = pow2 (bp - bq + 1) * pow2 (bq - 1)" by (simp add: pow2_add [symmetric])
    also have "\<dots> \<le> pow2 (bp - bq + 1) * of_int q"
      using rq(1) by (simp add: mult_left_mono less_imp_le)
    finally show ?thesis unfolding a using qpos by (simp add: pos_divide_less_eq)
  qed
  show ?thesis
  proof (cases "pow2 (bp - bq) \<le> a")
    case True
    then have "floor_log2 a = bp - bq" by (simp add: floor_log2_def pq bp_def bq_def)
    then show ?thesis using True upper by simp
  next
    case False
    then have "floor_log2 a = bp - bq - 1" by (simp add: floor_log2_def pq bp_def bq_def)
    then show ?thesis using False lower by simp
  qed
qed

lemma floor_log2_eqI:
  assumes "pow2 e \<le> a" "a < pow2 (e + 1)"
  shows "floor_log2 a = e"
proof -
  have "0 < a" using assms(1) pow2_pos[of e] by linarith
  from floor_log2_bounds[OF this] assms show ?thesis
    by (intro floor_log2_unique[of "floor_log2 a" a e]) simp_all
qed

lemma fl_eval:
  assumes "pow2 e \<le> a" "a < pow2 (e + 1)"
    and "u = max (e - 52) (- 1074)"
    and "v = of_int (round_half_even (a / pow2 u)) * pow2 u"
    and "v < pow2 1024"
  shows "fl a = Fin v"
proof -
  have "0 < a" using assms(1) pow2_pos[of e] by linarith
  then show ?thesis using assms by (simp add: fl_def floor_log2_eqI[OF assms(1,2)] Let_def)
qed


lemma round_half_even_divide:
  assumes "0 < d"
  shows "round_half_even (of_int n / of_int d) =
           (if 2 * (n mod d) < d then n div d
            else if d < 2 * (n mod d) then n div d + 1
            else if even (n div d) then n div d else n div d + 1)"
proof -
  have f: "\<lfloor>(of_int n / of_int d :: rat)\<rfloor> = n div d"
    by (rule floor_divide_of_int_eq)
  have dpos: "(0::rat) < of_int d" using assms by simp
  have "(of_int n :: rat) = of_int (n div d * d + n mod d)" by simp
  also have "\<dots> = of_int (n div d) * of_int d + of_int (n mod d)"
    by (simp only: of_int_add of_int_mult)
  finally have "(of_int n / of_int d :: rat) = of_int (n div d) + of_int (n mod d) / of_int d"
    using dpos by (simp add: field_simps)
  then have frac: "(of_int n / of_int d :: rat) - of_int (n div d) = of_int (n mod d) / of_int d"
    by simp
  have lt: "(of_int (n mod d) / of_int d :: rat) < 1 / 2 \<longleftrightarrow> 2 * (n mod d) < d"
  proof -
    have "(of_int (n mod d) / of_int d :: rat) < 1 / 2 \<longleftrightarrow> (of_int (2 * (n mod d)) :: rat) < of_int d"
      using dpos by (simp add: field_simps)
    also have "\<dots> \<longleftrightarrow> 2 * (n mod d) < d" by (simp only: of_int_less_iff)
    finally show ?thesis .
  qed
  have gt: "1 / 2 < (of_int (n mod d) / of_int d :: rat) \<longleftrightarrow> d < 2 * (n mod d)"
  proof -
    have "1 / 2 < (of_int (n mod d) / of_int d :: rat) \<longleftrightarrow> (of_int d :: rat) < of_int (2 * (n mod d))"
      using dpos by (simp add: field_simps)
    also have "\<dots> \<longleftrightarrow> d < 2 * (n mod d)" by (simp only: of_int_less_iff)
    finally show ?thesis .
  qed
  show ?thesis
    unfolding round_half_even_def Let_def f frac lt gt by simp
qed

lemma fl_nat_window:
  fixes n k :: nat
  assumes "2 ^ (52 + k) \<le> n" "n < 2 ^ (53 + k)" "k \<le> 970"
  shows "fl (of_nat n) =
           Fin (of_int ((if 2 * (int n mod 2 ^ k) < 2 ^ k then int n div 2 ^ k
                         else if 2 ^ k < 2 * (int n mod 2 ^ k) then int n div 2 ^ k + 1
                         else if even (int n div 2 ^ k) then int n div 2 ^ k else int n div 2 ^ k + 1)
                        * 2 ^ k))"
proof -
  let ?a = "of_nat n :: rat"
  let ?r = "round_half_even (of_int (int n) / of_int (2 ^ k))"
  have lo: "pow2 (int (52 + k)) \<le> ?a"
  proof -
    have "(of_nat (2 ^ (52 + k)) :: rat) \<le> of_nat n" using assms(1) by (simp only: of_nat_le_iff)
    moreover have "pow2 (int (52 + k)) = of_nat (2 ^ (52 + k))" by (simp only: pow2_nat of_nat_power of_nat_numeral)
    ultimately show ?thesis by simp
  qed
  have hi: "?a < pow2 (int (52 + k) + 1)"
  proof -
    have "(of_nat n :: rat) < of_nat (2 ^ (53 + k))" using assms(2) by (simp only: of_nat_less_iff)
    moreover have "int (52 + k) + 1 = int (53 + k)" by simp
    moreover have "pow2 (int (53 + k)) = of_nat (2 ^ (53 + k))" by (simp only: pow2_nat of_nat_power of_nat_numeral)
    ultimately show ?thesis by simp
  qed
  have u: "int k = max (int (52 + k) - 52) (- 1074)" by simp
  have quot: "?a / pow2 (int k) = of_int (int n) / of_int (2 ^ k)"
    by (simp add: pow2_nat)
  have rle: "?r \<le> 2 ^ (53 + k) div 2 ^ k"
  proof -
    have d: "int n div 2 ^ k < 2 ^ 53"
    proof -
      have lt: "int n < 2 ^ 53 * 2 ^ k"
        using assms(2) by (simp add: power_add of_nat_less_iff[symmetric, where 'a=int] del: of_nat_less_iff)
      show ?thesis
      proof (rule ccontr)
        assume "\<not> int n div 2 ^ k < 2 ^ 53"
        then have "(2 ^ 53 :: int) \<le> int n div 2 ^ k" by simp
        then have "(2 ^ 53 :: int) * 2 ^ k \<le> int n div 2 ^ k * 2 ^ k"
          by (rule mult_right_mono) simp
        also have "\<dots> \<le> int n div 2 ^ k * 2 ^ k + int n mod 2 ^ k" by simp
        also have "\<dots> = int n" by (rule div_mult_mod_eq)
        finally show False using lt by simp
      qed
    qed
    have "?r \<le> int n div 2 ^ k + 1"
      by (subst round_half_even_divide) simp_all
    also have "\<dots> \<le> 2 ^ 53" using d by simp
    also have "\<dots> = 2 ^ (53 + k) div 2 ^ k" by (simp add: power_add)
    finally show ?thesis .
  qed
  have v: "of_int ?r * pow2 (int k) < pow2 1024"
  proof -
    have "?r \<le> 2 ^ 53" using rle by (simp add: power_add)
    then have "(of_int ?r :: rat) \<le> of_int (2 ^ 53)" by (simp only: of_int_le_iff)
    then have "(of_int ?r :: rat) \<le> pow2 53" by (simp add: pow2_def)
    then have "of_int ?r * pow2 (int k) \<le> pow2 53 * pow2 (int k)"
      by (simp add: mult_right_mono less_imp_le)
    also have "\<dots> = pow2 (53 + int k)" by (simp add: pow2_add)
    also have "\<dots> < pow2 1024" using assms(3) by (intro pow2_strict_mono) simp
    finally show ?thesis .
  qed
  have "fl ?a = Fin (of_int (round_half_even (?a / pow2 (int k))) * pow2 (int k))"
    by (rule fl_eval[OF lo hi u refl]) (simp only: quot v)
  also have "\<dots> = Fin (of_int (?r * 2 ^ k))"
    by (simp add: quot pow2_nat)
  finally show ?thesis
    by (subst (asm) round_half_even_divide) simp_all
qed

lemma fl_nat_exact:
  fixes n :: nat
  assumes "n \<le> 2 ^ 53"
  shows "fl (of_nat n) = Fin (of_nat n)"
proof (cases "n = 0")
  case True
  then show ?thesis by (simp add: fl_def)
next
  case False
  let ?a = "of_nat n :: rat"
  define e where "e = floor_log2 ?a"
  have pos: "0 < ?a" using False by simp
  have b: "pow2 e \<le> ?a" "?a < pow2 (e + 1)"
    using floor_log2_bounds[OF pos] by (simp_all add: e_def)
  have a53: "?a \<le> pow2 53"
  proof -
    have "(of_nat n :: rat) \<le> of_nat (2 ^ 53)" using assms by (simp only: of_nat_le_iff)
    then show ?thesis by (simp add: pow2_def)
  qed
  have e0: "0 \<le> e"
  proof (rule ccontr)
    assume "\<not> 0 \<le> e"
    then have "e + 1 \<le> 0" by simp
    then have "pow2 (e + 1) \<le> pow2 0" by (rule pow2_mono)
    then have "?a < 1" using b(2) by (simp add: pow2_def)
    then show False using False by simp
  qed
  have e53: "e \<le> 53"
  proof (rule ccontr)
    assume "\<not> e \<le> 53"
    then have "pow2 53 < pow2 e" by (intro pow2_strict_mono) simp
    then show False using b(1) a53 by linarith
  qed
  define u where "u = max (e - 52) (- 1074)"
  have u_cases: "u = e - 52" using e0 by (simp add: u_def)
  have int_quot: "\<exists>m::int. ?a / pow2 u = of_int m"
  proof (cases "e = 53")
    case True
    then have "?a = pow2 53" using b(1) a53 by simp
    then have "?a / pow2 u = pow2 53 / pow2 1" using True u_cases by simp
    then have "?a / pow2 u = of_int (2 ^ 52)" by (simp add: pow2_def)
    then show ?thesis by blast
  next
    case False
    then have "u \<le> 0" using e53 u_cases by simp
    then have "pow2 u = 1 / 2 ^ nat (- u)" by (auto simp: pow2_def)
    then have "?a / pow2 u = of_int (int n * 2 ^ nat (- u))" by simp
    then show ?thesis by blast
  qed
  then obtain m where m: "?a / pow2 u = of_int m" by blast
  have r: "round_half_even (?a / pow2 u) = m"
    by (simp add: m round_half_even_def)
  have "pow2 u \<noteq> 0" using pow2_pos[of u] by linarith
  then have v: "of_int (round_half_even (?a / pow2 u)) * pow2 u = ?a"
    unfolding r m[symmetric] by simp
  have lt: "?a < pow2 1024"
  proof -
    have "pow2 53 < pow2 1024" by (intro pow2_strict_mono) simp
    then show ?thesis using a53 by linarith
  qed
  show ?thesis
    by (rule fl_eval[OF b u_def]) (simp_all add: v lt)
qed

lemma digit_facts:
  assumes "is_digit c"
  shows "\<not> is_space c" "c \<noteq> CHR ''-''" "c \<noteq> CHR ''+''" "c \<noteq> CHR ''I''"
  using assms by (auto simp: is_digit_def is_space_def)

lemma parseFloat_digits:
  assumes "s \<noteq> []" "list_all is_digit s"
  shows "parseFloat s = fl (of_nat (digits_val s))"
proof -
  obtain c r where s: "s = c # r" using assms(1) by (cases s) auto
  have c: "is_digit c" using assms(2) s by simp
  have all: "\<forall>x \<in> set s. is_digit x" using assms(2) by (simp add: list_all_iff)
  have 1: "dropWhile is_space s = s" using digit_facts(1)[OF c] s by simp
  have 2: "take_sign s = (False, s)" using digit_facts(2,3)[OF c] s by (simp add: take_sign_def)
  have 3: "take 8 s \<noteq> ''Infinity''" using digit_facts(4)[OF c] s by auto
  have 4: "takeWhile is_digit s = s" using all by (simp add: takeWhile_eq_all_conv)
  have 5: "dropWhile is_digit s = []" using all by (simp add: dropWhile_eq_Nil_conv)
  show ?thesis
    using assms(1) by (simp add: parseFloat_def 1 2 3 4 5 fraction_part_def exponent_part_def pow10_def)
qed


lemma fl_neg: "fl (- r) = num_neg (fl r)"
  by (cases "r = 0"; cases "r < 0") (auto simp: fl_def Let_def)

lemma fl_int_exact:
  assumes "\<bar>n\<bar> \<le> 2 ^ 53"
  shows "fl (of_int n) = Fin (of_int n)"
proof (cases "0 \<le> n")
  case True
  then have "nat n \<le> 2 ^ 53" using assms by (simp add: nat_le_iff)
  then have "fl (of_nat (nat n)) = Fin (of_nat (nat n))" by (rule fl_nat_exact)
  then show ?thesis using True by simp
next
  case False
  then have "nat (- n) \<le> 2 ^ 53" using assms by (simp add: nat_le_iff)
  then have "fl (of_nat (nat (- n))) = Fin (of_nat (nat (- n)))" by (rule fl_nat_exact)
  then have "fl (- of_int n) = Fin (- of_int n)" using False by simp
  then have "num_neg (fl (of_int n)) = Fin (- of_int n)" by (simp only: fl_neg)
  then show ?thesis by (cases "fl (of_int n)") simp_all
qed

lemma fl_Ints_exact:
  assumes "a \<in> \<int>" "\<bar>a\<bar> \<le> 2 ^ 53"
  shows "fl a = Fin a"
proof -
  obtain n where n: "a = of_int n" using assms(1) by (auto elim: Ints_cases)
  have "(of_int \<bar>n\<bar> :: rat) \<le> of_int (2 ^ 53)" using assms(2) n by simp
  then have "\<bar>n\<bar> \<le> 2 ^ 53" by (simp only: of_int_le_iff)
  then show ?thesis unfolding n by (rule fl_int_exact)
qed

lemma num_add_Ints:
  "a \<in> \<int> \<Longrightarrow> b \<in> \<int> \<Longrightarrow> \<bar>a + b\<bar> \<le> 2 ^ 53 \<Longrightarrow> num_add (Fin a) (Fin b) = Fin (a + b)"
  by (simp add: fl_Ints_exact)

lemma num_sub_Ints:
  "a \<in> \<int> \<Longrightarrow> b \<in> \<int> \<Longrightarrow> \<bar>a - b\<bar> \<le> 2 ^ 53 \<Longrightarrow> num_sub (Fin a) (Fin b) = Fin (a - b)"
  by (simp add: num_sub_def fl_Ints_exact)

lemma num_mul_Ints:
  "a \<in> \<int> \<Longrightarrow> b \<in> \<int> \<Longrightarrow> \<bar>a * b\<bar> \<le> 2 ^ 53 \<Longrightarrow> num_mul (Fin a) (Fin b) = Fin (a * b)"
  by (simp add: fl_Ints_exact)

lemma Math_max_Fin: "Math_max (Fin a) (Fin b) = Fin (max a b)"
  by (simp add: max_def)

lemma Ints_max: "a \<in> \<int> \<Longrightarrow> b \<in> \<int> \<Longrightarrow> max a b \<in> \<int>"
  by (simp add: max_def)

lemma parseFloat_empty: "parseFloat [] = NaN"
  by (simp add: parseFloat_def take_sign_def fraction_part_def)

lemma Math_max_int: "Math_max (Fin (of_int a)) (Fin (of_int b)) = Fin (of_int (max a b))"
  by (simp add: max_def)

text \<open>
  Rounding is monotone around a representable bound, and a double is a fixed point of
  \<open>fl\<close>: adding zero to the result of an operation changes nothing. The
  comparison of a parsed natural number with \<open>10^21\<close> is decided by the half-way
  point \<open>10^21 + 65536\<close> of the next double.
\<close>

lemma round_half_even_of_int: "round_half_even (of_int z) = z"
  by (simp add: round_half_even_def)

lemma round_half_even_ge_floor: "\<lfloor>m\<rfloor> \<le> round_half_even m"
  by (simp add: round_half_even_def Let_def)

lemma round_half_even_le:
  assumes "m \<le> of_int K"
  shows "round_half_even m \<le> K"
proof -
  have f: "of_int \<lfloor>m\<rfloor> \<le> m" by (rule of_int_floor_le)
  have fK: "\<lfloor>m\<rfloor> \<le> K" using assms by (simp add: floor_le_iff)
  show ?thesis
  proof (cases "m - of_int \<lfloor>m\<rfloor> < 1 / 2")
    case True
    then show ?thesis using fK by (simp add: round_half_even_def Let_def)
  next
    case False
    then have "of_int \<lfloor>m\<rfloor> < m" by linarith
    then have "(of_int \<lfloor>m\<rfloor> :: rat) < of_int K" using assms by linarith
    then have "\<lfloor>m\<rfloor> < K" by (simp only: of_int_less_iff)
    then have "\<lfloor>m\<rfloor> + 1 \<le> K" by simp
    then show ?thesis using fK by (simp add: round_half_even_def Let_def)
  qed
qed

lemma round_half_even_le_half:
  assumes "m \<le> of_int K + 1 / 2" and "even K"
  shows "round_half_even m \<le> K"
proof -
  have f: "of_int \<lfloor>m\<rfloor> \<le> m" by (rule of_int_floor_le)
  have "m < of_int (K + 1)" using assms(1) by simp
  then have "\<lfloor>m\<rfloor> < K + 1" by (simp only: floor_less_iff)
  then have fK: "\<lfloor>m\<rfloor> \<le> K" by simp
  show ?thesis
  proof (cases "\<lfloor>m\<rfloor> = K")
    case True
    then have "m - of_int \<lfloor>m\<rfloor> \<le> 1 / 2" using assms(1) by simp
    then show ?thesis using True assms(2) by (simp add: round_half_even_def Let_def)
  next
    case False
    then have "\<lfloor>m\<rfloor> + 1 \<le> K" using fK by simp
    then show ?thesis by (simp add: round_half_even_def Let_def)
  qed
qed

lemma round_half_even_gt_half:
  assumes "of_int K + 1 / 2 < m"
  shows "K + 1 \<le> round_half_even m"
proof -
  have "of_int K \<le> m" using assms by simp
  then have fK: "K \<le> \<lfloor>m\<rfloor>" by (simp only: le_floor_iff)
  show ?thesis
  proof (cases "\<lfloor>m\<rfloor> = K")
    case True
    then have "1 / 2 < m - of_int \<lfloor>m\<rfloor>" using assms by simp
    then show ?thesis using True by (simp add: round_half_even_def Let_def)
  next
    case False
    then have "K + 1 \<le> \<lfloor>m\<rfloor>" using fK by simp
    then show ?thesis using round_half_even_ge_floor[of m] by linarith
  qed
qed

lemma fl_pos:
  assumes "0 < a"
  shows "fl a = (if pow2 1024 \<le> of_int (round_half_even (a / pow2 (max (floor_log2 a - 52) (- 1074))))
                     * pow2 (max (floor_log2 a - 52) (- 1074))
                 then PosInfinity
                 else Fin (of_int (round_half_even (a / pow2 (max (floor_log2 a - 52) (- 1074))))
                     * pow2 (max (floor_log2 a - 52) (- 1074))))"
  using assms by (simp add: fl_def Let_def)

lemma pow2_less_imp: "pow2 i \<le> a \<Longrightarrow> a < pow2 j \<Longrightarrow> i < j"
proof (rule ccontr)
  assume a: "pow2 i \<le> a" "a < pow2 j" and "\<not> i < j"
  then have "j \<le> i" by simp
  then have "pow2 j \<le> pow2 i" by (rule pow2_mono)
  then show False using a by linarith
qed

lemma pow2_diff: "pow2 i / pow2 j = pow2 (i - j)"
proof -
  have ne: "pow2 j \<noteq> 0" using pow2_pos[of j] by linarith
  have "pow2 i = pow2 (i - j) * pow2 j" by (simp add: pow2_add [symmetric])
  then have "pow2 i / pow2 j = pow2 (i - j) * pow2 j / pow2 j" by (simp only:)
  also have "\<dots> = pow2 (i - j)" using ne by simp
  finally show ?thesis .
qed

lemma fl_grid:
  assumes k: "0 < k" "k < 2 ^ 53" and u: "- 1074 \<le> u"
    and fin: "of_int k * pow2 u < pow2 1024"
  shows "fl (of_int k * pow2 u) = Fin (of_int k * pow2 u)"
proof -
  define w where "w = (of_int k :: rat) * pow2 u"
  have wpos: "0 < w" using k(1) by (simp add: w_def)
  define e where "e = floor_log2 w"
  have b: "pow2 e \<le> w" "w < pow2 (e + 1)"
    using floor_log2_bounds[OF wpos] by (simp_all add: e_def)
  have "(of_int k :: rat) < of_int (2 ^ 53)" using k(2) by (simp only: of_int_less_iff)
  then have "(of_int k :: rat) < pow2 53" by (simp add: pow2_def)
  then have "w < pow2 53 * pow2 u" unfolding w_def by (simp add: mult_strict_right_mono)
  then have wlt: "w < pow2 (53 + u)" by (simp add: pow2_add)
  have elt: "e < 53 + u" using b(1) wlt by (rule pow2_less_imp)
  define u' where "u' = max (e - 52) (- 1074)"
  have le: "u' \<le> u" using elt u by (simp add: u'_def)
  define j where "j = nat (u - u')"
  have j: "int j = u - u'" using le by (simp add: j_def)
  have "pow2 (int j + u') = pow2 (int j) * pow2 u'" by (rule pow2_add)
  moreover have "int j + u' = u" using j by simp
  ultimately have pu: "pow2 u = 2 ^ j * pow2 u'" by (simp only: pow2_nat)
  have ne: "pow2 u' \<noteq> 0" using pow2_pos[of u'] by linarith
  have "w / pow2 u' = of_int k * 2 ^ j * pow2 u' / pow2 u'" by (simp add: w_def pu)
  also have "\<dots> = of_int k * 2 ^ j" using ne by simp
  finally have q: "w / pow2 u' = of_int (k * 2 ^ j)" by simp
  have r: "round_half_even (w / pow2 u') = k * 2 ^ j"
    by (simp only: q round_half_even_of_int)
  have "of_int (round_half_even (w / pow2 u')) * pow2 u' = of_int (k * 2 ^ j) * pow2 u'"
    by (simp only: r)
  also have "\<dots> = w" by (simp add: w_def pu)
  finally have v: "w = of_int (round_half_even (w / pow2 u')) * pow2 u'" by simp
  have "fl w = Fin w"
    using b u'_def v fin [folded w_def] by (rule fl_eval)
  then show ?thesis by (simp add: w_def)
qed

lemma fl_idem:
  assumes "fl r = Fin v"
  shows "fl v = Fin v"
proof (cases "r = 0")
  case True
  then show ?thesis using assms by (auto simp: fl_def)
next
  case False
  define a where "a = \<bar>r\<bar>"
  have apos: "0 < a" using False by (simp add: a_def)
  define e where "e = floor_log2 a"
  define u where "u = max (e - 52) (- 1074)"
  define k where "k = round_half_even (a / pow2 u)"
  define w where "w = (of_int k :: rat) * pow2 u"
  have flr: "fl r = (if pow2 1024 \<le> w then (if r < 0 then NegInfinity else PosInfinity)
                     else Fin (if r < 0 then - w else w))"
    using False by (simp add: fl_def Let_def a_def e_def u_def k_def w_def)
  have fin: "w < pow2 1024" and v: "v = (if r < 0 then - w else w)"
    using assms flr by (auto split: if_splits)
  have b: "pow2 e \<le> a" "a < pow2 (e + 1)"
    using floor_log2_bounds[OF apos] by (simp_all add: e_def)
  have u: "- 1074 \<le> u" "e - 52 \<le> u" by (simp_all add: u_def)
  have "0 \<le> a / pow2 u" by (rule divide_nonneg_pos[OF less_imp_le[OF apos] pow2_pos])
  then have "0 \<le> \<lfloor>a / pow2 u\<rfloor>" by simp
  then have k0: "0 \<le> k" using round_half_even_ge_floor[of "a / pow2 u"] unfolding k_def by linarith
  have "a / pow2 u < pow2 (e + 1) / pow2 u" using b(2) by (simp add: divide_strict_right_mono)
  also have "\<dots> = pow2 (e + 1 - u)" by (rule pow2_diff)
  also have "\<dots> \<le> pow2 53" using u(2) by (intro pow2_mono) simp
  finally have "a / pow2 u \<le> of_int (2 ^ 53)" by (simp add: pow2_def)
  then have k53: "k \<le> 2 ^ 53" unfolding k_def by (rule round_half_even_le)
  have "fl w = Fin w"
  proof (cases "k = 0")
    case True
    then show ?thesis by (simp add: w_def fl_def)
  next
    case k_ne: False
    show ?thesis
    proof (cases "k = 2 ^ 53")
      case True
      have p1: "pow2 1 = 2" by (simp add: pow2_def)
      have "pow2 (u + 1) = pow2 u * 2" by (simp only: pow2_add p1)
      then have w2: "w = of_int (2 ^ 52) * pow2 (u + 1)"
        by (simp add: w_def True)
      have "fl (of_int (2 ^ 52) * pow2 (u + 1)) = Fin (of_int (2 ^ 52) * pow2 (u + 1))"
        using u(1) fin unfolding w2 by (intro fl_grid) simp_all
      then show ?thesis by (simp only: w2)
    next
      case False
      then have "0 < k" "k < 2 ^ 53" using k0 k_ne k53 by simp_all
      then show ?thesis using u(1) fin unfolding w_def by (rule fl_grid)
    qed
  qed
  then show ?thesis using fl_neg[of w] by (simp add: v)
qed

lemma num_add_zero_fl: "num_add (fl r) (Fin 0) = fl r"
proof (cases "fl r")
  case (Fin v)
  then show ?thesis using fl_idem[OF Fin] by simp
qed simp_all

lemma num_add_num_add_zero: "num_add (num_add a b) (Fin 0) = num_add a b"
  by (cases a; cases b) (simp_all add: num_add_zero_fl)

lemma num_add_num_sub_zero: "num_add (num_sub a b) (Fin 0) = num_sub a b"
  unfolding num_sub_def by (rule num_add_num_add_zero)

lemma fl_nat_gt_1e21:
  fixes n :: nat
  shows "num_greater (fl (of_nat n)) (Fin (10 ^ 21)) \<longleftrightarrow> 10 ^ 21 + 65536 < n"
proof (cases "n = 0")
  case True
  then show ?thesis by (simp add: fl_def num_greater_def)
next
  case False
  define a :: rat where "a = of_nat n"
  have a1: "1 \<le> a" using False by (simp add: a_def)
  then have apos: "0 < a" by simp
  define e where "e = floor_log2 a"
  have b: "pow2 e \<le> a" "a < pow2 (e + 1)"
    using floor_log2_bounds[OF apos] by (simp_all add: e_def)
  have "pow2 0 \<le> a" using a1 by (simp add: pow2_def)
  then have "0 < e + 1" using b(2) by (rule pow2_less_imp)
  then have e0: "0 \<le> e" by simp
  define u where "u = max (e - 52) (- 1074)"
  have u: "u = e - 52" using e0 by (simp add: u_def)
  define k where "k = round_half_even (a / pow2 u)"
  define v where "v = (of_int k :: rat) * pow2 u"
  have fla: "fl a = (if pow2 1024 \<le> v then PosInfinity else Fin v)"
    unfolding v_def k_def u_def e_def by (rule fl_pos[OF apos])
  have gt: "num_greater (fl a) (Fin (10 ^ 21)) \<longleftrightarrow> 10 ^ 21 < v"
  proof (cases "pow2 1024 \<le> v")
    case True
    have "(10 ^ 21 :: rat) < pow2 1024" by (simp add: pow2_def)
    then show ?thesis using True by (simp add: fla num_greater_def)
  next
    case False
    then show ?thesis by (simp add: fla num_greater_def)
  qed
  have n_a: "10 ^ 21 + 65536 < n \<longleftrightarrow> 10 ^ 21 + 65536 < a"
  proof -
    have "(10 ^ 21 + 65536 :: rat) = of_nat (10 ^ 21 + 65536)" by simp
    then show ?thesis unfolding a_def by (simp only: of_nat_less_iff)
  qed
  consider "e \<le> 68" | "e = 69" | "70 \<le> e" by linarith
  then have "10 ^ 21 < v \<longleftrightarrow> 10 ^ 21 + 65536 < a"
  proof cases
    case 1
    have "a / pow2 u < pow2 (e + 1) / pow2 u" using b(2) by (simp add: divide_strict_right_mono)
    also have "\<dots> = pow2 53" by (simp add: pow2_diff u)
    finally have "a / pow2 u \<le> of_int (2 ^ 53)" by (simp add: pow2_def)
    then have "k \<le> 2 ^ 53" unfolding k_def by (rule round_half_even_le)
    then have "(of_int k :: rat) \<le> of_int (2 ^ 53)" by (simp only: of_int_le_iff)
    then have "(of_int k :: rat) \<le> pow2 53" by (simp add: pow2_def)
    then have "v \<le> pow2 53 * pow2 u" unfolding v_def by (simp add: mult_right_mono)
    also have "\<dots> = pow2 (e + 1)" by (simp add: u pow2_add [symmetric] add.commute)
    also have "\<dots> \<le> pow2 69" using 1 by (intro pow2_mono) simp
    finally have "v \<le> pow2 69" .
    then have nv: "\<not> 10 ^ 21 < v" by (simp add: pow2_def)
    have "pow2 (e + 1) \<le> pow2 69" using 1 by (intro pow2_mono) simp
    then have "a < pow2 69" using b(2) by linarith
    then have "\<not> 10 ^ 21 + 65536 < a" by (simp add: pow2_def)
    then show ?thesis using nv by simp
  next
    case 2
    have u17: "pow2 u = 131072" by (simp add: u 2 pow2_def)
    have v17: "v = of_int k * 131072" by (simp add: v_def u17)
    show ?thesis
    proof (cases "10 ^ 21 + 65536 < a")
      case True
      then have "of_int 7629394531250000 + 1 / 2 < a / pow2 u"
        by (simp add: u17 field_simps)
      then have "7629394531250000 + 1 \<le> k" unfolding k_def by (rule round_half_even_gt_half)
      then have "(of_int (7629394531250000 + 1) :: rat) \<le> of_int k" by (simp only: of_int_le_iff)
      then have "10 ^ 21 < v" by (simp add: v17)
      then show ?thesis using True by simp
    next
      case False
      then have "a / pow2 u \<le> of_int 7629394531250000 + 1 / 2"
        by (simp add: u17 field_simps)
      then have "k \<le> 7629394531250000" unfolding k_def by (rule round_half_even_le_half) simp
      then have "(of_int k :: rat) \<le> of_int 7629394531250000" by (simp only: of_int_le_iff)
      then have "\<not> 10 ^ 21 < v" by (simp add: v17)
      then show ?thesis using False by simp
    qed
  next
    case 3
    have "pow2 70 \<le> pow2 e" using 3 by (rule pow2_mono)
    then have a70: "pow2 70 \<le> a" using b(1) by linarith
    then have A: "10 ^ 21 + 65536 < a" by (simp add: pow2_def)
    have "pow2 e / pow2 u \<le> a / pow2 u"
      by (rule divide_right_mono[OF b(1) less_imp_le[OF pow2_pos]])
    then have "pow2 52 \<le> a / pow2 u" by (simp add: pow2_diff u)
    then have "(of_int (2 ^ 52) :: rat) \<le> a / pow2 u" by (simp add: pow2_def)
    then have "(2 ^ 52 :: int) \<le> \<lfloor>a / pow2 u\<rfloor>" by (simp only: le_floor_iff)
    then have "2 ^ 52 \<le> k" using round_half_even_ge_floor[of "a / pow2 u"] unfolding k_def by linarith
    then have "(of_int (2 ^ 52) :: rat) \<le> of_int k" by (simp only: of_int_le_iff)
    then have "pow2 52 \<le> of_int k" by (simp add: pow2_def)
    then have "pow2 52 * pow2 u \<le> v" unfolding v_def by (simp add: mult_right_mono)
    then have "pow2 e \<le> v" by (simp add: u pow2_add [symmetric])
    then have "pow2 70 \<le> v" using \<open>pow2 70 \<le> pow2 e\<close> by linarith
    then have "10 ^ 21 < v" by (simp add: pow2_def)
    then show ?thesis using A by simp
  qed
  then show ?thesis using gt n_a by (simp add: a_def)
qed

lemma fl_positive:
  assumes "1 \<le> a"
  shows "num_less (Fin 0) (fl a)"
proof -
  have pos: "0 < a" using assms by simp
  define e where "e = floor_log2 a"
  have b: "pow2 e \<le> a" "a < pow2 (e + 1)"
    using floor_log2_bounds[OF pos] by (simp_all add: e_def)
  have e0: "0 \<le> e"
  proof (rule ccontr)
    assume "\<not> 0 \<le> e"
    then have "e + 1 \<le> 0" by simp
    then have "pow2 (e + 1) \<le> pow2 0" by (rule pow2_mono)
    then show False using b(2) assms by (simp add: pow2_def)
  qed
  define u where "u = max (e - 52) (- 1074)"
  have u: "u = e - 52" using e0 by (simp add: u_def)
  have "pow2 52 * pow2 u = pow2 e" by (simp add: u pow2_add [symmetric])
  then have "pow2 52 * pow2 u \<le> a" using b(1) by simp
  then have m: "pow2 52 \<le> a / pow2 u" by (simp add: pos_le_divide_eq)
  have "(of_int (2 ^ 52) :: rat) \<le> a / pow2 u" using m by (simp add: pow2_def)
  then have "(2 ^ 52 :: int) \<le> \<lfloor>a / pow2 u\<rfloor>" by (simp only: le_floor_iff)
  moreover have "(0::int) < 2 ^ 52" by simp
  ultimately have r: "0 < round_half_even (a / pow2 u)"
    using round_half_even_ge_floor[of "a / pow2 u"] by linarith
  define v where "v = of_int (round_half_even (a / pow2 u)) * pow2 u"
  have v: "0 < v" using r by (simp add: v_def)
  have "fl a = (if pow2 1024 \<le> v then PosInfinity else Fin v)"
    using pos by (simp add: fl_def Let_def e_def[symmetric] u_def[symmetric] v_def[symmetric])
  then show ?thesis using v by simp
qed

lemma parseFloat_digits_positive:
  assumes "s \<noteq> []" "list_all is_digit s"
  shows "num_greater (parseFloat s) (Fin 0) \<longleftrightarrow> 0 < digits_val s"
proof (cases "digits_val s = 0")
  case True
  then show ?thesis by (simp add: parseFloat_digits[OF assms] fl_def num_greater_def)
next
  case False
  then have "(1::rat) \<le> of_nat (digits_val s)" by simp
  then have "num_less (Fin 0) (fl (of_nat (digits_val s)))" by (rule fl_positive)
  then show ?thesis using False by (simp add: parseFloat_digits[OF assms] num_greater_def)
qed

section \<open>Properties of the registry\<close>

lemma Map_has_Map_set: "Map_has k (Map_set k v m)"
  by (induction m) (auto simp: Map_has_def)

lemma registerInLegacyMap_evmAggregators:
  "evmAggregators (registerInLegacyMap n p s) = evmAggregators s"
  by (simp add: registerInLegacyMap_def Let_def)

text \<open>
  Claim C8. Registration is idempotent: once a provider is registered in a category, a
  further registration under the same name in that category leaves all five maps of the
  registry (the four category maps and the legacy map) as they are; the only effect is a
  warning in the log. In particular registering the same provider twice gives the
  registry that registering it once gives.
\<close>

theorem register_idempotent:
  "getProviderName p' = getProviderName p \<Longrightarrow>
     registry_maps (registerProvider p' c (registerProvider p c s)) = registry_maps (registerProvider p c s)
     \<and> (\<exists>w. logger (registerProvider p' c (registerProvider p c s))
               = logger (registerProvider p c s) @ [Warn w])"
  by (cases c)
     (simp_all add: registerEvmAggregator_def registerMetaAggregator_def registerSolanaRouter_def
        registerNativeRouter_def registry_maps_def Let_def Map_has_Map_set
        registerInLegacyMap_evmAggregators)

theorem register_idempotent_witness:
  "getProviderName zeroX_adapter = getProviderName zeroX_adapter
   \<and> registry_maps (registerProvider zeroX_adapter EVM_AGGREGATOR
        (registerProvider zeroX_adapter EVM_AGGREGATOR empty_manager))
     = registry_maps (registerProvider zeroX_adapter EVM_AGGREGATOR empty_manager)
   \<and> evmAggregators (registerProvider zeroX_adapter EVM_AGGREGATOR empty_manager)
     = [(''0x'', zeroX_adapter)]
   \<and> aggregators (registerProvider zeroX_adapter EVM_AGGREGATOR empty_manager)
     = [(ZEROX, zeroX_adapter)]"
  using register_idempotent [of zeroX_adapter zeroX_adapter EVM_AGGREGATOR empty_manager]
  by (simp add: registerEvmAggregator_def registerInLegacyMap_def Map_has_def Let_def
        toLowerCase_def lower_char_def empty_manager_def zeroX_adapter_def)

section \<open>Properties of the routing classifier\<close>

lemma autoDetectSwapType_total: "\<exists>t. autoDetectSwapType r = Inr t"
  by (simp add: autoDetectSwapType_def Let_def)

lemma autoDetectSwapType_ignores_override:
  "autoDetectSwapType (r\<lparr>swapType := x\<rparr>) = autoDetectSwapType r"
  by (simp add: autoDetectSwapType_def)

lemma determineSwapType_is_autoDetect: "determineSwapType r = autoDetectSwapType r"
proof (cases "swapType r")
  case None
  then show ?thesis by simp
next
  case (Some t)
  obtain d where d: "autoDetectSwapType r = Inr d"
    using autoDetectSwapType_total by blast
  have "determineSwapType (r\<lparr>swapType := None\<rparr>) = Inr d"
    by (simp add: autoDetectSwapType_ignores_override d)
  then show ?thesis
    using Some d by auto
qed

text \<open>
  Claim C6. Every request is classified (the classifier never fails), and classifying
  again with the result supplied as \<open>swapType\<close> gives the same result. The result is
  always the type derived with the override removed: a supplied \<open>swapType\<close> passes the
  validation exactly when it equals that derived type, and otherwise the classifier
  derives the type again.
\<close>

theorem determineSwapType_roundtrip:
  "\<exists>t. determineSwapType req = Inr t
     \<and> determineSwapType (req\<lparr>swapType := Some t\<rparr>) = Inr t
     \<and> determineSwapType (req\<lparr>swapType := None\<rparr>) = Inr t
     \<and> (\<forall>s. validateSwapType req s = Inr (s = t))"
proof -
  obtain d where d: "autoDetectSwapType req = Inr d"
    using autoDetectSwapType_total by blast
  have 1: "determineSwapType req = Inr d"
    by (simp only: determineSwapType_is_autoDetect d)
  have 2: "determineSwapType (req\<lparr>swapType := Some d\<rparr>) = Inr d"
    by (simp only: determineSwapType_is_autoDetect autoDetectSwapType_ignores_override d)
  have 3: "determineSwapType (req\<lparr>swapType := None\<rparr>) = Inr d"
    by (simp only: determineSwapType_is_autoDetect autoDetectSwapType_ignores_override d)
  have 4: "\<forall>s. validateSwapType req s = Inr (s = d)"
    using 3 by auto
  show ?thesis
    using 1 2 3 4 by blast
qed

theorem determineSwapType_roundtrip_witness:
  "determineSwapType mislabelled_request = Inr L1_TO_L2
   \<and> determineSwapType (mislabelled_request\<lparr>swapType := Some L1_TO_L2\<rparr>) = Inr L1_TO_L2
   \<and> validateSwapType mislabelled_request ON_CHAIN = Inr False"
proof -
  have auto_detect: "autoDetectSwapType mislabelled_request = Inr L1_TO_L2"
    by (simp add: mislabelled_request_def weth_usdc_request_def autoDetectSwapType_def
          determineEvmSwapType_def includes_chain_def Let_def)
  obtain t where t: "determineSwapType mislabelled_request = Inr t"
      "determineSwapType (mislabelled_request\<lparr>swapType := Some t\<rparr>) = Inr t"
      "\<forall>s. validateSwapType mislabelled_request s = Inr (s = t)"
    using determineSwapType_roundtrip [of mislabelled_request] by blast
  have "t = L1_TO_L2"
    using t(1) unfolding determineSwapType_is_autoDetect auto_detect by simp
  then show ?thesis
    using t by simp
qed

section \<open>Properties of the chain-compatibility check\<close>

lemma any_provider_supports_iff:
  "any_provider_supports ps n \<longleftrightarrow>
     (\<exists>prov f. Some prov \<in> set ps \<and> supportsChainFn prov = Some f \<and> f n)"
  by (induction ps) (auto split: option.splits)

lemma isChainSupported_iff:
  "isChainSupported svc c \<longleftrightarrow>
     (\<exists>cid. chainId c = Some cid \<and> \<not> falsy_chainId (Some cid)
        \<and> (providerRegistry svc = []
            \<or> (\<exists>prov f. Some prov \<in> set (providerRegistry svc) \<and> supportsChainFn prov = Some f
                  \<and> f (Number_of_chainId cid))))"
  by (auto simp: isChainSupported_def Let_def any_provider_supports_iff split: option.splits)

lemma validateChainCompatibility_ignores_cache:
  "validateChainCompatibility (svc\<lparr>swapCacheService := cache\<rparr>) request
     = validateChainCompatibility svc request"
  by (simp add: validateChainCompatibility_def isChainSupported_iff)

text \<open>
  Claim C3, as stated, fails: with an empty provider registry and both ecosystems
  supported, a request whose chain carries no chain id is rejected, although the claim
  says that the chain-support check returns true during bootstrap.
\<close>

theorem validateChainCompatibility_bootstrap_counterexample:
  "isSupportedEcosystem (ecosystem (chain (sellToken solana_request)))
   \<and> isSupportedEcosystem (ecosystem (chain (buyToken solana_request)))
   \<and> providerRegistry bootstrap_service = []
   \<and> isChainSupported bootstrap_service (chain (sellToken solana_request)) = False
   \<and> validateChainCompatibility bootstrap_service solana_request = False"
  by (simp add: solana_request_def bootstrap_service_def isSupportedEcosystem_def
        isChainSupported_def validateChainCompatibility_def)

text \<open>
  Claim C3, amended. Chain-compatibility validation returns true exactly when both
  ecosystems are supported and each of the two chains has a chain id that is present and
  truthy (not zero, not the empty string) and, for each chain, either the provider
  registry is empty (bootstrap) or some registered adapter's \<^verbatim>\<open>supportsChain\<close>
  accepts the chain id converted to a number. The statement is made for a supported-quote
  cache that has no entry for either chain; what an entry of the cache contributes is left
  open.
\<close>

theorem validateChainCompatibility_decides:
  assumes "\<not> Map_has (chainId (chain (sellToken request))) (swapCacheService svc)"
    and "\<not> Map_has (chainId (chain (buyToken request))) (swapCacheService svc)"
  shows "validateChainCompatibility svc request \<longleftrightarrow>
           isSupportedEcosystem (ecosystem (chain (sellToken request)))
           \<and> isSupportedEcosystem (ecosystem (chain (buyToken request)))
           \<and> (\<forall>c \<in> {chain (sellToken request), chain (buyToken request)}.
                \<exists>cid. chainId c = Some cid \<and> \<not> falsy_chainId (Some cid)
                  \<and> (providerRegistry svc = []
                      \<or> (\<exists>prov f. Some prov \<in> set (providerRegistry svc)
                            \<and> supportsChainFn prov = Some f \<and> f (Number_of_chainId cid))))"
  unfolding validateChainCompatibility_def Let_def isChainSupported_iff by auto

theorem validateChainCompatibility_decides_witness:
  "Map_has (chainId (chain (sellToken weth_usdc_request))) (swapCacheService mainnet_only_service) = False
   \<and> Map_has (chainId (chain (buyToken weth_usdc_request))) (swapCacheService mainnet_only_service) = False
   \<and> validateChainCompatibility mainnet_only_service weth_usdc_request = True
   \<and> validateChainCompatibility mainnet_only_service mislabelled_request = False"
proof -
  have no_entry: "\<not> Map_has c (swapCacheService mainnet_only_service)" for c
    by (simp add: Map_has_def mainnet_only_service_def)
  have registry: "providerRegistry mainnet_only_service
      = [Some \<lparr>providerLabel = ''0x'', supportsChainFn = Some (\<lambda>n. n = Fin 1)\<rparr>]"
    by (simp add: mainnet_only_service_def)
  have accepted: "validateChainCompatibility mainnet_only_service weth_usdc_request"
    unfolding validateChainCompatibility_decides [OF no_entry no_entry] registry
    by (simp add: weth_usdc_request_def isSupportedEcosystem_def falsy_chainId_def
          Number_of_chainId_def)
  have rejected: "\<not> validateChainCompatibility mainnet_only_service mislabelled_request"
    unfolding validateChainCompatibility_decides [OF no_entry no_entry] registry
    by (simp add: mislabelled_request_def weth_usdc_request_def isSupportedEcosystem_def
          falsy_chainId_def Number_of_chainId_def)
  show ?thesis
    using no_entry accepted rejected by simp
qed

section \<open>Properties of best-quote selection and quote comparison\<close>

lemma parseFloat_2000000000000000000:
  "parseFloat ''2000000000000000000'' = Fin 2000000000000000000"
proof -
  have "parseFloat ''2000000000000000000'' = fl (of_nat (digits_val ''2000000000000000000''))"
    by (rule parseFloat_digits) (simp_all add: is_digit_def)
  also have "digits_val ''2000000000000000000'' = 2000000000000000000"
    by (simp add: digits_val_def digit_val_def)
  also have "fl (of_nat 2000000000000000000) = Fin 2000000000000000000"
    by (subst fl_nat_window[where k = 8]) simp_all
  finally show ?thesis .
qed

lemma parseFloat_2000000000000000100:
  "parseFloat ''2000000000000000100'' = Fin 2000000000000000000"
proof -
  have "parseFloat ''2000000000000000100'' = fl (of_nat (digits_val ''2000000000000000100''))"
    by (rule parseFloat_digits) (simp_all add: is_digit_def)
  also have "digits_val ''2000000000000000100'' = 2000000000000000100"
    by (simp add: digits_val_def digit_val_def)
  also have "fl (of_nat 2000000000000000100) = Fin 2000000000000000000"
    by (subst fl_nat_window[where k = 8]) simp_all
  finally show ?thesis .
qed

lemma toLowerCase_0x: "toLowerCase ''0x'' = ''0x''"
  by (simp add: toLowerCase_def lower_char_def)

lemma toLowerCase_odos: "toLowerCase ''odos'' = ''odos''"
  by (simp add: toLowerCase_def lower_char_def)

lemma evmAggregators_two_quote_manager:
  "evmAggregators two_quote_manager =
     [(''0x'', quoting_adapter ''0x'' ''2000000000000000000''),
      (''odos'', quoting_adapter ''odos'' ''2000000000000000100'')]"
  by (simp add: two_quote_manager_def registerEvmAggregator_def registerInLegacyMap_def Let_def
        Map_has_def empty_manager_def quoting_adapter_def toLowerCase_0x toLowerCase_odos)

lemma evmAggregators_one_quote_manager:
  "evmAggregators one_quote_manager = [(''0x'', quoting_adapter ''0x'' ''2000000000000000000'')]"
  by (simp add: one_quote_manager_def registerEvmAggregator_def registerInLegacyMap_def Let_def
        Map_has_def empty_manager_def quoting_adapter_def toLowerCase_0x)

lemma getMultipleQuotes_two_quote_manager:
  "getMultipleQuotes two_quote_manager mainnet_request =
     Inr [\<lparr>result_aggregator = ZEROX,
           result_quote = convertToLegacyQuote (sample_quote ''0x'' ''2000000000000000000'') ''0x''\<rparr>,
          \<lparr>result_aggregator = ODOS,
           result_quote = convertToLegacyQuote (sample_quote ''odos'' ''2000000000000000100'') ''odos''\<rparr>]"
  by (simp add: getMultipleQuotes_def getProvidersForChain_def Map_values_def
        evmAggregators_two_quote_manager Let_def quoting_adapter_def mainnet_request_def
        convertToLegacyQuote_def toLowerCase_0x toLowerCase_odos)

lemma getMultipleQuotes_one_quote_manager:
  "getMultipleQuotes one_quote_manager mainnet_request =
     Inr [\<lparr>result_aggregator = ZEROX,
           result_quote = convertToLegacyQuote (sample_quote ''0x'' ''2000000000000000000'') ''0x''\<rparr>]"
  by (simp add: getMultipleQuotes_def getProvidersForChain_def Map_values_def
        evmAggregators_one_quote_manager Let_def quoting_adapter_def mainnet_request_def
        convertToLegacyQuote_def toLowerCase_0x)

lemma buyAmount_convertToLegacyQuote:
  "buyAmount (convertToLegacyQuote (sample_quote name amount) name') = amount"
  by (simp add: convertToLegacyQuote_def sample_quote_def Let_def)

text \<open>
  Claim C1 (the code departs from it). Two adapters quote 2000000000000000000 and
  2000000000000000100 base units. Both strings parse to the same double, so the strict
  comparison keeps the first quote: \<open>getBestQuote\<close> and the \<open>bestAggregator\<close> of
  \<open>compareQuotes\<close> name the 0x quote, although the Odos amount is the larger integer.
\<close>

theorem getBestQuote_keeps_smaller_quote:
  "map_sum id (map (\<lambda>r. (result_aggregator r, buyAmount (result_quote r))))
       (getMultipleQuotes two_quote_manager mainnet_request)
     = Inr [(ZEROX, ''2000000000000000000''), (ODOS, ''2000000000000000100'')]
   \<and> map_sum id (\<lambda>r. (result_aggregator r, buyAmount (result_quote r)))
       (getBestQuote two_quote_manager mainnet_request)
     = Inr (ZEROX, ''2000000000000000000'')
   \<and> map_sum id bestAggregator (compareQuotes two_quote_manager mainnet_request) = Inr ZEROX
   \<and> digits_val ''2000000000000000000'' < digits_val ''2000000000000000100''"
proof -
  have 1: "map_sum id (map (\<lambda>r. (result_aggregator r, buyAmount (result_quote r))))
       (getMultipleQuotes two_quote_manager mainnet_request)
     = Inr [(ZEROX, ''2000000000000000000''), (ODOS, ''2000000000000000100'')]"
    by (simp add: getMultipleQuotes_two_quote_manager buyAmount_convertToLegacyQuote)
  have 2: "map_sum id (\<lambda>r. (result_aggregator r, buyAmount (result_quote r)))
       (getBestQuote two_quote_manager mainnet_request)
     = Inr (ZEROX, ''2000000000000000000'')"
    by (simp add: getBestQuote_def getMultipleQuotes_two_quote_manager reduce_def pick_best_def
          buyAmount_convertToLegacyQuote parseFloat_2000000000000000000
          parseFloat_2000000000000000100 num_greater_def Let_def)
  have 3: "map_sum id bestAggregator (compareQuotes two_quote_manager mainnet_request) = Inr ZEROX"
    by (simp add: compareQuotes_def getMultipleQuotes_two_quote_manager reduce_def pick_best_def
          pick_worst_def buyAmount_convertToLegacyQuote parseFloat_2000000000000000000
          parseFloat_2000000000000000100 num_greater_def Let_def)
  have 4: "digits_val ''2000000000000000000'' < digits_val ''2000000000000000100''"
    by (simp add: digits_val_def digit_val_def)
  show ?thesis
    using 1 2 3 4 by blast
qed

lemma digit_char_0: "digit_char 0 = CHR ''0''"
  by code_simp

lemma toFixed2_zero: "toFixed2 (Fin 0) = Some ''0.00''"
  by (simp add: toFixed2_def nat_to_dec.simps digit_char_0 Let_def)

lemma compareQuotes_single:
  assumes "getMultipleQuotes s request = Inr [q]"
    and "parseFloat (buyAmount (result_quote q)) = Fin x" and "x \<noteq> 0"
  shows "map_sum id priceDifference (compareQuotes s request) = Inr (Some ''0.00%'')"
  using assms
  by (simp add: compareQuotes_def reduce_def num_sub_def fl_def toFixed2_zero Let_def)

text \<open>
  Claim C5 (the code departs from it). With a single collected quote the comparison
  does not answer \<open>0\<close>: it computes \<open>(x - x) / x * 100\<close> and renders it as \<open>0.00%\<close>,
  with two decimals and a percent sign.
\<close>

theorem compareQuotes_single_quote_price_difference:
  "map_sum id (map (\<lambda>r. (result_aggregator r, buyAmount (result_quote r))))
       (getMultipleQuotes one_quote_manager mainnet_request)
     = Inr [(ZEROX, ''2000000000000000000'')]
   \<and> map_sum id priceDifference (compareQuotes one_quote_manager mainnet_request)
     = Inr (Some ''0.00%'')"
proof -
  have "map_sum id priceDifference (compareQuotes one_quote_manager mainnet_request)
          = Inr (Some ''0.00%'')"
    by (rule compareQuotes_single [OF getMultipleQuotes_one_quote_manager,
            where x = 2000000000000000000])
       (simp_all add: buyAmount_convertToLegacyQuote parseFloat_2000000000000000000)
  then show ?thesis
    by (simp add: getMultipleQuotes_one_quote_manager buyAmount_convertToLegacyQuote)
qed

section \<open>Properties of the provider score\<close>

lemma rat_of_int_bound:
  fixes k :: int
  assumes "\<bar>k\<bar> \<le> 10 ^ 12"
  shows "\<bar>of_int k :: rat\<bar> \<le> 10 ^ 12"
proof -
  have "(of_int \<bar>k\<bar> :: rat) \<le> of_int (10 ^ 12)" using assms by (simp only: of_int_le_iff)
  then show ?thesis by simp
qed

lemma health_score_healthy_int:
  assumes "status h = healthy"
    and "latency h = map_option (\<lambda>l. Fin (of_int l)) lat"
    and "errorRate h = map_option (\<lambda>r. Fin (of_int r)) rate"
    and "\<forall>l. lat = Some l \<longrightarrow> l \<noteq> 0 \<and> \<bar>l\<bar> \<le> 10 ^ 12"
    and "\<forall>r. rate = Some r \<longrightarrow> \<bar>r\<bar> \<le> 10 ^ 12"
  shows "health_score h =
           Fin (of_int (150 + (case lat of None \<Rightarrow> 0 | Some l \<Rightarrow> max 0 (100 - l))
                            - (case rate of None \<Rightarrow> 0 | Some r \<Rightarrow> 100 * r)))"
proof (cases lat)
  case None
  note lat_none = None
  show ?thesis
  proof (cases rate)
    case None
    then show ?thesis
      using assms(1,2,3) lat_none by (simp add: health_score_def fl_Ints_exact)
  next
    case (Some r)
    then have "\<bar>r\<bar> \<le> 10 ^ 12" using assms(5) by auto
    then have "\<bar>of_int r :: rat\<bar> \<le> 10 ^ 12" by (rule rat_of_int_bound)
    then show ?thesis
      using assms(1,2,3) lat_none Some
      by (simp add: health_score_def num_sub_def fl_Ints_exact)
  qed
next
  case (Some l)
  note lat_some = Some
  then have "l \<noteq> 0" "\<bar>l\<bar> \<le> 10 ^ 12"
    using assms(4) by auto
  then have l: "l \<noteq> 0" "\<bar>of_int l :: rat\<bar> \<le> 10 ^ 12"
    by (auto intro: rat_of_int_bound)
  show ?thesis
  proof (cases rate)
    case None
    then show ?thesis
      using assms(1,2,3) lat_some l
      by (simp add: health_score_def num_sub_def Math_max_Fin fl_Ints_exact Ints_max)
  next
    case (Some r)
    then have "\<bar>r\<bar> \<le> 10 ^ 12" using assms(5) by auto
    then have "\<bar>of_int r :: rat\<bar> \<le> 10 ^ 12" by (rule rat_of_int_bound)
    then show ?thesis
      using assms(1,2,3) lat_some Some l
      by (simp add: health_score_def num_sub_def Math_max_Fin fl_Ints_exact Ints_max)
  qed
qed

lemma health_score_not_healthy: "status h \<noteq> healthy \<Longrightarrow> health_score h = Fin 0"
  by (simp add: health_score_def num_sub_def fl_Ints_exact)


lemma provider_bonuses_int:
  assumes "\<bar>b\<bar> \<le> 10 ^ 15"
  shows "provider_bonuses name request (Fin (of_int b)) =
           Fin (of_int (b
             + (if name = ''0x'' \<and> req_chainId request = 1 then 20 else 0)
             + (if name = ''odos'' \<and> req_chainId request = 137 then 15 else 0)
             + (if name = ''0x'' \<and> num_greater (parseFloat (req_sellAmount request)) (Fin (10 ^ 21))
                then 10 else 0)
             + (if name = ''0x'' \<and> req_approvalStrategy request = Some PERMIT2 then 25 else 0)))"
proof -
  have B: "\<bar>of_int b :: rat\<bar> \<le> 10 ^ 15"
  proof -
    have "(of_int \<bar>b\<bar> :: rat) \<le> of_int (10 ^ 15)" using assms by (simp only: of_int_le_iff)
    then show ?thesis by simp
  qed
  have empty: "\<not> num_greater (parseFloat []) x" for x
    by (cases x) (simp_all add: parseFloat_empty num_greater_def)
  show ?thesis
    using B by (cases "req_sellAmount request = []")
      (auto simp: provider_bonuses_def Let_def fl_Ints_exact empty)
qed


lemma calculateProviderScore_value:
  fixes lat rate :: "int option"
  assumes "health = fst (getProviderHealth cache now p)"
    and "latency health = map_option (\<lambda>l. Fin (of_int l)) lat"
    and "errorRate health = map_option (\<lambda>r. Fin (of_int r)) rate"
    and "\<forall>l. lat = Some l \<longrightarrow> l \<noteq> 0 \<and> \<bar>l\<bar> \<le> 10 ^ 12"
    and "\<forall>r. rate = Some r \<longrightarrow> \<bar>r\<bar> \<le> 10 ^ 12"
    and "name = toLowerCase (getProviderName p)"
  shows "fst (calculateProviderScore cache now p request) =
           Fin (of_int (max 0
             (100
              + (if status health = healthy
                 then 50 + (case lat of None \<Rightarrow> 0 | Some l \<Rightarrow> max 0 (100 - l))
                         - (case rate of None \<Rightarrow> 0 | Some r \<Rightarrow> 100 * r)
                 else - 100)
              + (if name = ''0x'' \<and> req_chainId request = 1 then 20 else 0)
              + (if name = ''odos'' \<and> req_chainId request = 137 then 15 else 0)
              + (if name = ''0x'' \<and> num_greater (parseFloat (req_sellAmount request)) (Fin (10 ^ 21))
                 then 10 else 0)
              + (if name = ''0x'' \<and> req_approvalStrategy request = Some PERMIT2 then 25 else 0))))"
proof -
  define H where "H = (if status health = healthy
                 then 150 + (case lat of None \<Rightarrow> 0 | Some l \<Rightarrow> max 0 (100 - l))
                         - (case rate of None \<Rightarrow> 0 | Some r \<Rightarrow> 100 * r)
                 else 0)"
  have hs: "health_score health = Fin (of_int H)"
  proof (cases "status health = healthy")
    case True
    then show ?thesis
      unfolding H_def using health_score_healthy_int[OF True assms(2,3,4,5)] by simp
  next
    case False
    then show ?thesis by (simp add: H_def health_score_not_healthy)
  qed
  have bonus: "0 \<le> (case lat of None \<Rightarrow> 0 | Some l \<Rightarrow> max 0 (100 - l))"
      "(case lat of None \<Rightarrow> 0 | Some l \<Rightarrow> max 0 (100 - l)) \<le> 10 ^ 12 + 100"
    using assms(4) by (auto split: option.splits)
  have pen: "\<bar>case rate of None \<Rightarrow> 0 | Some r \<Rightarrow> 100 * r\<bar> \<le> 10 ^ 14"
    using assms(5) by (auto split: option.splits)
  have Hb: "\<bar>H\<bar> \<le> 10 ^ 15"
    unfolding H_def using bonus pen by auto
  obtain h c' where g: "getProviderHealth cache now p = (h, c')"
    by (cases "getProviderHealth cache now p")
  have h: "h = health" using assms(1) g by simp
  have "fst (calculateProviderScore cache now p request)
          = Math_max (Fin 0) (provider_bonuses name request (health_score health))"
    by (simp add: calculateProviderScore_def g h assms(6) Let_def)
  also have "\<dots> = Math_max (Fin (of_int 0)) (provider_bonuses name request (Fin (of_int H)))"
    by (simp add: hs)
  also have "\<dots> = Fin (of_int (max 0 (H
             + (if name = ''0x'' \<and> req_chainId request = 1 then 20 else 0)
             + (if name = ''odos'' \<and> req_chainId request = 137 then 15 else 0)
             + (if name = ''0x'' \<and> num_greater (parseFloat (req_sellAmount request)) (Fin (10 ^ 21))
                then 10 else 0)
             + (if name = ''0x'' \<and> req_approvalStrategy request = Some PERMIT2 then 25 else 0))))"
    by (simp only: provider_bonuses_int[OF Hb] Math_max_int)
  finally have score: "fst (calculateProviderScore cache now p request)
          = Fin (of_int (max 0 (H
             + (if name = ''0x'' \<and> req_chainId request = 1 then 20 else 0)
             + (if name = ''odos'' \<and> req_chainId request = 137 then 15 else 0)
             + (if name = ''0x'' \<and> num_greater (parseFloat (req_sellAmount request)) (Fin (10 ^ 21))
                then 10 else 0)
             + (if name = ''0x'' \<and> req_approvalStrategy request = Some PERMIT2 then 25 else 0))))" .
  have eq: "H = 100 + (if status health = healthy
                 then 50 + (case lat of None \<Rightarrow> 0 | Some l \<Rightarrow> max 0 (100 - l))
                         - (case rate of None \<Rightarrow> 0 | Some r \<Rightarrow> 100 * r)
                 else - 100)"
    by (simp add: H_def)
  show ?thesis
    using score unfolding eq .
qed

lemma parseFloat_gt_1e21:
  assumes "list_all is_digit s"
  shows "s \<noteq> [] \<and> num_greater (parseFloat s) (Fin (10 ^ 21)) \<longleftrightarrow> 10 ^ 21 + 65536 < digits_val s"
proof (cases "s = []")
  case True
  then show ?thesis by (simp add: digits_val_def)
next
  case False
  then show ?thesis
    by (simp only: parseFloat_digits[OF False assms] fl_nat_gt_1e21) simp
qed

lemma num_add_of_int:
  fixes a b :: int
  assumes "\<bar>a + b\<bar> \<le> 9007199254740992"
  shows "num_add (Fin (of_int a)) (Fin (of_int b)) = Fin (of_int (a + b))"
proof -
  have "\<bar>a + b\<bar> \<le> 2 ^ 53" using assms by simp
  then have "fl (of_int (a + b)) = Fin (of_int (a + b))" by (rule fl_int_exact)
  then show ?thesis by simp
qed

lemma num_sub_of_int:
  fixes a b :: int
  assumes "\<bar>a - b\<bar> \<le> 9007199254740992"
  shows "num_sub (Fin (of_int a)) (Fin (of_int b)) = Fin (of_int (a - b))"
proof -
  have "\<bar>a - b\<bar> \<le> 2 ^ 53" using assms by simp
  then have "fl (of_int (a - b)) = Fin (of_int (a - b))" by (rule fl_int_exact)
  then show ?thesis by (simp add: num_sub_def)
qed

lemma fl_150: "fl 150 = Fin 150"
  by (rule fl_Ints_exact) simp_all

lemma health_score_formula:
  assumes "latency h \<noteq> Some (Fin 0)"
  shows "health_score h =
           (if status h = healthy
            then num_sub
                   (num_add (num_add (Fin 100) (Fin 50))
                      (case latency h of
                         None \<Rightarrow> Fin 0
                       | Some l \<Rightarrow> if l = NaN then Fin 0
                                   else Math_max (Fin 0) (num_sub (Fin 100) l)))
                   (case errorRate h of None \<Rightarrow> Fin 0 | Some r \<Rightarrow> num_mul r (Fin 100))
            else num_sub (Fin 100) (Fin 100))"
proof (cases "status h = healthy")
  case False
  then show ?thesis by (simp add: health_score_def)
next
  case True
  have s1: "num_add (Fin 100) (Fin 50) = Fin 150" by (simp add: fl_150)
  define L where "L = (case latency h of
                         None \<Rightarrow> Fin 0
                       | Some l \<Rightarrow> if l = NaN then Fin 0
                                   else Math_max (Fin 0) (num_sub (Fin 100) l))"
  define X where "X = (case latency h of
                           None \<Rightarrow> Fin 150
                         | Some l \<Rightarrow>
                             if truthy_number l
                             then num_add (Fin 150) (Math_max (Fin 0) (num_sub (Fin 100) l))
                             else Fin 150)"
  have X: "X = num_add (Fin 150) L"
  proof (cases "latency h")
    case None
    then show ?thesis by (simp add: X_def L_def fl_150)
  next
    case (Some l)
    then show ?thesis using assms by (cases l) (simp_all add: X_def L_def fl_150)
  qed
  have X0: "num_sub X (Fin 0) = X"
    unfolding X by (simp add: num_sub_def num_add_num_add_zero)
  have "health_score h = (case errorRate h of None \<Rightarrow> X | Some r \<Rightarrow> num_sub X (num_mul r (Fin 100)))"
    using True by (simp add: health_score_def Let_def fl_150 X_def split: option.splits)
  also have "\<dots> = num_sub X (case errorRate h of None \<Rightarrow> Fin 0 | Some r \<Rightarrow> num_mul r (Fin 100))"
    by (simp add: X0 split: option.splits)
  finally have "health_score h =
      num_sub (num_add (num_add (Fin 100) (Fin 50)) L)
        (case errorRate h of None \<Rightarrow> Fin 0 | Some r \<Rightarrow> num_mul r (Fin 100))"
    by (simp only: X s1)
  then show ?thesis using True by (simp only: L_def HOL.simp_thms if_True)
qed

lemma provider_bonuses_formula:
  fixes b20 b15 b10 b25 :: int
  assumes rep: "num_add s (Fin 0) = s"
    and digits: "list_all is_digit (req_sellAmount request)"
    and amount: "amount = digits_val (req_sellAmount request)"
    and window: "\<not> (10 ^ 21 < amount \<and> amount \<le> 10 ^ 21 + 65536)"
    and b20: "b20 = (if name = ''0x'' \<and> req_chainId request = 1 then 20 else 0)"
    and b15: "b15 = (if name = ''odos'' \<and> req_chainId request = 137 then 15 else 0)"
    and b10: "b10 = (if name = ''0x'' \<and> 10 ^ 21 < amount then 10 else 0)"
    and b25: "b25 = (if name = ''0x'' \<and> req_approvalStrategy request = Some PERMIT2 then 25 else 0)"
  shows "provider_bonuses name request s =
           num_add (num_add (num_add (num_add s (Fin (of_int b20))) (Fin (of_int b15)))
                      (Fin (of_int b10))) (Fin (of_int b25))"
proof -
  define large where "large = (10 ^ 21 < amount)"
  have lw: "large \<longleftrightarrow> 10 ^ 21 + 65536 < amount"
    using window unfolding large_def by linarith
  have cond: "req_sellAmount request \<noteq> [] \<and>
              num_greater (parseFloat (req_sellAmount request)) (Fin (10 ^ 21)) \<longleftrightarrow> large"
    unfolding lw amount by (rule parseFloat_gt_1e21[OF digits])
  define s1 where "s1 = num_add s (Fin (of_int b20))"
  define s2 where "s2 = num_add s1 (Fin (of_int b15))"
  define s3 where "s3 = num_add s2 (Fin (of_int b10))"
  define s4 where "s4 = num_add s3 (Fin (of_int b25))"
  have r1: "num_add s1 (Fin 0) = s1" unfolding s1_def by (rule num_add_num_add_zero)
  have r2: "num_add s2 (Fin 0) = s2" unfolding s2_def by (rule num_add_num_add_zero)
  have r3: "num_add s3 (Fin 0) = s3" unfolding s3_def by (rule num_add_num_add_zero)
  have c1: "(if req_chainId request = 1 then
               (if name = ''0x'' then num_add s (Fin 20) else s)
             else if req_chainId request = 137 then
               (if name = ''odos'' then num_add s (Fin 15) else s)
             else s) = s2"
    unfolding s2_def s1_def b20 b15 by (simp add: rep num_add_num_add_zero)
  have c2: "(if req_sellAmount request \<noteq> [] then
               (if num_greater (parseFloat (req_sellAmount request)) (Fin (10 ^ 21)) then
                  (if name = ''0x'' then num_add s2 (Fin 10) else s2)
                else s2)
             else s2) = s3"
  proof -
    have "(if req_sellAmount request \<noteq> [] then
               (if num_greater (parseFloat (req_sellAmount request)) (Fin (10 ^ 21)) then
                  (if name = ''0x'' then num_add s2 (Fin 10) else s2)
                else s2)
             else s2)
          = (if req_sellAmount request \<noteq> [] \<and>
                num_greater (parseFloat (req_sellAmount request)) (Fin (10 ^ 21))
             then (if name = ''0x'' then num_add s2 (Fin 10) else s2) else s2)"
      by auto
    also have "\<dots> = (if large then (if name = ''0x'' then num_add s2 (Fin 10) else s2) else s2)"
      by (simp only: cond)
    also have "\<dots> = s3"
      unfolding s3_def b10 large_def [symmetric] by (simp add: r2)
    finally show ?thesis .
  qed
  have c3: "(if req_approvalStrategy request = Some PERMIT2 then
               (if name = ''0x'' then num_add s3 (Fin 25) else s3)
             else s3) = s4"
    unfolding s4_def b25 by (simp add: r3)
  have "provider_bonuses name request s = s4"
    unfolding provider_bonuses_def by (simp only: Let_def c1 c2 c3)
  then show ?thesis by (simp only: s4_def s3_def s2_def s1_def)
qed

lemma calculateProviderScore_unfold:
  assumes "health = fst (getProviderHealth cache now p)"
    and "name = toLowerCase (getProviderName p)"
  shows "fst (calculateProviderScore cache now p request)
           = Math_max (Fin 0) (provider_bonuses name request (health_score health))"
proof -
  obtain h c' where g: "getProviderHealth cache now p = (h, c')"
    by (cases "getProviderHealth cache now p")
  have h: "h = health" using assms(1) g by simp
  show ?thesis by (simp add: calculateProviderScore_def g h assms(2) Let_def)
qed

lemma calculateProviderScore_double:
  fixes b20 b15 b10 b25 :: int
  assumes "health = fst (getProviderHealth cache now p)"
    and "name = toLowerCase (getProviderName p)"
    and "latency health \<noteq> Some (Fin 0)"
    and "list_all is_digit (req_sellAmount request)"
    and "amount = digits_val (req_sellAmount request)"
    and "\<not> (10 ^ 21 < amount \<and> amount \<le> 10 ^ 21 + 65536)"
    and "latencyBonus =
           (case latency health of
              None \<Rightarrow> Fin 0
            | Some l \<Rightarrow> if l = NaN then Fin 0 else Math_max (Fin 0) (num_sub (Fin 100) l))"
    and "errorPenalty =
           (case errorRate health of None \<Rightarrow> Fin 0 | Some r \<Rightarrow> num_mul r (Fin 100))"
    and "b20 = (if name = ''0x'' \<and> req_chainId request = 1 then 20 else 0)"
    and "b15 = (if name = ''odos'' \<and> req_chainId request = 137 then 15 else 0)"
    and "b10 = (if name = ''0x'' \<and> 10 ^ 21 < amount then 10 else 0)"
    and "b25 = (if name = ''0x'' \<and> req_approvalStrategy request = Some PERMIT2 then 25 else 0)"
  shows "fst (calculateProviderScore cache now p request) =
           Math_max (Fin 0)
             (num_add (num_add (num_add (num_add
                (if status health = healthy
                 then num_sub (num_add (num_add (Fin 100) (Fin 50)) latencyBonus) errorPenalty
                 else num_sub (Fin 100) (Fin 100))
                (Fin (of_int b20))) (Fin (of_int b15))) (Fin (of_int b10))) (Fin (of_int b25)))"
proof -
  have hs: "health_score health =
              (if status health = healthy
               then num_sub (num_add (num_add (Fin 100) (Fin 50)) latencyBonus) errorPenalty
               else num_sub (Fin 100) (Fin 100))"
    unfolding assms(7,8) by (rule health_score_formula[OF assms(3)])
  have rep: "num_add (health_score health) (Fin 0) = health_score health"
    unfolding hs by (simp only: num_add_num_sub_zero if_distrib [of "\<lambda>s. num_add s (Fin 0)"] if_cancel)
  have "fst (calculateProviderScore cache now p request)
          = Math_max (Fin 0) (provider_bonuses name request (health_score health))"
    by (rule calculateProviderScore_unfold[OF assms(1,2)])
  then have "fst (calculateProviderScore cache now p request)
          = Math_max (Fin 0)
             (num_add (num_add (num_add (num_add (health_score health)
                (Fin (of_int b20))) (Fin (of_int b15))) (Fin (of_int b10))) (Fin (of_int b25)))"
    by (simp only: provider_bonuses_formula[OF rep assms(4,5,6,9,10,11,12)])
  then show ?thesis by (simp only: hs)
qed

lemma calculateProviderScore_exact:
  fixes lb pen b20 b15 b10 b25 :: int
  assumes score: "score =
           Math_max (Fin 0)
             (num_add (num_add (num_add (num_add
                (if healthy_status
                 then num_sub (num_add (num_add (Fin 100) (Fin 50)) latencyBonus) errorPenalty
                 else num_sub (Fin 100) (Fin 100))
                (Fin (of_int b20))) (Fin (of_int b15))) (Fin (of_int b10))) (Fin (of_int b25)))"
    and exact: "healthy_status \<longrightarrow>
                  latencyBonus = Fin (of_int lb) \<and> \<bar>lb\<bar> \<le> 10 ^ 12
                  \<and> errorPenalty = Fin (of_int pen) \<and> \<bar>pen\<bar> \<le> 10 ^ 12"
    and b: "b20 = 20 \<or> b20 = 0" "b15 = 15 \<or> b15 = 0" "b10 = 10 \<or> b10 = 0" "b25 = 25 \<or> b25 = 0"
  shows "score = Fin (of_int (max 0 (100 + (if healthy_status then 50 + lb - pen else - 100)
                                       + b20 + b15 + b10 + b25)))"
proof -
  define H where "H = (if healthy_status then 150 + lb - pen else 0)"
  have Hb: "\<bar>H\<bar> \<le> 3000000000000"
  proof (cases healthy_status)
    case True
    then have "\<bar>lb\<bar> \<le> 1000000000000" "\<bar>pen\<bar> \<le> 1000000000000" using exact by simp_all
    then show ?thesis using True unfolding H_def by simp
  next
    case False
    then show ?thesis by (simp add: H_def)
  qed
  have base: "(if healthy_status
                 then num_sub (num_add (num_add (Fin 100) (Fin 50)) latencyBonus) errorPenalty
                 else num_sub (Fin 100) (Fin 100)) = Fin (of_int H)"
  proof (cases healthy_status)
    case True
    then have e: "latencyBonus = Fin (of_int lb)" "errorPenalty = Fin (of_int pen)"
      and bb: "\<bar>lb\<bar> \<le> 1000000000000" "\<bar>pen\<bar> \<le> 1000000000000"
      using exact by simp_all
    have 1: "num_add (Fin (of_int 100)) (Fin (of_int 50)) = Fin (of_int (100 + 50))"
      by (rule num_add_of_int) simp
    have 2: "num_add (Fin (of_int (100 + 50))) (Fin (of_int lb)) = Fin (of_int (100 + 50 + lb))"
      by (rule num_add_of_int) (use bb in linarith)
    have 3: "num_sub (Fin (of_int (100 + 50 + lb))) (Fin (of_int pen))
               = Fin (of_int (100 + 50 + lb - pen))"
      by (rule num_sub_of_int) (use bb in linarith)
    have "num_sub (num_add (num_add (Fin (of_int 100)) (Fin (of_int 50))) latencyBonus) errorPenalty
            = Fin (of_int (100 + 50 + lb - pen))"
      unfolding e 1 2 3 ..
    then show ?thesis using True by (simp add: H_def)
  next
    case False
    have "num_sub (Fin (of_int 100)) (Fin (of_int 100)) = Fin (of_int (100 - 100))"
      by (rule num_sub_of_int) simp
    then show ?thesis using False by (simp add: H_def)
  qed
  have 1: "num_add (Fin (of_int H)) (Fin (of_int b20)) = Fin (of_int (H + b20))"
    by (rule num_add_of_int) (use Hb b in linarith)
  have 2: "num_add (Fin (of_int (H + b20))) (Fin (of_int b15)) = Fin (of_int (H + b20 + b15))"
    by (rule num_add_of_int) (use Hb b in linarith)
  have 3: "num_add (Fin (of_int (H + b20 + b15))) (Fin (of_int b10))
             = Fin (of_int (H + b20 + b15 + b10))"
    by (rule num_add_of_int) (use Hb b in linarith)
  have 4: "num_add (Fin (of_int (H + b20 + b15 + b10))) (Fin (of_int b25))
             = Fin (of_int (H + b20 + b15 + b10 + b25))"
    by (rule num_add_of_int) (use Hb b in linarith)
  have "score = Math_max (Fin (of_int 0)) (Fin (of_int (H + b20 + b15 + b10 + b25)))"
    unfolding score base 1 2 3 4 by simp
  also have "\<dots> = Fin (of_int (max 0 (H + b20 + b15 + b10 + b25)))"
    by (rule Math_max_int)
  also have "H = 100 + (if healthy_status then 50 + lb - pen else - 100)"
    by (simp add: H_def)
  finally show ?thesis .
qed


text \<open>
  Claim C7, amended. The score is the maximum of 0 and the following sum, evaluated in
  double arithmetic in the order written: 100; for a provider whose status is healthy,
  plus 50, plus the latency bonus \<open>max 0 (100 - latency)\<close> when a latency is reported,
  minus the error rate times 100 when one is reported; for a provider that is not healthy
  (degraded or unhealthy), minus 100, with neither latency bonus nor error-rate penalty;
  plus 20 for the name 0x on chain 1; plus 15 for the name odos on chain 137; plus 10 for
  the name 0x when the sell amount, a string of decimal digits, exceeds \<open>10^21\<close>; plus
  25 for the name 0x under the permit2 strategy. Names are compared in lower case; a
  latency that is not a number counts as not reported. Whenever the latency bonus and
  the error-rate penalty so computed are integers of magnitude at most \<open>10^12\<close>, no
  step rounds and the score is the maximum of 0 and the exact sum. Two cases are left
  open: a reported latency of exactly 0, and a sell amount \<open>n\<close> with
  \<open>10^21 < n \<le> 10^21 + 65536\<close>.
\<close>

theorem calculateProviderScore_formula:
  fixes lb pen b20 b15 b10 b25 :: int
  assumes "health = fst (getProviderHealth cache now p)"
    and "name = toLowerCase (getProviderName p)"
    and "latency health \<noteq> Some (Fin 0)"
    and "list_all is_digit (req_sellAmount request)"
    and "amount = digits_val (req_sellAmount request)"
    and "\<not> (10 ^ 21 < amount \<and> amount \<le> 10 ^ 21 + 65536)"
    and "latencyBonus =
           (case latency health of
              None \<Rightarrow> Fin 0
            | Some l \<Rightarrow> if l = NaN then Fin 0 else Math_max (Fin 0) (num_sub (Fin 100) l))"
    and "errorPenalty =
           (case errorRate health of None \<Rightarrow> Fin 0 | Some r \<Rightarrow> num_mul r (Fin 100))"
    and "b20 = (if name = ''0x'' \<and> req_chainId request = 1 then 20 else 0)"
    and "b15 = (if name = ''odos'' \<and> req_chainId request = 137 then 15 else 0)"
    and "b10 = (if name = ''0x'' \<and> 10 ^ 21 < amount then 10 else 0)"
    and "b25 = (if name = ''0x'' \<and> req_approvalStrategy request = Some PERMIT2 then 25 else 0)"
  shows "fst (calculateProviderScore cache now p request) =
           Math_max (Fin 0)
             (num_add (num_add (num_add (num_add
                (if status health = healthy
                 then num_sub (num_add (num_add (Fin 100) (Fin 50)) latencyBonus) errorPenalty
                 else num_sub (Fin 100) (Fin 100))
                (Fin (of_int b20))) (Fin (of_int b15))) (Fin (of_int b10))) (Fin (of_int b25)))
         \<and> ((status health = healthy \<longrightarrow>
                latencyBonus = Fin (of_int lb) \<and> \<bar>lb\<bar> \<le> 10 ^ 12
                \<and> errorPenalty = Fin (of_int pen) \<and> \<bar>pen\<bar> \<le> 10 ^ 12) \<longrightarrow>
             fst (calculateProviderScore cache now p request) =
               Fin (of_int (max 0 (100 + (if status health = healthy then 50 + lb - pen else - 100)
                                     + b20 + b15 + b10 + b25))))"
proof (intro conjI impI)
  show d: "fst (calculateProviderScore cache now p request) =
           Math_max (Fin 0)
             (num_add (num_add (num_add (num_add
                (if status health = healthy
                 then num_sub (num_add (num_add (Fin 100) (Fin 50)) latencyBonus) errorPenalty
                 else num_sub (Fin 100) (Fin 100))
                (Fin (of_int b20))) (Fin (of_int b15))) (Fin (of_int b10))) (Fin (of_int b25)))"
    using assms by (rule calculateProviderScore_double)
  assume e: "status health = healthy \<longrightarrow>
                latencyBonus = Fin (of_int lb) \<and> \<bar>lb\<bar> \<le> 10 ^ 12
                \<and> errorPenalty = Fin (of_int pen) \<and> \<bar>pen\<bar> \<le> 10 ^ 12"
  have b: "b20 = 20 \<or> b20 = 0" "b15 = 15 \<or> b15 = 0" "b10 = 10 \<or> b10 = 0" "b25 = 25 \<or> b25 = 0"
    using assms(9,10,11,12) by (simp_all split: if_splits)
  show "fst (calculateProviderScore cache now p request) =
               Fin (of_int (max 0 (100 + (if status health = healthy then 50 + lb - pen else - 100)
                                     + b20 + b15 + b10 + b25)))"
    using d e b by (rule calculateProviderScore_exact)
qed

lemma parseFloat_1000000000000000: "parseFloat ''1000000000000000'' = Fin 1000000000000000"
proof -
  have "parseFloat ''1000000000000000'' = fl (of_nat (digits_val ''1000000000000000''))"
    by (rule parseFloat_digits) (simp_all add: is_digit_def)
  also have "digits_val ''1000000000000000'' = 1000000000000000"
    by (simp add: digits_val_def digit_val_def)
  also have "fl (of_nat 1000000000000000) = Fin (of_nat 1000000000000000)"
    by (rule fl_nat_exact) simp
  finally show ?thesis by simp
qed

lemma permit2_request_fields:
  "req_chainId permit2_request = 1"
  "req_approvalStrategy permit2_request = Some PERMIT2"
  "parseFloat (req_sellAmount permit2_request) = Fin 1000000000000000"
  by (simp_all add: permit2_request_def mainnet_request_def parseFloat_1000000000000000)

lemma sell_amount_not_large: "\<not> num_greater (Fin 1000000000000000) (Fin (10 ^ 21))"
  by (simp add: num_greater_def)

lemma failed_probe_health:
  "fst (getProviderHealth [] 0 zeroX_adapter)
     = \<lparr>health_name = ''0x'', status = unhealthy, latency = None, lastCheck = 0,
         errorRate = Some (Fin 1)\<rparr>"
  by (simp add: getProviderHealth_def zeroX_adapter_def Let_def)

lemma zeroX_adapter_name: "toLowerCase (getProviderName zeroX_adapter) = ''0x''"
  by (simp add: zeroX_adapter_def toLowerCase_def lower_char_def)

text \<open>
  Claim C7, as stated, fails. The health probe of the 0x adapter throws, so its health is
  unhealthy with error rate 1 and no latency; the request is on chain 1 with the permit2
  strategy. The code scores \<open>100 - 100 + 20 + 25 = 45\<close>: the error-rate penalty is applied
  to healthy providers only. The sum of the claim,
  \<open>100 - 100 * 1 - 100 + 20 + 25\<close> clamped at zero, is 0.
\<close>

theorem calculateProviderScore_unhealthy_counterexample:
  "status (fst (getProviderHealth [] 0 zeroX_adapter)) = unhealthy
   \<and> latency (fst (getProviderHealth [] 0 zeroX_adapter)) = None
   \<and> errorRate (fst (getProviderHealth [] 0 zeroX_adapter)) = Some (Fin 1)
   \<and> toLowerCase (getProviderName zeroX_adapter) = ''0x''
   \<and> req_chainId permit2_request = 1
   \<and> req_approvalStrategy permit2_request = Some PERMIT2
   \<and> fst (calculateProviderScore [] 0 zeroX_adapter permit2_request) = Fin 45
   \<and> max 0 (100 - 100 * 1 - 100 + 20 + 25) = (0::int)"
proof -
  let ?h = "fst (getProviderHealth [] 0 zeroX_adapter)"
  have a2: "latency ?h = map_option (\<lambda>l. Fin (of_int l)) None"
    by (simp add: failed_probe_health)
  have a3: "errorRate ?h = map_option (\<lambda>r. Fin (of_int r)) (Some 1)"
    by (simp add: failed_probe_health)
  have a4: "\<forall>l. (None :: int option) = Some l \<longrightarrow> l \<noteq> 0 \<and> \<bar>l\<bar> \<le> 10 ^ 12"
    by simp
  have a5: "\<forall>r. Some (1::int) = Some r \<longrightarrow> \<bar>r\<bar> \<le> 10 ^ 12"
    by simp
  have st: "status ?h = unhealthy"
    by (simp add: failed_probe_health)
  note f = calculateProviderScore_value
             [OF refl a2 a3 a4 a5 zeroX_adapter_name [symmetric], of permit2_request]
  have score: "fst (calculateProviderScore [] 0 zeroX_adapter permit2_request) = Fin 45"
    unfolding f st permit2_request_fields using sell_amount_not_large by simp
  show ?thesis
    using score by (simp add: failed_probe_health zeroX_adapter_name permit2_request_fields)
qed

lemma fl_tenth: "fl (1 / 10) = Fin (of_int 7205759403792794 * pow2 (- 56))"
proof -
  have q: "(1 / 10 :: rat) / pow2 (- 56) = of_int 72057594037927936 / of_int 10"
    by (simp add: pow2_def)
  have "round_half_even (of_int 72057594037927936 / of_int 10) =
          (if 2 * (72057594037927936 mod 10) < (10::int) then 72057594037927936 div 10
           else if 10 < 2 * (72057594037927936 mod (10::int)) then 72057594037927936 div 10 + 1
           else if even (72057594037927936 div (10::int)) then 72057594037927936 div 10
           else 72057594037927936 div 10 + 1)"
    by (rule round_half_even_divide) simp
  also have "\<dots> = 7205759403792794" by simp
  finally have r: "round_half_even ((1 / 10) / pow2 (- 56)) = 7205759403792794"
    unfolding q .
  show ?thesis
  proof (rule fl_eval[where e = "- 4" and u = "- 56"])
    show "pow2 (- 4) \<le> 1 / 10" by (simp add: pow2_def)
    show "1 / 10 < pow2 (- 4 + 1)" by (simp add: pow2_def)
    show "- 56 = max (- 4 - 52) (- 1074 :: int)" by simp
    show "of_int 7205759403792794 * pow2 (- 56)
            = of_int (round_half_even (1 / 10 / pow2 (- 56))) * pow2 (- 56)"
      by (simp only: r)
    show "of_int 7205759403792794 * pow2 (- 56) < pow2 1024" by (simp add: pow2_def)
  qed
qed

lemma tenth_times_100: "num_mul (fl (1 / 10)) (Fin 100) = Fin 10"
proof -
  define a :: rat where "a = of_int 7205759403792794 * pow2 (- 56) * 100"
  have q: "a / pow2 (- 49) = of_int 720575940379279400 / of_int 128"
    by (simp add: a_def pow2_def)
  have "round_half_even (of_int 720575940379279400 / of_int 128) =
          (if 2 * (720575940379279400 mod 128) < (128::int) then 720575940379279400 div 128
           else if 128 < 2 * (720575940379279400 mod (128::int)) then 720575940379279400 div 128 + 1
           else if even (720575940379279400 div (128::int)) then 720575940379279400 div 128
           else 720575940379279400 div 128 + 1)"
    by (rule round_half_even_divide) simp
  also have "\<dots> = 5629499534213120" by simp
  finally have r: "round_half_even (a / pow2 (- 49)) = 5629499534213120"
    unfolding q .
  have "fl a = Fin 10"
  proof (rule fl_eval[where e = 3 and u = "- 49"])
    show "pow2 3 \<le> a" by (simp add: a_def pow2_def)
    show "a < pow2 (3 + 1)" by (simp add: a_def pow2_def)
    show "- 49 = max (3 - 52) (- 1074 :: int)" by simp
    show "10 = of_int (round_half_even (a / pow2 (- 49))) * pow2 (- 49)"
      unfolding r by (simp add: pow2_def)
    show "(10 :: rat) < pow2 1024" by (simp add: pow2_def)
  qed
  then show ?thesis by (simp only: fl_tenth num_mul.simps a_def)
qed

lemma digits_2000000000000000000000:
  "list_all is_digit ''2000000000000000000000''"
  "digits_val ''2000000000000000000000'' = 2000000000000000000000"
  by (simp_all add: is_digit_def digits_val_def digit_val_def)

lemma digits_1000000000000000:
  "list_all is_digit ''1000000000000000''"
  "digits_val ''1000000000000000'' = 1000000000000000"
  by (simp_all add: is_digit_def digits_val_def digit_val_def)

lemma large_permit2_request_fields:
  "req_chainId large_permit2_request = 1"
  "req_approvalStrategy large_permit2_request = Some PERMIT2"
  "req_sellAmount large_permit2_request = ''2000000000000000000000''"
  by (simp_all add: large_permit2_request_def permit2_request_def mainnet_request_def)

lemma mainnet_request_fields:
  "req_chainId mainnet_request = 1"
  "req_approvalStrategy mainnet_request = None"
  "req_sellAmount mainnet_request = ''1000000000000000''"
  by (simp_all add: mainnet_request_def)

lemma flaky_health:
  "fst (getProviderHealth [] 0 flaky_zeroX_adapter)
     = \<lparr>health_name = ''0x'', status = healthy, latency = Some (Fin 40), lastCheck = 0,
         errorRate = Some (fl (1 / 10))\<rparr>"
  by (simp add: getProviderHealth_def flaky_zeroX_adapter_def zeroX_adapter_def Let_def)

lemma degraded_health:
  "fst (getProviderHealth [] 0 degraded_zeroX_adapter)
     = \<lparr>health_name = ''0x'', status = degraded, latency = Some (Fin 250), lastCheck = 0,
         errorRate = Some (Fin (1 / 2))\<rparr>"
  by (simp add: getProviderHealth_def degraded_zeroX_adapter_def zeroX_adapter_def Let_def)

lemma adapter_names:
  "toLowerCase (getProviderName flaky_zeroX_adapter) = ''0x''"
  "toLowerCase (getProviderName degraded_zeroX_adapter) = ''0x''"
  by (simp_all add: flaky_zeroX_adapter_def degraded_zeroX_adapter_def zeroX_adapter_def
        toLowerCase_def lower_char_def)

lemma latency_bonus_40: "Math_max (Fin 0) (num_sub (Fin 100) (Fin 40)) = Fin 60"
  by (simp add: num_sub_def fl_Ints_exact)

theorem calculateProviderScore_formula_witness:
  "fst (calculateProviderScore [] 0 flaky_zeroX_adapter large_permit2_request) = Fin 255
   \<and> fst (calculateProviderScore [] 0 degraded_zeroX_adapter mainnet_request) = Fin 20"
proof -
  let ?h = "fst (getProviderHealth [] 0 flaky_zeroX_adapter)"
  have h3: "latency ?h \<noteq> Some (Fin 0)" by (simp add: flaky_health)
  have h4: "list_all is_digit (req_sellAmount large_permit2_request)"
    by (simp only: large_permit2_request_fields digits_2000000000000000000000)
  have h5: "2000000000000000000000 = digits_val (req_sellAmount large_permit2_request)"
    by (simp only: large_permit2_request_fields digits_2000000000000000000000)
  have h6: "\<not> (10 ^ 21 < (2000000000000000000000 :: nat)
              \<and> (2000000000000000000000 :: nat) \<le> 10 ^ 21 + 65536)"
    by simp
  have h7: "Fin 60 = (case latency ?h of None \<Rightarrow> Fin 0
              | Some l \<Rightarrow> if l = NaN then Fin 0 else Math_max (Fin 0) (num_sub (Fin 100) l))"
    by (simp add: flaky_health latency_bonus_40 del: Math_max.simps)
  have h8: "Fin 10 = (case errorRate ?h of None \<Rightarrow> Fin 0 | Some r \<Rightarrow> num_mul r (Fin 100))"
    by (simp add: flaky_health tenth_times_100)
  have h9: "20 = (if ''0x'' = ''0x'' \<and> req_chainId large_permit2_request = 1 then 20 else (0::int))"
    by (simp add: large_permit2_request_fields)
  have h10: "0 = (if ''0x'' = ''odos'' \<and> req_chainId large_permit2_request = 137 then 15 else (0::int))"
    by simp
  have h11: "10 = (if ''0x'' = ''0x'' \<and> 10 ^ 21 < (2000000000000000000000 :: nat) then 10 else (0::int))"
    by simp
  have h12: "25 = (if ''0x'' = ''0x'' \<and> req_approvalStrategy large_permit2_request = Some PERMIT2
                   then 25 else (0::int))"
    by (simp add: large_permit2_request_fields)
  note f = calculateProviderScore_formula
             [OF refl adapter_names(1) [symmetric] h3 h4 h5 h6 h7 h8 h9 h10 h11 h12,
              where lb = 60 and pen = 10, THEN conjunct2]
  have st: "status ?h = healthy" by (simp add: flaky_health)
  have 1: "fst (calculateProviderScore [] 0 flaky_zeroX_adapter large_permit2_request) = Fin 255"
    using f unfolding st by simp
  let ?d = "fst (getProviderHealth [] 0 degraded_zeroX_adapter)"
  have d3: "latency ?d \<noteq> Some (Fin 0)" by (simp add: degraded_health)
  have d4: "list_all is_digit (req_sellAmount mainnet_request)"
    by (simp only: mainnet_request_fields digits_1000000000000000)
  have d5: "1000000000000000 = digits_val (req_sellAmount mainnet_request)"
    by (simp only: mainnet_request_fields digits_1000000000000000)
  have d6: "\<not> (10 ^ 21 < (1000000000000000 :: nat) \<and> (1000000000000000 :: nat) \<le> 10 ^ 21 + 65536)"
    by simp
  have d9: "20 = (if ''0x'' = ''0x'' \<and> req_chainId mainnet_request = 1 then 20 else (0::int))"
    by (simp add: mainnet_request_fields)
  have d10: "0 = (if ''0x'' = ''odos'' \<and> req_chainId mainnet_request = 137 then 15 else (0::int))"
    by simp
  have d11: "0 = (if ''0x'' = ''0x'' \<and> 10 ^ 21 < (1000000000000000 :: nat) then 10 else (0::int))"
    by simp
  have d12: "0 = (if ''0x'' = ''0x'' \<and> req_approvalStrategy mainnet_request = Some PERMIT2
                   then 25 else (0::int))"
    by (simp add: mainnet_request_fields)
  note g = calculateProviderScore_formula
             [OF refl adapter_names(2) [symmetric] d3 d4 d5 d6 refl refl d9 d10 d11 d12,
              where lb = 0 and pen = 0, THEN conjunct2]
  have sd: "status ?d = degraded" by (simp add: degraded_health)
  have 2: "fst (calculateProviderScore [] 0 degraded_zeroX_adapter mainnet_request) = Fin 20"
    using g unfolding sd by simp
  show ?thesis using 1 2 by simp
qed

text \<open>
  The case left open: a healthy provider whose probe answered within the same
  millisecond gets no latency bonus, since a latency of 0 is falsy.
\<close>

lemma health_score_latency_zero:
  "health_score \<lparr>health_name = n, status = healthy, latency = Some (Fin 0), lastCheck = t,
                 errorRate = None\<rparr> = Fin 150"
  by (simp add: health_score_def fl_Ints_exact)

text \<open>
  The other case left open: \<open>1000000000000000065536\<close> exceeds \<open>10^21\<close>, but
  it parses to the double \<open>10^21\<close> and the trade-size bonus is not added.
\<close>

lemma sell_amount_window:
  "\<not> num_greater (parseFloat ''1000000000000000065536'') (Fin (10 ^ 21))"
proof -
  have d: "list_all is_digit ''1000000000000000065536''"
    "digits_val ''1000000000000000065536'' = 1000000000000000065536"
    by (simp_all add: is_digit_def digits_val_def digit_val_def)
  show ?thesis using parseFloat_gt_1e21[OF d(1)] unfolding d(2) by simp
qed

section \<open>Properties of the Permit2 splice\<close>

lemma radix_val_snoc: "radix_val b (ds @ [c]) = b * radix_val b ds + hex_digit_val c"
  by (simp add: radix_val_def)

lemma radix_val_zeros: "radix_val b (replicate k (CHR ''0'') @ ds) = radix_val b ds"
proof -
  have "foldl (\<lambda>a c. b * a + hex_digit_val c) 0 (replicate k (CHR ''0'')) = 0"
    by (induction k) (simp_all add: hex_digit_val_def)
  then show ?thesis by (simp add: radix_val_def)
qed

lemma below_16_cases:
  assumes "d < 16"
  shows "d \<in> set [0, 1, 2, 3, 4, 5, 6, 7, 8, 9, 10, 11, 12, 13, 14, 15 :: nat]"
proof -
  have "d \<in> {0..<16}" using assms by simp
  also have "{0..<16 :: nat} = set [0, 1, 2, 3, 4, 5, 6, 7, 8, 9, 10, 11, 12, 13, 14, 15]"
    by (simp add: atLeastLessThan_nat_numeral insert_commute)
  finally show ?thesis .
qed

lemma hex_chars:
  "\<forall>d \<in> set [0, 1, 2, 3, 4, 5, 6, 7, 8, 9, 10, 11, 12, 13, 14, 15 :: nat].
     hex_digit_val (hex_char d) = d \<and> is_hex_digit (hex_char d)"
  by (simp add: hex_char_def hex_digit_val_def is_hex_digit_def)

lemma hex_digit_val_hex_char: "d < 16 \<Longrightarrow> hex_digit_val (hex_char d) = d"
  using hex_chars below_16_cases by blast

lemma is_hex_digit_hex_char: "d < 16 \<Longrightarrow> is_hex_digit (hex_char d)"
  using hex_chars below_16_cases by blast

lemma radix_val_nat_to_hex: "radix_val 16 (nat_to_hex n) = n"
proof (induction n rule: nat_to_hex.induct)
  case (1 n)
  show ?case
  proof (cases "n < 16")
    case True
    then show ?thesis by (simp add: nat_to_hex.simps radix_val_def hex_digit_val_hex_char)
  next
    case False
    then have "radix_val 16 (nat_to_hex (n div 16)) = n div 16" using 1 by simp
    then show ?thesis
      using False by (subst nat_to_hex.simps) (simp add: radix_val_snoc hex_digit_val_hex_char)
  qed
qed

lemma nat_to_hex_digits: "list_all is_hex_digit (nat_to_hex n)"
proof (induction n rule: nat_to_hex.induct)
  case (1 n)
  show ?case
  proof (cases "n < 16")
    case True
    then show ?thesis by (simp add: nat_to_hex.simps is_hex_digit_hex_char)
  next
    case False
    then show ?thesis
      using 1 by (subst nat_to_hex.simps) (simp add: is_hex_digit_hex_char)
  qed
qed

lemma length_nat_to_hex: "n < 16 ^ k \<Longrightarrow> 0 < k \<Longrightarrow> length (nat_to_hex n) \<le> k"
proof (induction n arbitrary: k rule: nat_to_hex.induct)
  case (1 n)
  show ?case
  proof (cases "n < 16")
    case True
    then show ?thesis using 1(3) by (simp add: nat_to_hex.simps)
  next
    case False
    then obtain j where k: "k = Suc j" using 1(3) by (cases k) auto
    have "0 < j" using False 1(2) k by (cases j) auto
    moreover have "n div 16 < 16 ^ j" using 1(2) k by (simp add: less_mult_imp_div_less)
    ultimately have "length (nat_to_hex (n div 16)) \<le> j" using 1(1)[OF False] by simp
    then show ?thesis using False k by (subst nat_to_hex.simps) simp
  qed
qed

lemma strip_0x_prefix: "take 2 v = ''0x'' \<Longrightarrow> strip_0x v = drop 2 v"
  by (cases v rule: strip_0x.cases) auto

lemma numberToHex_32:
  assumes "n < 2 ^ 256"
  shows "\<exists>pad. numberToHex n 32 = Inr (''0x'' @ pad) \<and> length pad = 64
           \<and> list_all is_hex_digit pad \<and> radix_val 16 pad = n"
proof -
  have "n < 16 ^ 64" using assms by simp
  then have len: "length (nat_to_hex n) \<le> 64" by (rule length_nat_to_hex) simp
  have le: "\<not> 2 ^ (32 * 8) - 1 < n" using assms by simp
  let ?pad = "replicate (64 - length (nat_to_hex n)) (CHR ''0'') @ nat_to_hex n"
  have "numberToHex n 32 = Inr (''0x'' @ ?pad)"
    using len le by (simp add: numberToHex_def Let_def)
  moreover have "length ?pad = 64" using len by simp
  moreover have "list_all is_hex_digit ?pad"
  proof -
    have "is_hex_digit (CHR ''0'')" by (simp add: is_hex_digit_def)
    then show ?thesis using nat_to_hex_digits[of n] by (auto simp: list_all_iff)
  qed
  moreover have "radix_val 16 ?pad = n" by (simp add: radix_val_zeros radix_val_nat_to_hex)
  ultimately show ?thesis by blast
qed

lemma appendSignatureToTxData_splice:
  assumes "take 2 tx = ''0x''" and "take 2 sig = ''0x''"
    and "even (length tx)" and "even (length sig)"
    and "size_hex sig < 2 ^ 256"
  shows "\<exists>pad. appendSignatureToTxData tx sig = Inr (tx @ pad @ drop 2 sig)
           \<and> length pad = 64 \<and> list_all is_hex_digit pad \<and> radix_val 16 pad = size_hex sig
           \<and> size_hex (tx @ pad @ drop 2 sig) = size_hex tx + 32 + size_hex sig"
proof -
  obtain pad where pad: "numberToHex (size_hex sig) 32 = Inr (''0x'' @ pad)" "length pad = 64"
      "list_all is_hex_digit pad" "radix_val 16 pad = size_hex sig"
    using numberToHex_32[OF assms(5)] by blast
  have tx: "''0x'' @ drop 2 tx = tx" using assms(1) by (metis append_take_drop_id)
  have 1: "appendSignatureToTxData tx sig = Inr (tx @ pad @ drop 2 sig)"
    using tx by (simp add: appendSignatureToTxData_def pad(1) concat_hex_def
        strip_0x_prefix[OF assms(1)] strip_0x_prefix[OF assms(2)])
  have "length (take 2 tx) = 2" "length (take 2 sig) = 2"
    using assms(1,2) by simp_all
  then have l2: "2 \<le> length tx" "2 \<le> length sig"
    by simp_all
  obtain a where a: "length tx = 2 * a" using assms(3) by (auto elim: evenE)
  obtain b where b: "length sig = 2 * b" using assms(4) by (auto elim: evenE)
  have ab: "1 \<le> a" "1 \<le> b" using l2 a b by simp_all
  have pre: "take 2 (tx @ pad @ drop 2 sig) = ''0x''"
    using l2(1) assms(1) by simp
  have len: "length (tx @ pad @ drop 2 sig) = 2 * (a + b + 31)"
    using a b ab pad(2) by simp
  have s_tx: "size_hex tx = a - 1"
    using assms(1) a ab by (simp add: size_hex_def)
  have s_sig: "size_hex sig = b - 1"
    using assms(2) b ab by (simp add: size_hex_def)
  have s_all: "size_hex (tx @ pad @ drop 2 sig) = a + b + 30"
    unfolding size_hex_def pre len by simp
  have 2: "size_hex (tx @ pad @ drop 2 sig) = size_hex tx + 32 + size_hex sig"
    using s_tx s_sig s_all ab by simp
  show ?thesis using 1 2 pad by blast
qed

text \<open>
  Claim C2. For transaction data and a signature that are hex strings of whole bytes
  (\<^verbatim>\<open>0x\<close> followed by an even number of digits), the splice returns the transaction
  data, followed by 64 hex digits (32 bytes) that read most significant digit first as
  the byte length of the signature, followed by the signature bytes. The result is 32
  bytes plus the signature longer than the transaction data, and
  \<^verbatim>\<open>processPermit2Quote\<close> returns it as \<open>modifiedTxData\<close> beside the original data,
  the signature and the permit. A signature of \<open>2^256\<close> bytes or more would make
  \<^verbatim>\<open>numberToHex\<close> fail; no string is that long.
\<close>

theorem permit2_splice:
  assumes "take 2 tx = ''0x''" and "take 2 sig = ''0x''"
    and "even (length tx)" and "even (length sig)"
    and "size_hex sig < 2 ^ 256"
  shows "\<exists>pad. appendSignatureToTxData tx sig = Inr (tx @ pad @ drop 2 sig)
           \<and> length pad = 64 \<and> list_all is_hex_digit pad \<and> radix_val 16 pad = size_hex sig
           \<and> size_hex (tx @ pad @ drop 2 sig) = size_hex tx + 32 + size_hex sig
           \<and> (\<forall>q pd signer key cid.
                 quote_data q = tx \<and> permit2 q = Some pd \<and> signer cid key pd = Inr sig \<longrightarrow>
                 processPermit2Quote signer q key cid
                   = Inr \<lparr>originalTxData = tx, signature = sig,
                          modifiedTxData = tx @ pad @ drop 2 sig, permit2Data = pd\<rparr>)"
proof -
  obtain pad where pad: "appendSignatureToTxData tx sig = Inr (tx @ pad @ drop 2 sig)"
      "length pad = 64" "list_all is_hex_digit pad" "radix_val 16 pad = size_hex sig"
      "size_hex (tx @ pad @ drop 2 sig) = size_hex tx + 32 + size_hex sig"
    using appendSignatureToTxData_splice [OF assms] by blast
  have "processPermit2Quote signer q key cid
          = Inr \<lparr>originalTxData = tx, signature = sig,
                 modifiedTxData = tx @ pad @ drop 2 sig, permit2Data = pd\<rparr>"
    if "quote_data q = tx" "permit2 q = Some pd" "signer cid key pd = Inr sig"
    for q :: "'a SwapQuote" and pd signer key cid
    using that pad(1) by (simp add: processPermit2Quote_def)
  then show ?thesis
    using pad by blast
qed

theorem permit2_splice_witness:
  "take 2 ''0xabcd'' = ''0x''
   \<and> take 2 (''0x'' @ replicate 130 (CHR ''a'')) = ''0x''
   \<and> size_hex ''0xabcd'' = 2
   \<and> size_hex (''0x'' @ replicate 130 (CHR ''a'')) = 65
   \<and> appendSignatureToTxData ''0xabcd'' (''0x'' @ replicate 130 (CHR ''a''))
       = Inr (''0xabcd'' @ replicate 62 (CHR ''0'') @ ''41'' @ replicate 130 (CHR ''a''))
   \<and> size_hex (''0xabcd'' @ replicate 62 (CHR ''0'') @ ''41'' @ replicate 130 (CHR ''a'')) = 2 + 32 + 65
   \<and> radix_val 16 (replicate 62 (CHR ''0'') @ ''41'') = 65"
proof -
  let ?sig = "''0x'' @ replicate 130 (CHR ''a'')"
  have s_sig: "size_hex ?sig = 65" by (simp add: size_hex_def)
  have s_tx: "size_hex ''0xabcd'' = 2" by (simp add: size_hex_def)
  have hex: "nat_to_hex 65 = ''41''"
    by (simp add: nat_to_hex.simps hex_char_def)
  have direct: "appendSignatureToTxData ''0xabcd'' ?sig
       = Inr (''0xabcd'' @ replicate 62 (CHR ''0'') @ ''41'' @ replicate 130 (CHR ''a''))"
  proof -
    have "numberToHex 65 32 = Inr (''0x'' @ replicate 62 (CHR ''0'') @ ''41'')"
      by (simp add: numberToHex_def hex Let_def)
    then show ?thesis
      unfolding appendSignatureToTxData_def s_sig by (simp add: concat_hex_def)
  qed
  obtain pad where pad: "appendSignatureToTxData ''0xabcd'' ?sig = Inr (''0xabcd'' @ pad @ drop 2 ?sig)"
      "radix_val 16 pad = size_hex ?sig"
      "size_hex (''0xabcd'' @ pad @ drop 2 ?sig) = size_hex ''0xabcd'' + 32 + size_hex ?sig"
    using permit2_splice [of "''0xabcd''" ?sig] s_sig by auto
  have pad_eq: "pad = replicate 62 (CHR ''0'') @ ''41''"
    using pad(1) direct by simp
  show ?thesis
    using direct pad(2,3) unfolding pad_eq s_sig s_tx by simp
qed

section \<open>Properties of the approval status\<close>

lemma digit_char_is_digit: "d < 10 \<Longrightarrow> is_digit (digit_char d) \<and> digit_val (digit_char d) = d"
proof -
  assume "d < 10"
  then have "d \<in> {0..<10}" by simp
  also have "{0..<10 :: nat} = set [0, 1, 2, 3, 4, 5, 6, 7, 8, 9]"
    by (simp add: atLeastLessThan_nat_numeral insert_commute)
  finally have d: "d \<in> set [0, 1, 2, 3, 4, 5, 6, 7, 8, 9 :: nat]" .
  have "\<forall>d \<in> set [0, 1, 2, 3, 4, 5, 6, 7, 8, 9 :: nat].
          is_digit (digit_char d) \<and> digit_val (digit_char d) = d"
    by code_simp
  then show ?thesis using d by blast
qed

lemma digits_val_snoc: "digits_val (ds @ [c]) = 10 * digits_val ds + digit_val c"
  by (simp add: digits_val_def)

lemma nat_to_dec_digits: "nat_to_dec n \<noteq> [] \<and> list_all is_digit (nat_to_dec n)"
proof (induction n rule: nat_to_dec.induct)
  case (1 n)
  show ?case
  proof (cases "n < 10")
    case True
    then show ?thesis by (simp add: nat_to_dec.simps digit_char_is_digit)
  next
    case False
    then show ?thesis
      using 1 by (subst (1 2) nat_to_dec.simps) (simp add: digit_char_is_digit)
  qed
qed

lemma digits_val_nat_to_dec: "digits_val (nat_to_dec n) = n"
proof (induction n rule: nat_to_dec.induct)
  case (1 n)
  show ?case
  proof (cases "n < 10")
    case True
    then show ?thesis by (simp add: nat_to_dec.simps digits_val_def digit_char_is_digit)
  next
    case False
    then have "digits_val (nat_to_dec (n div 10)) = n div 10" using 1 by simp
    then show ?thesis
      using False by (subst nat_to_dec.simps) (simp add: digits_val_snoc digit_char_is_digit)
  qed
qed

lemma digit_not_space: "is_digit c \<Longrightarrow> \<not> is_space c"
  by (auto simp: is_digit_def is_space_def)

lemma trim_digits:
  assumes "list_all is_digit s"
  shows "trim s = s"
proof -
  have a: "\<forall>c \<in> set s. \<not> is_space c" using assms by (auto simp: list_all_iff digit_not_space)
  have "dropWhile is_space s = s" using a by (cases s) auto
  moreover have "dropWhile is_space (rev s) = rev s" using a by (cases "rev s") auto
  ultimately show ?thesis by (simp add: trim_def)
qed

lemma BigInt_digits:
  assumes "s \<noteq> []" "list_all is_digit s"
  shows "BigInt s = Inr (int (digits_val s))"
proof -
  obtain c r where s: "s = c # r" using assms(1) by (cases s) auto
  have c: "is_digit c" using assms(2) s by simp
  have t: "trim s = s" using assms(2) by (rule trim_digits)
  have all: "\<forall>x \<in> set s. is_digit x" using assms(2) by (simp add: list_all_iff)
  have no_prefix: "take 2 s \<noteq> [CHR ''0'', x]" if "\<not> is_digit x" for x
  proof
    assume e: "take 2 s = [CHR ''0'', x]"
    then have "x \<in> set (take 2 s)" by simp
    then have "x \<in> set s" by (rule in_set_takeD)
    then show False using all that by blast
  qed
  have np: "take 2 s \<noteq> ''0x''" "take 2 s \<noteq> ''0X''" "take 2 s \<noteq> ''0o''" "take 2 s \<noteq> ''0O''"
    "take 2 s \<noteq> ''0b''" "take 2 s \<noteq> ''0B''"
    by (rule no_prefix, simp add: is_digit_def)+
  have sg: "take_sign s = (False, s)"
    using digit_facts(2,3)[OF c] s by (simp add: take_sign_def)
  show ?thesis
    using assms by (simp add: BigInt_def t np sg Let_def)
qed

lemma BigInt_nat_to_dec: "BigInt (nat_to_dec n) = Inr (int n)"
  using nat_to_dec_digits[of n] by (simp add: BigInt_digits digits_val_nat_to_dec)

text \<open>
  Claim C10. Called without an amount (or with the empty string) for a token that is not
  the native token, with inputs that pass validation and chain reads that succeed,
  \<^verbatim>\<open>getApprovalStatus\<close> returns a status whose \<open>isApprovalNeeded\<close> is true exactly
  when the ERC-20 allowance read from the chain is zero: any positive allowance gives
  false, whatever the intended trade size.
\<close>

theorem getApprovalStatus_without_amount:
  assumes "0 < c"
    and "tokenAddress \<noteq> []" and "isAddress env tokenAddress"
    and "owner \<noteq> []" and "isAddress env owner"
    and "spender \<noteq> []" and "isAddress env spender"
    and "\<not> isNativeToken tokenAddress"
    and "getAllowance env c tokenAddress owner spender = Inr (nat_to_dec allowance)"
    and "getTokenInfo env c tokenAddress = Inr info"
    and "amount = None \<or> amount = Some []"
  shows "\<exists>r. getApprovalStatus env c tokenAddress owner spender amount = Inr r
           \<and> currentAllowance r = nat_to_dec allowance
           \<and> (isApprovalNeeded r \<longleftrightarrow> allowance = 0)"
proof -
  have needed: "approval_needed (nat_to_dec allowance) amount = Inr (allowance = 0)"
    using assms(11) by (auto simp: approval_needed_def BigInt_nat_to_dec)
  obtain compatible p2 where p: "permit2_compatibility env c tokenAddress = (compatible, p2)"
    by (cases "permit2_compatibility env c tokenAddress")
  have "getApprovalStatus env c tokenAddress owner spender amount
          = Inr \<lparr>currentAllowance = nat_to_dec allowance, isApprovalNeeded = (allowance = 0),
                 tokenInfo = Some info, isPermit2Compatible = Some compatible,
                 permit2Address = p2\<rparr>"
    using assms(1-10)
    by (simp add: getApprovalStatus_def validateTokenAddress_def validateWalletAddress_def
          needed p)
  then show ?thesis by simp
qed

theorem getApprovalStatus_without_amount_witness:
  "map_sum id isApprovalNeeded
       (getApprovalStatus (wallet_with_allowance 5) 1 usdc
          ''0x9C30214BeBfC3cD36aA4A11a9540e019f2951c5C''
          ''0x0000000000001fF3684f28c67538d4D072C22734'' None) = Inr False
   \<and> map_sum id isApprovalNeeded
       (getApprovalStatus (wallet_with_allowance 0) 1 usdc
          ''0x9C30214BeBfC3cD36aA4A11a9540e019f2951c5C''
          ''0x0000000000001fF3684f28c67538d4D072C22734'' None) = Inr True"
proof -
  let ?owner = "''0x9C30214BeBfC3cD36aA4A11a9540e019f2951c5C''"
  let ?spender = "''0x0000000000001fF3684f28c67538d4D072C22734''"
  have native: "\<not> isNativeToken usdc"
    by (simp add: isNativeToken_def getNativeTokenAddress_def usdc_def toLowerCase_def lower_char_def)
  have status: "\<exists>r. getApprovalStatus (wallet_with_allowance n) 1 usdc ?owner ?spender None = Inr r
           \<and> currentAllowance r = nat_to_dec n \<and> (isApprovalNeeded r \<longleftrightarrow> n = 0)" for n
  proof -
    have address: "usdc \<noteq> []" "length usdc = 42" "take 2 usdc = ''0x''"
      by (simp_all add: usdc_def)
    show ?thesis
      by (rule getApprovalStatus_without_amount [where info = "''USDC''"])
         (simp_all add: native address wallet_with_allowance_def)
  qed
  show ?thesis
    using status [of 5] status [of 0] by auto
qed

section \<open>Properties of the universal pre-check\<close>

lemma same_chain_evm_category:
  assumes "ecosystem (chain (sellToken request)) = EVM"
    and "ecosystem (chain (buyToken request)) = EVM"
    and "chainId (chain (sellToken request)) = chainId (chain (buyToken request))"
  shows "determineSwapType request = Inr ON_CHAIN"
    and "determineProviderCategory ON_CHAIN request = Inr ''evm-aggregators''"
    and "convertToLegacyParams request = Inr (legacy_params_of request)"
  using assms
  by (simp_all add: determineSwapType_is_autoDetect autoDetectSwapType_def
        getOnChainProviderCategory_def convertToLegacyParams_def
        del: determineSwapType.simps)



lemma liquidityProbe_evm:
  assumes "ecosystem (chain (sellToken request)) = EVM"
    and "ecosystem (chain (buyToken request)) = EVM"
    and "chainId (chain (sellToken request)) = chainId (chain (buyToken request))"
  shows "outcome (fst (liquidityProbe env request)) =
           Some (case liquidityQuotes env (legacy_params_of request) of
                   Inl e \<Rightarrow> False
                 | Inr qs \<Rightarrow>
                     (case qs of
                        [] \<Rightarrow> False
                      | q # _ \<Rightarrow> num_greater (parseFloat (buyAmount (result_quote q))) (Fin 0)))"
  by (simp add: liquidityProbe_def liquidity_failed_def same_chain_evm_category[OF assms] Let_def
        del: determineSwapType.simps determineProviderCategory.simps
        split: sum.splits list.splits)

lemma liquidityAvailable_universalPreCheck:
  "liquidityAvailable (fst (universalPreCheck env svc request)) = outcome (fst (liquidityProbe env request))"
  by (simp add: universalPreCheck_def Let_def split: prod.splits)

lemma weth_usdc_request_same_chain_evm:
  "ecosystem (chain (sellToken weth_usdc_request)) = EVM"
  "ecosystem (chain (buyToken weth_usdc_request)) = EVM"
  "chainId (chain (sellToken weth_usdc_request)) = chainId (chain (buyToken weth_usdc_request))"
  by (simp_all add: weth_usdc_request_def)

lemma evmAggregators_zero_first_manager:
  "evmAggregators zero_first_manager =
     [(''0x'', quoting_adapter ''0x'' ''0''),
      (''odos'', quoting_adapter ''odos'' ''2000000000000000000'')]"
  by (simp add: zero_first_manager_def registerEvmAggregator_def registerInLegacyMap_def Let_def
        Map_has_def empty_manager_def quoting_adapter_def toLowerCase_0x toLowerCase_odos)

lemma manager_quotes_zero_first_manager:
  "manager_quotes zero_first_manager (legacy_params_of weth_usdc_request) =
     Inr [\<lparr>result_aggregator = ZEROX,
           result_quote = convertToLegacyQuote (sample_quote ''0x'' ''0'') ''0x''\<rparr>,
          \<lparr>result_aggregator = ODOS,
           result_quote = convertToLegacyQuote (sample_quote ''odos'' ''2000000000000000000'') ''odos''\<rparr>]"
  by (simp add: manager_quotes_def legacy_params_of_def weth_usdc_request_def getMultipleQuotes_def
        getProvidersForChain_def Map_values_def evmAggregators_zero_first_manager Let_def
        quoting_adapter_def convertToLegacyQuote_def toLowerCase_0x toLowerCase_odos)

lemma manager_quotes_two_quote_manager:
  "manager_quotes two_quote_manager (legacy_params_of weth_usdc_request) =
     Inr [\<lparr>result_aggregator = ZEROX,
           result_quote = convertToLegacyQuote (sample_quote ''0x'' ''2000000000000000000'') ''0x''\<rparr>,
          \<lparr>result_aggregator = ODOS,
           result_quote = convertToLegacyQuote (sample_quote ''odos'' ''2000000000000000100'') ''odos''\<rparr>]"
  by (simp add: manager_quotes_def legacy_params_of_def weth_usdc_request_def getMultipleQuotes_def
        getProvidersForChain_def Map_values_def evmAggregators_two_quote_manager Let_def
        quoting_adapter_def convertToLegacyQuote_def toLowerCase_0x toLowerCase_odos)

lemma liquidityQuotes_manager_env: "liquidityQuotes (manager_env s) = manager_quotes s"
  by (simp add: manager_env_def)

lemma digits_0: "''0'' \<noteq> []" "list_all is_digit ''0''" "digits_val ''0'' = 0"
  by (simp_all add: is_digit_def digits_val_def digit_val_def)

lemma digits_2000000000000000000:
  "''2000000000000000000'' \<noteq> []" "list_all is_digit ''2000000000000000000''"
  "0 < digits_val ''2000000000000000000''"
  by (simp_all add: is_digit_def digits_val_def digit_val_def)

lemma quote_2000000000000000000_positive:
  "num_greater (parseFloat ''2000000000000000000'') (Fin 0)"
  unfolding parseFloat_digits_positive[OF digits_2000000000000000000(1,2)]
  by (rule digits_2000000000000000000(3))

lemma quote_0_not_positive: "\<not> num_greater (parseFloat ''0'') (Fin 0)"
  unfolding parseFloat_digits_positive[OF digits_0(1,2)] digits_0(3) by simp

text \<open>
  Claim C4, as stated, fails: the fan-out returns two quotes, the first with
  \<open>buyAmount\<close> 0 and the second with a positive \<open>buyAmount\<close>, and the probe reports no
  liquidity.
\<close>

theorem liquidityAvailable_first_quote_counterexample:
  "map_sum id (map (\<lambda>r. buyAmount (result_quote r)))
       (liquidityQuotes (manager_env zero_first_manager) (legacy_params_of weth_usdc_request))
     = Inr [''0'', ''2000000000000000000'']
   \<and> num_greater (parseFloat ''2000000000000000000'') (Fin 0)
   \<and> liquidityAvailable
       (fst (universalPreCheck (manager_env zero_first_manager) bootstrap_service weth_usdc_request))
     = Some False"
  by (simp add: liquidityAvailable_universalPreCheck
        liquidityProbe_evm[OF weth_usdc_request_same_chain_evm]
        liquidityQuotes_manager_env manager_quotes_zero_first_manager
        buyAmount_convertToLegacyQuote quote_2000000000000000000_positive
        quote_0_not_positive)

text \<open>
  Claim C4, amended. For a request whose two tokens are on the same EVM chain, the
  liquidity probe reports liquid exactly when the fan-out returns a non-empty list and
  the \<open>buyAmount\<close> of the first quote of that list, read by \<open>parseFloat\<close>, is greater
  than 0; a fan-out that throws gives no liquidity. For a \<open>buyAmount\<close> that is a plain
  digit string, the parsed number is greater than 0 exactly when the integer is.
\<close>

theorem liquidityAvailable_first_quote:
  assumes "ecosystem (chain (sellToken request)) = EVM"
    and "ecosystem (chain (buyToken request)) = EVM"
    and "chainId (chain (sellToken request)) = chainId (chain (buyToken request))"
  shows "liquidityAvailable (fst (universalPreCheck env svc request)) =
           Some (case liquidityQuotes env (legacy_params_of request) of
                   Inl e \<Rightarrow> False
                 | Inr qs \<Rightarrow>
                     (case qs of
                        [] \<Rightarrow> False
                      | q # _ \<Rightarrow> num_greater (parseFloat (buyAmount (result_quote q))) (Fin 0)))
         \<and> (\<forall>q rest. liquidityQuotes env (legacy_params_of request) = Inr (q # rest)
                \<and> buyAmount (result_quote q) \<noteq> []
                \<and> list_all is_digit (buyAmount (result_quote q)) \<longrightarrow>
              liquidityAvailable (fst (universalPreCheck env svc request))
                = Some (0 < digits_val (buyAmount (result_quote q))))"
  unfolding liquidityAvailable_universalPreCheck liquidityProbe_evm[OF assms]
  by (auto simp: parseFloat_digits_positive)

theorem liquidityAvailable_first_quote_witness:
  "ecosystem (chain (sellToken weth_usdc_request)) = EVM
   \<and> ecosystem (chain (buyToken weth_usdc_request)) = EVM
   \<and> chainId (chain (sellToken weth_usdc_request)) = chainId (chain (buyToken weth_usdc_request))
   \<and> map_sum id (map (\<lambda>r. buyAmount (result_quote r)))
       (liquidityQuotes (manager_env two_quote_manager) (legacy_params_of weth_usdc_request))
     = Inr [''2000000000000000000'', ''2000000000000000100'']
   \<and> liquidityAvailable
       (fst (universalPreCheck (manager_env two_quote_manager) bootstrap_service weth_usdc_request))
     = Some True"
proof -
  note t = liquidityAvailable_first_quote [OF weth_usdc_request_same_chain_evm,
      of "manager_env two_quote_manager" bootstrap_service]
  have "liquidityAvailable
       (fst (universalPreCheck (manager_env two_quote_manager) bootstrap_service weth_usdc_request))
     = Some True"
    using t [THEN conjunct1]
    by (simp add: liquidityQuotes_manager_env manager_quotes_two_quote_manager
          buyAmount_convertToLegacyQuote quote_2000000000000000000_positive)
  then show ?thesis
    by (simp add: weth_usdc_request_same_chain_evm liquidityQuotes_manager_env
          manager_quotes_two_quote_manager buyAmount_convertToLegacyQuote)
qed

























end
